(* ===== verification/Prelude.thy ===== *)
theory Prelude
  imports Main "HOL-Library.Word"
begin

text \<open>
  Shared vocabulary of the development: the machine integer types of the code, the
  hint collections of the component theories, and the generic lemmas on maps, lists
  and decimal numerals that several components use.
\<close>

section \<open>Machine integers\<close>

type_synonym u64 = "64 word"
type_synonym u32 = "32 word"
type_synonym i32 = "32 word"

text \<open>
  A proto \<open>int32\<close> or a C++ \<open>int\<close> is a 32-bit word read with \<open>sint\<close>; the cast of
  an \<open>int32\<close> to \<open>uint32_t\<close> keeps the bits, so it is the identity on words.
\<close>

lemma unat_plus_one: "(x :: 'a::len word) \<noteq> - 1 \<Longrightarrow> unat (x + 1) = Suc (unat x)"
  by (metis Suc_eq_plus1 add.commute unatSuc add_eq_0_iff2)

lemma word_less_plus_one: "(x :: 'a::len word) \<noteq> - 1 \<Longrightarrow> x < x + 1"
  by (simp add: word_less_nat_alt unat_plus_one)

lemma word_less_imp_less_plus_one:
  "(x :: 'a::len word) < y \<Longrightarrow> y \<noteq> - 1 \<Longrightarrow> x < y + 1"
  by (simp add: word_less_nat_alt unat_plus_one)

section \<open>Hint collections\<close>

named_theorems outcome_simps "computation rules of the error monad"
named_theorems run_simps "rules that run a program on a state"
named_theorems accessor_simps "computation rules of the proto accessors"
named_theorems handler_simps "unfoldings of the intrinsic handlers"
named_theorems executor_simps "unfoldings of the executor operations"

section \<open>Maps\<close>

lemma map_le_fun_updI [intro]: "m x = None \<Longrightarrow> m \<subseteq>\<^sub>m m(x \<mapsto> v)"
  by (auto simp: map_le_def)

lemma map_leD: "m \<subseteq>\<^sub>m m' \<Longrightarrow> m x = Some v \<Longrightarrow> m' x = Some v"
  by (metis domI map_le_def)

lemma map_of_filter_absent:
  "x \<notin> fst ` set xs \<Longrightarrow> map_of xs x = None"
  by (simp add: map_of_eq_None_iff)

section \<open>Lists\<close>

lemma list_all2_nthD_Some:
  assumes "list_all2 P xs ys" and "i < length xs"
  shows "P (xs ! i) (ys ! i)"
  using assms by (simp add: list_all2_nthD)

lemma take_last_rev: "n \<le> length xs \<Longrightarrow> drop (length xs - n) xs = rev (take n (rev xs))"
  by (simp add: take_rev)

lemma find_rev_distinct:
  assumes "distinct (map f xs)"
  shows "find (\<lambda>x. f x = u) (rev xs) = find (\<lambda>x. f x = u) xs"
proof -
  have char: "find (\<lambda>x. f x = u) ys = Some x \<longleftrightarrow> x \<in> set ys \<and> f x = u"
    if "distinct (map f ys)" for ys x
    using that by (induction ys) auto
  have "distinct (map f (rev xs))" using assms by (simp add: rev_map [symmetric])
  then have "find (\<lambda>x. f x = u) (rev xs) = Some x \<longleftrightarrow> find (\<lambda>x. f x = u) xs = Some x" for x
    using char [of xs x] char [of "rev xs" x] assms by simp
  then show ?thesis by (metis option.exhaust)
qed

section \<open>Decimal numerals\<close>

text \<open>
  The decimal text of a number, as the standard stream and the string libraries print
  it. The definitions that print or parse numbers take the printer and the parser as
  arguments; these concrete ones instantiate them.
\<close>

definition digit_char :: "nat \<Rightarrow> char" where
  "digit_char d = char_of (48 + d)"

definition char_digit :: "char \<Rightarrow> nat option" where
  "char_digit c = (let n = of_char c in if 48 \<le> n \<and> n \<le> 57 then Some (n - 48) else None)"

fun decimal :: "nat \<Rightarrow> string" where
  "decimal n = (if n < 10 then [digit_char n] else decimal (n div 10) @ [digit_char (n mod 10)])"

declare decimal.simps [simp del]

fun read_decimal :: "nat \<Rightarrow> string \<Rightarrow> nat option" where
  "read_decimal acc [] = Some acc"
| "read_decimal acc (c # cs) =
     (case char_digit c of None \<Rightarrow> None | Some d \<Rightarrow> read_decimal (10 * acc + d) cs)"

lemma char_digit_digit_char [simp]: "d < 10 \<Longrightarrow> char_digit (digit_char d) = Some d"
  by (simp add: char_digit_def digit_char_def)

lemma read_decimal_append:
  "read_decimal acc (xs @ ys) =
     (case read_decimal acc xs of None \<Rightarrow> None | Some a \<Rightarrow> read_decimal a ys)"
  by (induction acc xs rule: read_decimal.induct) (auto split: option.splits)

lemma read_decimal_decimal: "read_decimal 0 (decimal n) = Some n"
proof (induction n rule: decimal.induct)
  case (1 n)
  show ?case
  proof (cases "n < 10")
    case True
    then show ?thesis by (subst decimal.simps) simp
  next
    case False
    with 1 have "read_decimal 0 (decimal (n div 10)) = Some (n div 10)" by simp
    with False show ?thesis
      by (subst decimal.simps) (simp add: read_decimal_append)
  qed
qed

lemma decimal_inject: "decimal m = decimal n \<longleftrightarrow> m = n"
  by (metis option.inject read_decimal_decimal)

lemma decimal_nonempty [simp]: "decimal n \<noteq> []"
  by (subst decimal.simps) simp

definition decimal_u64 :: "u64 \<Rightarrow> string" where
  "decimal_u64 w = decimal (unat w)"

definition read_u64 :: "string \<Rightarrow> u64 option" where
  "read_u64 s =
     (if s = [] then None
      else case read_decimal 0 s of
        None \<Rightarrow> None
      | Some n \<Rightarrow> if n < 2 ^ 64 then Some (of_nat n) else None)"

lemma read_u64_decimal_u64: "read_u64 (decimal_u64 w) = Some w"
proof -
  have "unat w < 2 ^ 64"
    using unsigned_less [of w] by simp
  then show ?thesis
    by (simp add: read_u64_def decimal_u64_def read_decimal_decimal)
qed

text \<open>The contract of a printer of numbers together with its parser.\<close>

locale number_codec =
  fixes print :: "'n \<Rightarrow> string"
    and parse :: "string \<Rightarrow> 'n option"
  assumes parse_print: "parse (print n) = Some n"
begin

lemma print_inject: "print m = print n \<longleftrightarrow> m = n"
  by (metis option.inject parse_print)

lemma inj_print: "inj print"
  by (rule injI) (simp add: print_inject)

end

interpretation dec64: number_codec decimal_u64 read_u64
  by unfold_locales (rule read_u64_decimal_u64)

interpretation decnat: number_codec decimal "read_decimal 0"
  by unfold_locales (rule read_decimal_decimal)

end
