(* ===== verification/Computation.thy ===== *)
theory Computation
  imports Prelude
begin

text \<open>
  The intermediate representation: the messages of \<^verbatim>\<open>genc/proto/v0/computation.proto\<close> as
  datatypes, and the generated accessors the C++ code uses on them. A submessage field
  has presence, so it is an \<open>option\<close>; its getter returns the empty message when it is
  absent. A scalar field without presence is its value. Strings and bytes are lists of
  characters; a \<open>float\<close> and the two \<open>Any\<close> payloads are carried as their bytes.
\<close>

section \<open>Types\<close>

datatype ScalarType =
    SCALAR_TYPE_INVALID | SCALAR_TYPE_FLOAT | SCALAR_TYPE_DOUBLE | SCALAR_TYPE_INT32
  | SCALAR_TYPE_UINT8 | SCALAR_TYPE_INT16 | SCALAR_TYPE_INT8 | SCALAR_TYPE_STRING
  | SCALAR_TYPE_COMPLEX64 | SCALAR_TYPE_INT64 | SCALAR_TYPE_BOOL | SCALAR_TYPE_QINT8
  | SCALAR_TYPE_QUINT8 | SCALAR_TYPE_QINT32 | SCALAR_TYPE_BFLOAT16 | SCALAR_TYPE_QINT16
  | SCALAR_TYPE_QUINT16 | SCALAR_TYPE_UINT16 | SCALAR_TYPE_COMPLEX128 | SCALAR_TYPE_HALF
  | SCALAR_TYPE_UINT32 | SCALAR_TYPE_UINT64

datatype ptype =
    TypeNotSet
  | TypeFunction "ptype option" "ptype option"
  | TypeStruct "ptype list"
  | TypeSequence "ptype option"
  | TypeScalar ScalarType
  | TypeTensor ScalarType "64 word list" bool

section \<open>Values\<close>

datatype pvalue =
  Value (value_case: value_oneof) (type_field: "ptype option") (label: string) (mimetype: string)
and value_oneof =
    NotSet
  | KCall (call_function_field: "pvalue option") (call_argument_field: "pvalue option")
  | KLambda lambda_pb
  | KReference string
  | KStruct "pvalue list"
  | KSelection (selection_source_field: "pvalue option") (selection_index: i32)
  | KBlock "local_pb list" "pvalue option"
  | KIntrinsic intrinsic_pb
  | KStr string
  | KBoolean bool
  | KInt32 i32
  | KFloat32 u32
  | KMedia string
  | KTensor string
  | KCustomValue string
and lambda_pb = LambdaPb (parameter_name: string) (lambda_result_field: "pvalue option")
and local_pb = LocalPb (local_name: string) (local_value_field: "pvalue option")
and intrinsic_pb = IntrinsicPb (uri: string) (static_parameter_field: "pvalue option")

abbreviation empty_value :: pvalue where
  "empty_value \<equiv> Value NotSet None [] []"

text \<open>A value whose oneof is set and whose other fields are untouched.\<close>

abbreviation plain :: "value_oneof \<Rightarrow> pvalue" where
  "plain c \<equiv> Value c None [] []"

section \<open>Accessors\<close>

text \<open>The getter of a submessage field: the default instance when the field is absent.\<close>

definition or_default :: "pvalue option \<Rightarrow> pvalue" where
  "or_default f = (case f of None \<Rightarrow> empty_value | Some v \<Rightarrow> v)"

definition type_or_default :: "ptype option \<Rightarrow> ptype" where
  "type_or_default f = (case f of None \<Rightarrow> TypeNotSet | Some t \<Rightarrow> t)"

fun has_str :: "pvalue \<Rightarrow> bool" where
  "has_str (Value (KStr s) t l m) = True"
| "has_str v = False"

fun str :: "pvalue \<Rightarrow> string" where
  "str (Value (KStr s) t l m) = s"
| "str v = []"

fun has_boolean :: "pvalue \<Rightarrow> bool" where
  "has_boolean (Value (KBoolean b) t l m) = True"
| "has_boolean v = False"

fun boolean :: "pvalue \<Rightarrow> bool" where
  "boolean (Value (KBoolean b) t l m) = b"
| "boolean v = False"

fun has_int_32 :: "pvalue \<Rightarrow> bool" where
  "has_int_32 (Value (KInt32 i) t l m) = True"
| "has_int_32 v = False"

fun int_32 :: "pvalue \<Rightarrow> i32" where
  "int_32 (Value (KInt32 i) t l m) = i"
| "int_32 v = 0"

fun has_struct :: "pvalue \<Rightarrow> bool" where
  "has_struct (Value (KStruct es) t l m) = True"
| "has_struct v = False"

fun struct_elements :: "pvalue \<Rightarrow> pvalue list" where
  "struct_elements (Value (KStruct es) t l m) = es"
| "struct_elements v = []"

fun has_reference :: "pvalue \<Rightarrow> bool" where
  "has_reference (Value (KReference n) t l m) = True"
| "has_reference v = False"

fun has_selection :: "pvalue \<Rightarrow> bool" where
  "has_selection (Value (KSelection s i) t l m) = True"
| "has_selection v = False"

fun has_intrinsic :: "pvalue \<Rightarrow> bool" where
  "has_intrinsic (Value (KIntrinsic i) t l m) = True"
| "has_intrinsic v = False"

fun intrinsic :: "pvalue \<Rightarrow> intrinsic_pb" where
  "intrinsic (Value (KIntrinsic i) t l m) = i"
| "intrinsic v = IntrinsicPb [] None"

definition static_parameter :: "intrinsic_pb \<Rightarrow> pvalue" where
  "static_parameter i = or_default (static_parameter_field i)"

definition has_static_parameter :: "intrinsic_pb \<Rightarrow> bool" where
  "has_static_parameter i = (static_parameter_field i \<noteq> None)"

definition lambda_result :: "lambda_pb \<Rightarrow> pvalue" where
  "lambda_result l = or_default (lambda_result_field l)"

definition local_value :: "local_pb \<Rightarrow> pvalue" where
  "local_value l = or_default (local_value_field l)"

definition has_type :: "pvalue \<Rightarrow> bool" where
  "has_type v = (type_field v \<noteq> None)"

definition value_type :: "pvalue \<Rightarrow> ptype" where
  "value_type v = type_or_default (type_field v)"

section \<open>Mutators\<close>

text \<open>
  Setting a member of the oneof clears the other members and keeps the remaining fields;
  \<open>mutable_struct_()\<close> keeps the elements when the struct is already the member set.
\<close>

fun set_case :: "value_oneof \<Rightarrow> pvalue \<Rightarrow> pvalue" where
  "set_case c (Value c0 t l m) = Value c t l m"

fun set_label :: "string \<Rightarrow> pvalue \<Rightarrow> pvalue" where
  "set_label l (Value c t l0 m) = Value c t l m"

fun set_type :: "ptype \<Rightarrow> pvalue \<Rightarrow> pvalue" where
  "set_type ty (Value c t l m) = Value c (Some ty) l m"

definition add_element :: "pvalue \<Rightarrow> pvalue \<Rightarrow> pvalue" where
  "add_element e v = set_case (KStruct (struct_elements v @ [e])) v"

lemmas accessor_defs [accessor_simps] =
  or_default_def type_or_default_def static_parameter_def has_static_parameter_def
  lambda_result_def local_value_def has_type_def value_type_def add_element_def

lemma value_case_set_case [simp]: "value_case (set_case c v) = c"
  by (cases v) simp

lemma label_set_case [simp]: "label (set_case c v) = label v"
  by (cases v) simp

lemma value_case_set_label [simp]: "value_case (set_label l v) = value_case v"
  by (cases v) simp

lemma label_set_label [simp]: "label (set_label l v) = l"
  by (cases v) simp

lemma value_case_set_type [simp]: "value_case (set_type t v) = value_case v"
  by (cases v) simp

lemma has_str_iff: "has_str v \<longleftrightarrow> (\<exists>s. value_case v = KStr s)"
  by (cases v rule: has_str.cases) auto

lemma has_struct_iff: "has_struct v \<longleftrightarrow> (\<exists>es. value_case v = KStruct es)"
  by (cases v rule: has_struct.cases) auto

lemma has_boolean_iff: "has_boolean v \<longleftrightarrow> (\<exists>b. value_case v = KBoolean b)"
  by (cases v rule: has_boolean.cases) auto

lemma str_case: "value_case v = KStr s \<Longrightarrow> str v = s"
  by (cases v) simp

lemma struct_elements_case: "value_case v = KStruct es \<Longrightarrow> struct_elements v = es"
  by (cases v) simp

lemma boolean_case: "value_case v = KBoolean b \<Longrightarrow> boolean v = b"
  by (cases v) simp

lemma has_str_set_label [simp]: "has_str (set_label l v) = has_str v"
  by (simp add: has_str_iff)

lemma has_struct_set_label [simp]: "has_struct (set_label l v) = has_struct v"
  by (simp add: has_struct_iff)

lemma struct_elements_not_struct: "\<not> has_struct v \<Longrightarrow> struct_elements v = []"
  by (cases v rule: struct_elements.cases) auto

lemma str_not_str: "\<not> has_str v \<Longrightarrow> str v = []"
  by (cases v rule: str.cases) auto

end
