(* ===== verification/Status.thy ===== *)
theory Status
  imports Computation
begin

text \<open>
  Errors: \<open>absl::Status\<close> values, the early-return macro of
  \<^verbatim>\<open>genc/cc/runtime/status_macros.h\<close>, and the conversions to and from gRPC statuses of
  \<^verbatim>\<open>genc/cc/base/to_from_grpc_status.cc\<close>. A step of the program is a function from its
  state to an outcome and the state it leaves. An outcome is a value, an error status,
  a crash of the process (an exception nobody catches, a failed CHECK, a read out of
  range) or, where the interpreter's fuel is spent, divergence.
\<close>

section \<open>Statuses\<close>

datatype status_code =
    kCancelled | kUnknown | kInvalidArgument | kDeadlineExceeded | kNotFound
  | kAlreadyExists | kPermissionDenied | kResourceExhausted | kFailedPrecondition
  | kAborted | kOutOfRange | kUnimplemented | kInternal | kUnavailable | kDataLoss
  | kUnauthenticated

text \<open>
  A message is the list of the pieces that \<open>absl::StrCat\<close> concatenates. The text that a
  proto prints for debugging is not part of the code, so it is a piece of its own, named
  by the message it prints.
\<close>

datatype msg_part =
    Txt string
  | Num int
  | DebugString pvalue
  | TypeDebugString ptype
  | ScalarName ScalarType
  | StatusText status_code "msg_part list"

type_synonym message = "msg_part list"

datatype status = Status (code: status_code) (msg: message)

datatype crash = BadOptionalAccess | IndexOutOfRange | CheckFailed | NullDereference | UncaughtException

datatype 'a outcome = Ok 'a | Err status | Crash crash | Diverge

abbreviation InvalidArgumentError :: "message \<Rightarrow> 'a outcome" where
  "InvalidArgumentError m \<equiv> Err (Status kInvalidArgument m)"

abbreviation InternalError :: "message \<Rightarrow> 'a outcome" where
  "InternalError m \<equiv> Err (Status kInternal m)"

abbreviation NotFoundError :: "message \<Rightarrow> 'a outcome" where
  "NotFoundError m \<equiv> Err (Status kNotFound m)"

abbreviation UnimplementedError :: "message \<Rightarrow> 'a outcome" where
  "UnimplementedError m \<equiv> Err (Status kUnimplemented m)"

section \<open>The early-return macro\<close>

type_synonym ('s, 'a) prog = "'s \<Rightarrow> 'a outcome \<times> 's"

definition return :: "'a \<Rightarrow> ('s, 'a) prog" where
  "return x = (\<lambda>s. (Ok x, s))"

definition lift :: "'a outcome \<Rightarrow> ('s, 'a) prog" where
  "lift r = (\<lambda>s. (r, s))"

text \<open>\<open>GENC_TRY\<close> on a value that is already there.\<close>

fun try_value :: "'a outcome \<Rightarrow> ('a \<Rightarrow> 'b outcome) \<Rightarrow> 'b outcome" where
  "try_value (Ok x) k = k x"
| "try_value (Err e) k = Err e"
| "try_value (Crash c) k = Crash c"
| "try_value Diverge k = Diverge"

text \<open>\<open>GENC_TRY\<close> on a step: an outcome that is not a value skips the rest.\<close>

definition GENC_TRY :: "('s, 'a) prog \<Rightarrow> ('a \<Rightarrow> ('s, 'b) prog) \<Rightarrow> ('s, 'b) prog" where
  "GENC_TRY p k = (\<lambda>s. case p s of
      (Ok x, s') \<Rightarrow> k x s'
    | (Err e, s') \<Rightarrow> (Err e, s')
    | (Crash c, s') \<Rightarrow> (Crash c, s')
    | (Diverge, s') \<Rightarrow> (Diverge, s'))"

text \<open>The second argument of the macro is appended to the message after a space.\<close>

definition get_status :: "status \<Rightarrow> message \<Rightarrow> status" where
  "get_status st suffix = Status (code st) (msg st @ [Txt '' ''] @ suffix)"

definition with_suffix :: "message \<Rightarrow> ('s, 'a) prog \<Rightarrow> ('s, 'a) prog" where
  "with_suffix m p = (\<lambda>s. case p s of
      (Err e, s') \<Rightarrow> (Err (get_status e m), s')
    | r \<Rightarrow> r)"

fun map_try :: "('a \<Rightarrow> ('s, 'b) prog) \<Rightarrow> 'a list \<Rightarrow> ('s, 'b list) prog" where
  "map_try f [] = return []"
| "map_try f (x # xs) = GENC_TRY (f x) (\<lambda>y. GENC_TRY (map_try f xs) (\<lambda>ys. return (y # ys)))"

fun fold_try :: "('a \<Rightarrow> 'b \<Rightarrow> ('s, 'b) prog) \<Rightarrow> 'a list \<Rightarrow> 'b \<Rightarrow> ('s, 'b) prog" where
  "fold_try f [] st = return st"
| "fold_try f (x # xs) st = GENC_TRY (f x st) (fold_try f xs)"

section \<open>Laws of the error monad\<close>

lemma GENC_TRY_return [simp, outcome_simps]: "GENC_TRY (return x) k = k x"
  by (simp add: GENC_TRY_def return_def)

lemma GENC_TRY_lift_Err [simp, outcome_simps]: "GENC_TRY (lift (Err e)) k = lift (Err e)"
  by (simp add: GENC_TRY_def lift_def)

lemma GENC_TRY_lift_Ok [simp, outcome_simps]: "GENC_TRY (lift (Ok x)) k = k x"
  by (simp add: GENC_TRY_def lift_def)

lemma GENC_TRY_lift_Crash [simp, outcome_simps]: "GENC_TRY (lift (Crash c)) k = lift (Crash c)"
  by (simp add: GENC_TRY_def lift_def)

lemma GENC_TRY_lift_Diverge [simp, outcome_simps]: "GENC_TRY (lift Diverge) k = lift Diverge"
  by (simp add: GENC_TRY_def lift_def)

lemma lift_Ok: "lift (Ok x) = return x"
  by (simp add: lift_def return_def)

lemma return_apply [run_simps]: "return x s = (Ok x, s)"
  by (simp add: return_def)

lemma lift_apply [run_simps]: "lift r s = (r, s)"
  by (simp add: lift_def)

lemma GENC_TRY_Pair [simp]:
  "GENC_TRY (Pair (Ok x)) k = k x"
  "GENC_TRY (Pair (Err e)) k = Pair (Err e)"
  "GENC_TRY (Pair (Crash c)) k = Pair (Crash c)"
  "GENC_TRY (Pair Diverge) k = Pair Diverge"
  by (simp_all add: GENC_TRY_def)

lemma GENC_TRY_apply [run_simps]:
  "GENC_TRY p k s = (case p s of
      (Ok x, s') \<Rightarrow> k x s'
    | (Err e, s') \<Rightarrow> (Err e, s')
    | (Crash c, s') \<Rightarrow> (Crash c, s')
    | (Diverge, s') \<Rightarrow> (Diverge, s'))"
  by (simp add: GENC_TRY_def)

lemma GENC_TRY_right_return [simp]: "GENC_TRY p return = p"
  by (rule ext) (simp add: GENC_TRY_def return_def split: prod.splits outcome.splits)

lemma GENC_TRY_assoc:
  "GENC_TRY (GENC_TRY p k) h = GENC_TRY p (\<lambda>x. GENC_TRY (k x) h)"
  by (rule ext) (simp add: GENC_TRY_def split: prod.splits outcome.splits)

lemma fold_try_Nil: "fold_try f [] = return"
  by (rule ext) simp

lemma fold_try_single [simp]: "fold_try f [x] st = f x st"
  by (simp add: fold_try_Nil)

lemma fold_try_append_fun:
  "fold_try f (xs @ ys) = (\<lambda>st. GENC_TRY (fold_try f xs st) (fold_try f ys))"
  by (induction xs) (rule ext, simp add: GENC_TRY_assoc)+

lemma fold_try_append:
  "fold_try f (xs @ ys) st = GENC_TRY (fold_try f xs st) (fold_try f ys)"
  by (simp add: fold_try_append_fun)

lemma try_value_eq_Ok: "try_value r k = Ok y \<longleftrightarrow> (\<exists>x. r = Ok x \<and> k x = Ok y)"
  by (cases r) auto

lemma GENC_TRY_eq_Ok:
  "GENC_TRY p k s = (Ok y, s'') \<longleftrightarrow> (\<exists>x s'. p s = (Ok x, s') \<and> k x s' = (Ok y, s''))"
  by (auto simp: GENC_TRY_def split: prod.splits outcome.splits)

section \<open>gRPC statuses\<close>

text \<open>
  Both status types carry an \<open>int\<close> code with the same numbering; the conversions cast
  the number. \<open>None\<close> is the OK status. A number outside the canonical codes reads back
  as \<open>kUnknown\<close>.
\<close>

record grpc_status =
  error_code :: int
  error_message :: message

fun raw_code :: "status_code \<Rightarrow> int" where
  "raw_code kCancelled = 1"
| "raw_code kUnknown = 2"
| "raw_code kInvalidArgument = 3"
| "raw_code kDeadlineExceeded = 4"
| "raw_code kNotFound = 5"
| "raw_code kAlreadyExists = 6"
| "raw_code kPermissionDenied = 7"
| "raw_code kResourceExhausted = 8"
| "raw_code kFailedPrecondition = 9"
| "raw_code kAborted = 10"
| "raw_code kOutOfRange = 11"
| "raw_code kUnimplemented = 12"
| "raw_code kInternal = 13"
| "raw_code kUnavailable = 14"
| "raw_code kDataLoss = 15"
| "raw_code kUnauthenticated = 16"

definition canonical_codes :: "status_code list" where
  "canonical_codes = [kCancelled, kUnknown, kInvalidArgument, kDeadlineExceeded, kNotFound,
     kAlreadyExists, kPermissionDenied, kResourceExhausted, kFailedPrecondition, kAborted,
     kOutOfRange, kUnimplemented, kInternal, kUnavailable, kDataLoss, kUnauthenticated]"

definition code_of_raw :: "int \<Rightarrow> status_code" where
  "code_of_raw n = (case find (\<lambda>c. raw_code c = n) canonical_codes of None \<Rightarrow> kUnknown | Some c \<Rightarrow> c)"

definition grpc_ok :: grpc_status where
  "grpc_ok = \<lparr>error_code = 0, error_message = []\<rparr>"

definition AbslToGrpcStatus :: "status option \<Rightarrow> grpc_status" where
  "AbslToGrpcStatus st = (case st of
      None \<Rightarrow> grpc_ok
    | Some e \<Rightarrow> \<lparr>error_code = raw_code (code e), error_message = msg e\<rparr>)"

definition GrpcToAbslStatus :: "grpc_status \<Rightarrow> status option" where
  "GrpcToAbslStatus g =
     (if error_code g = 0 then None
      else Some (Status (code_of_raw (error_code g)) (error_message g)))"

lemma raw_code_nonzero [simp]: "raw_code c \<noteq> 0"
  by (cases c) simp_all

lemma code_of_raw_raw_code [simp]: "code_of_raw (raw_code c) = c"
  by (cases c) (simp_all add: code_of_raw_def canonical_codes_def)

text \<open>
  An absl status sent as a gRPC status and turned back is the status it was: the
  code and the message of an error survive the trip, and OK stays OK.
\<close>

lemma grpc_status_roundtrip: "GrpcToAbslStatus (AbslToGrpcStatus st) = st"
  by (cases st) (simp_all add: AbslToGrpcStatus_def GrpcToAbslStatus_def grpc_ok_def)

text \<open>The status of an outcome that a service method returns.\<close>

definition status_of :: "'a outcome \<Rightarrow> status option" where
  "status_of r = (case r of Err e \<Rightarrow> Some e | _ \<Rightarrow> None)"

lemma status_of_simps [simp]:
  "status_of (Ok x) = None" "status_of (Err e) = Some e"
  by (simp_all add: status_of_def)

end
