(* ===== verification/Executor.thy ===== *)
theory Executor
  imports Status
begin

text \<open>
  \<^verbatim>\<open>genc/cc/runtime/executor.h\<close>: the interface every executor offers, the owned handles
  that dispose of a value when they go away, and the base class that keeps the table of
  tracked values behind the handles.
\<close>

section \<open>The executor interface\<close>

text \<open>
  \<open>ExecutorInterface\<close> is a template in the reference type: \<open>'h\<close> is a \<open>ValueId\<close> for an
  executor and a shared pointer for the context of a control flow handler. The flag of
  \<open>materialize\<close> says whether the output pointer is not null, and the result is what was
  written to it.
\<close>

type_synonym ValueId = u64

record ('h, 's) executor =
  create_value :: "pvalue \<Rightarrow> ('s, 'h) prog"
  create_call :: "'h \<Rightarrow> 'h option \<Rightarrow> ('s, 'h) prog"
  create_struct :: "'h list \<Rightarrow> ('s, 'h) prog"
  create_selection :: "'h \<Rightarrow> u32 \<Rightarrow> ('s, 'h) prog"
  materialize :: "'h \<Rightarrow> bool \<Rightarrow> ('s, pvalue option) prog"
  dispose :: "'h \<Rightarrow> ('s, unit) prog"

section \<open>The base class: tracked values\<close>

text \<open>
  The virtual methods a subclass supplies, over its own value type \<open>'v\<close> and its own
  state \<open>'s\<close>; the base class adds the identifier counter and the table.
\<close>

record ('v, 's) executor_impl =
  executor_name :: string
  impl_create_value :: "pvalue \<Rightarrow> ('s, 'v) prog"
  impl_create_call :: "'v \<Rightarrow> 'v option \<Rightarrow> ('s, 'v) prog"
  impl_create_struct :: "'v list \<Rightarrow> ('s, 'v) prog"
  impl_create_selection :: "'v \<Rightarrow> u32 \<Rightarrow> ('s, 'v) prog"
  impl_materialize :: "'v \<Rightarrow> bool \<Rightarrow> ('s, pvalue option) prog"

record ('v, 's) base_state =
  next_value_id :: ValueId
  tracked_values :: "ValueId \<rightharpoonup> 'v"
  sub_state :: 's

definition initial_state :: "'s \<Rightarrow> ('v, 's) base_state" where
  "initial_state s = \<lparr>next_value_id = 0, tracked_values = Map.empty, sub_state = s\<rparr>"

text \<open>Runs a method of the subclass on the subclass's part of the state.\<close>

definition in_sub :: "('s, 'a) prog \<Rightarrow> (('v, 's) base_state, 'a) prog" where
  "in_sub p = (\<lambda>b. case p (sub_state b) of (r, s') \<Rightarrow> (r, b\<lparr>sub_state := s'\<rparr>))"

text \<open>\<open>emplace\<close> keeps the entry that is already there; the counter wraps at \<open>2 ^ 64\<close>.\<close>

definition TrackValue :: "'v \<Rightarrow> (('v, 's) base_state, ValueId) prog" where
  "TrackValue v = (\<lambda>b.
     let vid = next_value_id b;
         values = (if tracked_values b vid = None then (tracked_values b)(vid \<mapsto> v) else tracked_values b)
     in (Ok vid, b\<lparr>next_value_id := vid + 1, tracked_values := values\<rparr>))"

definition GetTracked :: "string \<Rightarrow> ValueId \<Rightarrow> (('v, 's) base_state, 'v) prog" where
  "GetTracked name vid = (\<lambda>b. case tracked_values b vid of
      None \<Rightarrow> (NotFoundError [Txt name, Txt '' value not found: '', Num (uint vid)], b)
    | Some v \<Rightarrow> (Ok v, b))"

definition ClearTracked :: "('v, 's) base_state \<Rightarrow> ('v, 's) base_state" where
  "ClearTracked b = b\<lparr>tracked_values := Map.empty\<rparr>"

definition base_create_value ::
  "('v, 's) executor_impl \<Rightarrow> pvalue \<Rightarrow> (('v, 's) base_state, ValueId) prog" where
  "base_create_value impl val = GENC_TRY (in_sub (impl_create_value impl val)) TrackValue"

definition base_create_call ::
  "('v, 's) executor_impl \<Rightarrow> ValueId \<Rightarrow> ValueId option \<Rightarrow> (('v, 's) base_state, ValueId) prog" where
  "base_create_call impl function argument =
     GENC_TRY (GetTracked (executor_name impl) function) (\<lambda>function_val.
     GENC_TRY (case argument of
                 None \<Rightarrow> return None
               | Some a \<Rightarrow> GENC_TRY (GetTracked (executor_name impl) a) (\<lambda>v. return (Some v)))
       (\<lambda>argument_val.
     GENC_TRY (in_sub (impl_create_call impl function_val argument_val)) TrackValue))"

definition base_create_struct ::
  "('v, 's) executor_impl \<Rightarrow> ValueId list \<Rightarrow> (('v, 's) base_state, ValueId) prog" where
  "base_create_struct impl members =
     GENC_TRY (map_try (GetTracked (executor_name impl)) members) (\<lambda>member_values.
     GENC_TRY (in_sub (impl_create_struct impl member_values)) TrackValue)"

definition base_create_selection ::
  "('v, 's) executor_impl \<Rightarrow> ValueId \<Rightarrow> u32 \<Rightarrow> (('v, 's) base_state, ValueId) prog" where
  "base_create_selection impl source index =
     GENC_TRY (GetTracked (executor_name impl) source) (\<lambda>v.
     GENC_TRY (in_sub (impl_create_selection impl v index)) TrackValue)"

definition base_materialize ::
  "('v, 's) executor_impl \<Rightarrow> ValueId \<Rightarrow> bool \<Rightarrow> (('v, 's) base_state, pvalue option) prog" where
  "base_materialize impl value_id want =
     GENC_TRY (GetTracked (executor_name impl) value_id) (\<lambda>v.
     in_sub (impl_materialize impl v want))"

definition base_dispose ::
  "('v, 's) executor_impl \<Rightarrow> ValueId \<Rightarrow> (('v, 's) base_state, unit) prog" where
  "base_dispose impl vid = (\<lambda>b. case tracked_values b vid of
      None \<Rightarrow> (NotFoundError [Txt (executor_name impl), Txt '' value not found: '', Num (uint vid),
                               Txt '', cannot dispose.''], b)
    | Some v \<Rightarrow> (Ok (), b\<lparr>tracked_values := (tracked_values b)(vid := None)\<rparr>))"

definition ExecutorBase ::
  "('v, 's) executor_impl \<Rightarrow> (ValueId, ('v, 's) base_state) executor" where
  "ExecutorBase impl = \<lparr>
     create_value = base_create_value impl,
     create_call = base_create_call impl,
     create_struct = base_create_struct impl,
     create_selection = base_create_selection impl,
     materialize = base_materialize impl,
     dispose = base_dispose impl\<rparr>"

lemma ExecutorBase_sel [simp]:
  "create_value (ExecutorBase impl) = base_create_value impl"
  "create_call (ExecutorBase impl) = base_create_call impl"
  "create_struct (ExecutorBase impl) = base_create_struct impl"
  "create_selection (ExecutorBase impl) = base_create_selection impl"
  "materialize (ExecutorBase impl) = base_materialize impl"
  "dispose (ExecutorBase impl) = base_dispose impl"
  by (simp_all add: ExecutorBase_def)

section \<open>The invariant of the table\<close>

text \<open>
  Before the counter wraps, every tracked identifier is below it: a new identifier is
  fresh, and an identifier that was disposed of is never handed out again.
\<close>

definition tracked_inv :: "('v, 's) base_state \<Rightarrow> bool" where
  "tracked_inv b \<longleftrightarrow> (\<forall>vid. tracked_values b vid \<noteq> None \<longrightarrow> vid < next_value_id b)"

text \<open>The counter has not reached the last identifier, which is the invalid one.\<close>

definition room :: "('v, 's) base_state \<Rightarrow> bool" where
  "room b \<longleftrightarrow> next_value_id b \<noteq> - 1"

lemma tracked_inv_initial: "tracked_inv (initial_state s)"
  by (simp add: tracked_inv_def initial_state_def)

lemma tracked_inv_fresh: "tracked_inv b \<Longrightarrow> tracked_values b (next_value_id b) = None"
  by (auto simp: tracked_inv_def)

lemma TrackValue_eq:
  assumes "tracked_inv b"
  shows "TrackValue v b = (Ok (next_value_id b),
    b\<lparr>next_value_id := next_value_id b + 1,
      tracked_values := (tracked_values b)(next_value_id b \<mapsto> v)\<rparr>)"
  using tracked_inv_fresh [OF assms] by (simp add: TrackValue_def Let_def)

lemma TrackValue_inv:
  assumes "tracked_inv b" and "room b"
  shows "tracked_inv (snd (TrackValue v b))"
  using assms
  by (auto simp: TrackValue_eq tracked_inv_def room_def word_less_plus_one
      intro: word_less_imp_less_plus_one)

lemma GetTracked_Some: "tracked_values b vid = Some v \<Longrightarrow> GetTracked n vid b = (Ok v, b)"
  by (simp add: GetTracked_def)

lemma GetTracked_eq_Ok: "GetTracked n vid b = (Ok v, b') \<longleftrightarrow> b' = b \<and> tracked_values b vid = Some v"
  by (auto simp: GetTracked_def split: option.splits)

lemma snd_GetTracked [simp]: "snd (GetTracked n vid b) = b"
  by (simp add: GetTracked_def split: option.splits)

lemma dispose_inv: "tracked_inv b \<Longrightarrow> tracked_inv (snd (base_dispose impl vid b))"
  by (auto simp: base_dispose_def tracked_inv_def split: option.splits)

lemma in_sub_table:
  "tracked_values (snd (in_sub p b)) = tracked_values b"
  "next_value_id (snd (in_sub p b)) = next_value_id b"
  by (simp_all add: in_sub_def split: prod.splits)

section \<open>The contract of a store of handles\<close>

text \<open>
  What a client of the table relies on: a value that is tracked can be read back through
  its handle, the handle was not in use, and neither tracking nor disposing of another
  handle changes what a handle stands for.
\<close>

locale handle_store =
  fixes track :: "'v \<Rightarrow> ('b, 'h) prog"
    and lookup :: "'b \<Rightarrow> 'h \<Rightarrow> 'v option"
    and drop_handle :: "'h \<Rightarrow> ('b, unit) prog"
    and good :: "'b \<Rightarrow> bool"
    and spare :: "'b \<Rightarrow> bool"
  assumes track_ok: "good b \<Longrightarrow> track v b = (r, b') \<Longrightarrow>
      \<exists>h. r = Ok h \<and> lookup b h = None \<and> lookup b' = (lookup b)(h \<mapsto> v)"
    and track_good: "good b \<Longrightarrow> spare b \<Longrightarrow> track v b = (r, b') \<Longrightarrow> good b'"
    and drop_lookup: "lookup b h = Some v \<Longrightarrow> drop_handle h b = (d, b') \<Longrightarrow>
      d = Ok () \<and> lookup b' = (lookup b)(h := None)"
    and drop_missing: "lookup b h = None \<Longrightarrow> \<exists>e. drop_handle h b = (Err e, b)"
    and drop_good: "good b \<Longrightarrow> drop_handle h b = (d, b') \<Longrightarrow> good b'"
begin

lemma track_keeps:
  assumes "good b" and "track v b = (r, b')" and "lookup b h = Some w"
  shows "lookup b' h = Some w"
  using track_ok [OF assms(1,2)] assms(3) by auto

lemma track_extends: "good b \<Longrightarrow> track v b = (r, b') \<Longrightarrow> lookup b \<subseteq>\<^sub>m lookup b'"
  using track_ok by fastforce

lemma track_twice_distinct:
  assumes "good b" and "spare b" and "track v b = (Ok h, b')" and "track w b' = (Ok h', b'')"
  shows "h \<noteq> h' \<and> lookup b'' h = Some v \<and> lookup b'' h' = Some w"
  using track_ok [OF assms(1,3)] track_ok [OF track_good [OF assms(1-3)] assms(4)] by auto

lemma drop_twice:
  assumes "lookup b h = Some v" and "drop_handle h b = (r, b')"
  shows "\<exists>e. drop_handle h b' = (Err e, b')"
  using drop_lookup [OF assms] drop_missing [of b' h] by simp

end

interpretation tracked: handle_store
  TrackValue tracked_values "base_dispose impl" tracked_inv room
  for impl :: "('v, 's) executor_impl"
proof unfold_locales
  fix b :: "('v, 's) base_state" and v r b'
  assume inv: "tracked_inv b" and t: "TrackValue v b = (r, b')"
  show "\<exists>h. r = Ok h \<and> tracked_values b h = None \<and> tracked_values b' = (tracked_values b)(h \<mapsto> v)"
    using t tracked_inv_fresh [OF inv] by (auto simp: TrackValue_eq [OF inv])
  assume "room b"
  with TrackValue_inv [OF inv this, of v] t show "tracked_inv b'" by simp
next
  fix b b' :: "('v, 's) base_state" and h v and r :: "unit outcome"
  show "tracked_values b h = Some v \<Longrightarrow> base_dispose impl h b = (r, b') \<Longrightarrow>
      r = Ok () \<and> tracked_values b' = (tracked_values b)(h := None)"
    by (auto simp: base_dispose_def)
  show "tracked_values b h = None \<Longrightarrow> \<exists>e. base_dispose impl h b = (Err e, b)"
    by (simp add: base_dispose_def)
  show "tracked_inv b \<Longrightarrow> base_dispose impl h b = (r, b') \<Longrightarrow> tracked_inv b'"
    using dispose_inv [of b impl h] by simp
qed

end
