(* ===== verification/Ownership.thy ===== *)
theory Ownership
  imports Executor
begin

text \<open>
  \<open>OwnedValueId\<close> of \<^verbatim>\<open>genc/cc/runtime/executor.h\<close>: a handle that disposes of its value
  when it is destroyed, and can be moved but not copied. A program is a sequence of
  operations on a collection of owners that share an executor, which may be destroyed
  before them. The theorem shows that the table holds exactly what the owners own.
\<close>

section \<open>The owner and its operations\<close>

definition INVALID_ID :: ValueId where
  "INVALID_ID = - 1"

record OwnedValueId =
  owned_exec :: bool
  owned_id :: ValueId

definition owned_ref :: "OwnedValueId \<Rightarrow> ValueId outcome" where
  "owned_ref o1 = (if owned_id o1 \<noteq> INVALID_ID then Ok (owned_id o1) else Crash CheckFailed)"

definition forget :: "OwnedValueId \<Rightarrow> OwnedValueId" where
  "forget o1 = o1\<lparr>owned_id := INVALID_ID\<rparr>"

text \<open>
  The weak pointer locks when it was not moved out of and the executor is still alive;
  the status of the disposal is ignored.
\<close>

definition release ::
  "('v, 's) executor_impl \<Rightarrow> OwnedValueId \<Rightarrow> ('v, 's) base_state option
     \<Rightarrow> OwnedValueId \<times> ('v, 's) base_state option" where
  "release impl o1 ex =
     (if owned_id o1 \<noteq> INVALID_ID then
        (forget o1,
         if owned_exec o1 then map_option (\<lambda>b. snd (base_dispose impl (owned_id o1) b)) ex else ex)
      else (o1, ex))"

section \<open>Sequences of operations on owners\<close>

record ('v, 's) owners =
  slots :: "OwnedValueId list"
  alive :: "('v, 's) base_state option"

datatype 'v owner_op =
    Create 'v
  | MoveConstruct nat
  | MoveAssign nat nat
  | Release nat
  | DestroyExecutor

fun create_owner :: "'v \<Rightarrow> ('v, 's) owners \<Rightarrow> ('v, 's) owners" where
  "create_owner v w = (case alive w of
      None \<Rightarrow> w
    | Some b \<Rightarrow> (case TrackValue v b of
        (Ok vid, b') \<Rightarrow> w\<lparr>slots := slots w @ [\<lparr>owned_exec = True, owned_id = vid\<rparr>], alive := Some b'\<rparr>
      | (_, b') \<Rightarrow> w\<lparr>alive := Some b'\<rparr>))"

text \<open>The source of a move loses its weak pointer and its identifier.\<close>

definition moved_from :: "OwnedValueId \<Rightarrow> OwnedValueId" where
  "moved_from o1 = forget (o1\<lparr>owned_exec := False\<rparr>)"

definition move_construct :: "nat \<Rightarrow> ('v, 's) owners \<Rightarrow> ('v, 's) owners" where
  "move_construct i w =
     (if i < length (slots w)
      then w\<lparr>slots := (slots w)[i := moved_from (slots w ! i)] @ [slots w ! i]\<rparr>
      else w)"

definition release_slot ::
  "('v, 's) executor_impl \<Rightarrow> nat \<Rightarrow> ('v, 's) owners \<Rightarrow> ('v, 's) owners" where
  "release_slot impl i w =
     (if i < length (slots w)
      then case release impl (slots w ! i) (alive w) of
        (o1, ex) \<Rightarrow> w\<lparr>slots := (slots w)[i := o1], alive := ex\<rparr>
      else w)"

definition move_assign ::
  "('v, 's) executor_impl \<Rightarrow> nat \<Rightarrow> nat \<Rightarrow> ('v, 's) owners \<Rightarrow> ('v, 's) owners" where
  "move_assign impl i j w =
     (if i < length (slots w) \<and> j < length (slots w)
      then let w1 = release_slot impl i w; other = slots w1 ! j
           in w1\<lparr>slots := ((slots w1)[i := other])[j := moved_from other]\<rparr>
      else w)"

fun owner_step ::
  "('v, 's) executor_impl \<Rightarrow> 'v owner_op \<Rightarrow> ('v, 's) owners \<Rightarrow> ('v, 's) owners" where
  "owner_step impl (Create v) w = create_owner v w"
| "owner_step impl (MoveConstruct i) w = move_construct i w"
| "owner_step impl (MoveAssign i j) w = move_assign impl i j w"
| "owner_step impl (Release i) w = release_slot impl i w"
| "owner_step impl DestroyExecutor w = w\<lparr>alive := None\<rparr>"

definition owner_run ::
  "('v, 's) executor_impl \<Rightarrow> 'v owner_op list \<Rightarrow> ('v, 's) owners \<Rightarrow> ('v, 's) owners" where
  "owner_run impl ops w = fold (owner_step impl) ops w"

fun creations :: "'v owner_op list \<Rightarrow> nat" where
  "creations [] = 0"
| "creations (Create v # ops) = Suc (creations ops)"
| "creations (op # ops) = creations ops"

section \<open>What the owners own\<close>

definition owned_ids :: "OwnedValueId list \<Rightarrow> ValueId list" where
  "owned_ids os = filter (\<lambda>i. i \<noteq> INVALID_ID) (map owned_id os)"

definition owners_inv :: "('v, 's) owners \<Rightarrow> bool" where
  "owners_inv w \<longleftrightarrow>
     (\<forall>o1 \<in> set (slots w). owned_id o1 \<noteq> INVALID_ID \<longrightarrow> owned_exec o1) \<and>
     (case alive w of None \<Rightarrow> True
      | Some b \<Rightarrow> tracked_inv b \<and> distinct (owned_ids (slots w)) \<and>
                  set (owned_ids (slots w)) = dom (tracked_values b))"

definition no_owners :: "'s \<Rightarrow> ('v, 's) owners" where
  "no_owners s = \<lparr>slots = [], alive = Some (initial_state s)\<rparr>"

lemma owners_inv_initial: "owners_inv (no_owners s)"
  by (simp add: owners_inv_def no_owners_def owned_ids_def tracked_inv_initial)
     (simp add: initial_state_def)

lemma owned_ids_append [simp]: "owned_ids (xs @ ys) = owned_ids xs @ owned_ids ys"
  by (simp add: owned_ids_def)

lemma owned_ids_Nil [simp]: "owned_ids [] = []"
  by (simp add: owned_ids_def)

lemma owned_ids_Cons [simp]:
  "owned_ids (x # xs) = (if owned_id x = INVALID_ID then owned_ids xs else owned_id x # owned_ids xs)"
  by (simp add: owned_ids_def)

lemma set_owned_ids:
  "set (owned_ids os) = {owned_id (os ! i) | i. i < length os \<and> owned_id (os ! i) \<noteq> INVALID_ID}"
proof
  show "set (owned_ids os) \<subseteq> {owned_id (os ! i) | i. i < length os \<and> owned_id (os ! i) \<noteq> INVALID_ID}"
    by (fastforce simp: owned_ids_def in_set_conv_nth)
  show "{owned_id (os ! i) | i. i < length os \<and> owned_id (os ! i) \<noteq> INVALID_ID} \<subseteq> set (owned_ids os)"
    by (auto simp: owned_ids_def)
qed

lemma distinct_owned_ids:
  "distinct (owned_ids os) \<longleftrightarrow>
     (\<forall>i < length os. \<forall>j < length os.
        owned_id (os ! i) \<noteq> INVALID_ID \<longrightarrow> owned_id (os ! i) = owned_id (os ! j) \<longrightarrow> i = j)"
proof (induction os rule: rev_induct)
  case (snoc x os)
  have "distinct (owned_ids (os @ [x])) \<longleftrightarrow> distinct (owned_ids os) \<and>
      (owned_id x \<noteq> INVALID_ID \<longrightarrow> (\<forall>i < length os. owned_id (os ! i) \<noteq> owned_id x))"
    by (auto simp: set_owned_ids)
  then show ?case
    unfolding snoc.IH by (simp add: All_less_Suc nth_append) metis
qed simp

lemma moved_from_id [simp]: "owned_id (moved_from o1) = INVALID_ID"
  by (simp add: moved_from_def forget_def)

lemma forget_id [simp]: "owned_id (forget o1) = INVALID_ID"
  by (simp add: forget_def)

section \<open>Every operation keeps the table and the owners in step\<close>

definition ids_ok :: "OwnedValueId list \<Rightarrow> ValueId set \<Rightarrow> bool" where
  "ids_ok os D \<longleftrightarrow> distinct (owned_ids os) \<and> set (owned_ids os) = D"

lemma ids_ok_append:
  "ids_ok os D \<Longrightarrow> v \<notin> D \<Longrightarrow> v \<noteq> INVALID_ID \<Longrightarrow> ids_ok (os @ [\<lparr>owned_exec = e, owned_id = v\<rparr>]) (insert v D)"
  by (auto simp: ids_ok_def)

lemma ids_ok_drop:
  assumes "ids_ok os D" and "i < length os" and "owned_id x = INVALID_ID"
  shows "ids_ok (os[i := x]) (D - {owned_id (os ! i)})"
proof -
  have "distinct (owned_ids (os[i := x]))"
    using assms unfolding ids_ok_def distinct_owned_ids
    by (auto simp: nth_list_update split: if_splits)
  moreover have "set (owned_ids (os[i := x])) = D - {owned_id (os ! i)}"
    using assms unfolding ids_ok_def distinct_owned_ids set_owned_ids
    by (auto simp: nth_list_update split: if_splits)
  ultimately show ?thesis by (simp add: ids_ok_def)
qed

lemma ids_ok_move:
  assumes "ids_ok os D" and "i < length os"
  shows "ids_ok (os[i := moved_from (os ! i)] @ [os ! i]) D"
proof -
  have "ids_ok (os[i := moved_from (os ! i)]) (D - {owned_id (os ! i)})"
    using ids_ok_drop [OF assms] by simp
  moreover have "owned_id (os ! i) \<noteq> INVALID_ID \<Longrightarrow> owned_id (os ! i) \<in> D"
    using assms by (auto simp: ids_ok_def set_owned_ids)
  moreover have "INVALID_ID \<notin> D"
    using assms by (auto simp: ids_ok_def set_owned_ids)
  ultimately show ?thesis by (auto simp: ids_ok_def)
qed

lemma ids_ok_assign:
  assumes "ids_ok os D" and "i < length os" and "j < length os" and "owned_id (os ! i) = INVALID_ID"
  shows "ids_ok ((os[i := os ! j])[j := moved_from (os ! j)]) D"
proof -
  let ?os = "(os[i := os ! j])[j := moved_from (os ! j)]"
  have "distinct (owned_ids ?os)"
    using assms unfolding ids_ok_def distinct_owned_ids
    by (auto simp: nth_list_update split: if_splits)
  moreover have "set (owned_ids ?os) = D"
  proof (cases "i = j")
    case True
    then show ?thesis
      using assms ids_ok_drop [OF assms(1,2), of "moved_from (os ! j)"]
      by (auto simp: ids_ok_def set_owned_ids)
  next
    case False
    have nth: "?os ! k = (if k = j then moved_from (os ! j) else if k = i then os ! j else os ! k)"
      if "k < length os" for k
      using assms False that by (simp add: nth_list_update)
    have fwd: "\<exists>k' < length os. owned_id (?os ! k') = owned_id (os ! k)"
      if "k < length os" "owned_id (os ! k) \<noteq> INVALID_ID" for k
      using that assms False nth [of i] nth [of k]
      by (cases "k = j"; cases "k = i") auto
    have bwd: "\<exists>k' < length os. owned_id (os ! k') = owned_id (?os ! k)"
      if "k < length os" "owned_id (?os ! k) \<noteq> INVALID_ID" for k
      using that assms nth [of k] by (auto split: if_splits)
    have "set (owned_ids ?os) = set (owned_ids os)"
    proof (rule set_eqI)
      fix v
      show "v \<in> set (owned_ids ?os) \<longleftrightarrow> v \<in> set (owned_ids os)"
        unfolding set_owned_ids mem_Collect_eq length_list_update using fwd bwd by metis
    qed
    then show ?thesis using assms(1) by (simp add: ids_ok_def)
  qed
  ultimately show ?thesis by (simp add: ids_ok_def)
qed

definition flags_ok :: "OwnedValueId list \<Rightarrow> bool" where
  "flags_ok os \<longleftrightarrow> (\<forall>o1 \<in> set os. owned_id o1 \<noteq> INVALID_ID \<longrightarrow> owned_exec o1)"

lemma flags_ok_update: "flags_ok os \<Longrightarrow> owned_id x \<noteq> INVALID_ID \<longrightarrow> owned_exec x \<Longrightarrow> flags_ok (os[i := x])"
  by (auto simp: flags_ok_def dest!: set_update_subset_insert [THEN subsetD])

lemma flags_ok_nth: "flags_ok os \<Longrightarrow> i < length os \<Longrightarrow> owned_id (os ! i) \<noteq> INVALID_ID \<Longrightarrow> owned_exec (os ! i)"
  by (simp add: flags_ok_def)

lemma owners_inv_iff:
  "owners_inv w \<longleftrightarrow> flags_ok (slots w) \<and>
     (\<forall>b. alive w = Some b \<longrightarrow> tracked_inv b \<and> ids_ok (slots w) (dom (tracked_values b)))"
  by (auto simp: owners_inv_def flags_ok_def ids_ok_def split: option.splits)

lemma create_owner_inv:
  assumes "owners_inv w" and "\<And>b. alive w = Some b \<Longrightarrow> room b"
  shows "owners_inv (create_owner v w)"
proof (cases "alive w")
  case (Some b)
  then have inv: "tracked_inv b" "ids_ok (slots w) (dom (tracked_values b))" "flags_ok (slots w)"
    and "room b"
    using assms by (auto simp: owners_inv_iff)
  have fresh: "next_value_id b \<notin> dom (tracked_values b)"
    using tracked_inv_fresh [OF inv(1)] by auto
  have "tracked_inv (snd (TrackValue v b))"
    using TrackValue_inv [OF inv(1) \<open>room b\<close>] .
  then show ?thesis
    using Some inv \<open>room b\<close> ids_ok_append [OF inv(2) fresh]
    by (auto simp: owners_inv_iff TrackValue_eq room_def INVALID_ID_def flags_ok_def)
qed (use assms in simp)

lemma move_construct_inv: "owners_inv w \<Longrightarrow> owners_inv (move_construct i w)"
  by (auto simp: owners_inv_iff move_construct_def ids_ok_move flags_ok_update flags_ok_nth)
     (auto simp: flags_ok_def dest!: set_update_subset_insert [THEN subsetD])

lemma release_slot_inv: "owners_inv w \<Longrightarrow> owners_inv (release_slot impl i w)"
proof (cases "i < length (slots w) \<and> owned_id (slots w ! i) \<noteq> INVALID_ID")
  case True
  assume inv: "owners_inv w"
  let ?vid = "owned_id (slots w ! i)"
  have ex: "owned_exec (slots w ! i)"
    using inv True by (auto simp: owners_inv_iff intro: flags_ok_nth)
  have sl: "release_slot impl i w =
      w\<lparr>slots := (slots w)[i := forget (slots w ! i)],
        alive := map_option (\<lambda>b. snd (base_dispose impl ?vid b)) (alive w)\<rparr>"
    using True ex by (simp add: release_slot_def release_def)
  have "tracked_inv (snd (base_dispose impl ?vid b)) \<and>
      ids_ok ((slots w)[i := forget (slots w ! i)]) (dom (tracked_values (snd (base_dispose impl ?vid b))))"
    if "alive w = Some b" for b
  proof -
    have ids: "ids_ok (slots w) (dom (tracked_values b))" and ti: "tracked_inv b"
      using inv that by (auto simp: owners_inv_iff)
    have "?vid \<in> dom (tracked_values b)"
      using ids True by (auto simp: ids_ok_def set_owned_ids)
    then show ?thesis
      using ids_ok_drop [OF ids, of i "forget (slots w ! i)"] True dispose_inv [OF ti]
      by (auto simp: base_dispose_def)
  qed
  then show ?thesis
    using inv unfolding sl by (auto simp: owners_inv_iff flags_ok_update)
next
  case False
  then show "owners_inv w \<Longrightarrow> ?thesis"
    by (auto simp: release_slot_def release_def)
qed

lemma release_slot_slots:
  "i < length (slots w) \<Longrightarrow> length (slots (release_slot impl i w)) = length (slots w)
     \<and> owned_id (slots (release_slot impl i w) ! i) = INVALID_ID"
  by (auto simp: release_slot_def release_def)

lemma move_assign_inv:
  assumes "owners_inv w"
  shows "owners_inv (move_assign impl i j w)"
proof (cases "i < length (slots w) \<and> j < length (slots w)")
  case True
  let ?w1 = "release_slot impl i w"
  have inv: "owners_inv ?w1" by (rule release_slot_inv [OF assms])
  have len: "i < length (slots ?w1)" "j < length (slots ?w1)" "owned_id (slots ?w1 ! i) = INVALID_ID"
    using True release_slot_slots [of i w impl] by simp_all
  have "flags_ok (((slots ?w1)[i := slots ?w1 ! j])[j := moved_from (slots ?w1 ! j)])"
    using inv len by (intro flags_ok_update) (auto simp: owners_inv_iff intro: flags_ok_nth)
  then show ?thesis
    using True inv ids_ok_assign [OF _ len]
    by (auto simp: owners_inv_iff move_assign_def Let_def)
qed (use assms in \<open>auto simp: move_assign_def\<close>)

section \<open>Runs\<close>

text \<open>Fewer creations than identifiers: the counter stays below the invalid identifier.\<close>

definition counter_ok :: "nat \<Rightarrow> ('v, 's) owners \<Rightarrow> bool" where
  "counter_ok n w \<longleftrightarrow> (\<forall>b. alive w = Some b \<longrightarrow> unat (next_value_id b) = n)"

lemma counter_ok_dispose:
  "next_value_id (snd (base_dispose impl v b)) = next_value_id b"
  by (simp add: base_dispose_def split: option.splits)

lemma counter_ok_release: "counter_ok n w \<Longrightarrow> counter_ok n (release_slot impl i w)"
  by (auto simp: counter_ok_def release_slot_def release_def counter_ok_dispose split: if_splits)

lemma counter_ok_step:
  assumes "counter_ok n w" and "n + creations [op] < 2 ^ 64"
  shows "counter_ok (n + creations [op]) (owner_step impl op w)"
proof (cases op)
  case (Create v)
  show ?thesis
  proof (cases "alive w")
    case (Some b)
    then have "unat (next_value_id b) = n" using assms by (simp add: counter_ok_def)
    moreover have "next_value_id b \<noteq> - 1"
    proof
      assume "next_value_id b = - 1"
      then have "unat (next_value_id b) = 2 ^ 64 - 1" by (simp add: unsigned_minus_1_eq_mask mask_eq_exp_minus_1)
      with \<open>unat (next_value_id b) = n\<close> assms(2) Create show False by simp
    qed
    ultimately show ?thesis
      using Create Some by (simp add: counter_ok_def TrackValue_def Let_def unat_plus_one)
  qed (use Create assms in \<open>simp add: counter_ok_def\<close>)
next
  case (MoveAssign i j)
  then show ?thesis
    using assms counter_ok_release [of n w impl i]
    by (auto simp: move_assign_def Let_def counter_ok_def)
qed (use assms in \<open>auto simp: counter_ok_def move_construct_def
       dest: counter_ok_release [unfolded counter_ok_def]\<close>)

lemma room_of_counter:
  "counter_ok n w \<Longrightarrow> Suc n < 2 ^ 64 \<Longrightarrow> alive w = Some b \<Longrightarrow> room b"
  by (auto simp: counter_ok_def room_def unsigned_minus_1_eq_mask mask_eq_exp_minus_1)

lemma owner_step_inv:
  assumes "owners_inv w" and "counter_ok n w" and "n + creations [op] < 2 ^ 64"
  shows "owners_inv (owner_step impl op w)"
proof (cases op)
  case (Create v)
  then show ?thesis
    using assms create_owner_inv [of w v] room_of_counter [OF assms(2)] by auto
next
  case DestroyExecutor
  then show ?thesis using assms by (simp add: owners_inv_iff)
qed (use assms in \<open>simp_all add: move_construct_inv release_slot_inv move_assign_inv\<close>)

lemma creations_Cons: "creations (op # ops) = creations [op] + creations ops"
  by (cases op) simp_all

lemma owner_run_inv:
  assumes "owners_inv w" and "counter_ok n w" and "n + creations ops < 2 ^ 64"
  shows "owners_inv (owner_run impl ops w)"
  using assms
proof (induction ops arbitrary: n w)
  case (Cons op ops)
  then have b: "n + creations [op] < 2 ^ 64" and c: "n + creations [op] + creations ops < 2 ^ 64"
    by (simp_all add: creations_Cons [of op ops])
  from Cons.IH [OF owner_step_inv counter_ok_step c] Cons.prems b
  show ?case by (simp add: owner_run_def)
qed (simp add: owner_run_def)

text \<open>
  C5: whatever sequence of creations, moves, assignments and destructions a program
  applies to its owned handles, no two owners hold the same value, and the executor's
  table holds exactly the values that some owner holds: nothing is disposed of twice,
  used after disposal or leaked (fewer than \<open>2 ^ 64\<close> values).
\<close>

theorem owners_match_table:
  assumes "creations ops < 2 ^ 64"
    and "w = owner_run impl ops (no_owners s)"
    and "alive w = Some b"
  shows "distinct (owned_ids (slots w)) \<and> set (owned_ids (slots w)) = dom (tracked_values b)"
proof -
  have "counter_ok 0 (no_owners s :: ('a, 'b) owners)"
    by (simp add: counter_ok_def no_owners_def initial_state_def)
  then have "owners_inv w"
    using owner_run_inv [OF owners_inv_initial, of 0 s ops impl] assms by simp
  then show ?thesis using assms(3) by (simp add: owners_inv_def)
qed

definition unit_impl :: "(nat, unit) executor_impl" where
  "unit_impl = \<lparr>executor_name = [], impl_create_value = (\<lambda>v. return 0),
     impl_create_call = (\<lambda>f a. return 0), impl_create_struct = (\<lambda>xs. return 0),
     impl_create_selection = (\<lambda>v i. return 0), impl_materialize = (\<lambda>v w. return None)\<rparr>"

definition sample_ops :: "nat owner_op list" where
  "sample_ops = [Create 7, Create 8, MoveConstruct 0, MoveAssign 1 2, Release 2]"

lemma owners_match_table_witness:
  "\<exists>b. alive (owner_run unit_impl sample_ops (no_owners ())) = Some b
     \<and> dom (tracked_values b) = {0}"
proof -
  let ?w = "owner_run unit_impl sample_ops (no_owners ())"
  have al: "\<exists>b. alive ?w = Some b" and ids: "owned_ids (slots ?w) = [0]"
    by (simp_all add: owner_run_def sample_ops_def no_owners_def initial_state_def TrackValue_def
        Let_def move_construct_def move_assign_def release_slot_def release_def INVALID_ID_def
        moved_from_def forget_def owned_ids_def base_dispose_def)
  obtain b where b: "alive ?w = Some b" using al by blast
  then show ?thesis
    using owners_match_table [OF _ refl b] ids by (simp add: sample_ops_def)
qed

end
