(* ===== verification/Libraries.thy ===== *)
theory Libraries
  imports Executor
begin

text \<open>
  The third-party libraries the program calls, as parameters: regular expressions (RE2),
  string replacement (Abseil), JSON (nlohmann), templates (inja), HTTP (libcurl). Each is
  a field of a record that the definitions using it take as an argument. Nothing is
  assumed of them here; a property that relies on documented behaviour names it.
\<close>

section \<open>JSON values\<close>

datatype json =
    JNull
  | JBool bool
  | JNumber int
  | JString string
  | JArray "json list"
  | JObject "(string \<times> json) list"

fun is_string :: "json \<Rightarrow> bool" where
  "is_string (JString s) = True"
| "is_string j = False"

fun is_object :: "json \<Rightarrow> bool" where
  "is_object (JObject kvs) = True"
| "is_object j = False"

fun is_array :: "json \<Rightarrow> bool" where
  "is_array (JArray xs) = True"
| "is_array j = False"

text \<open>\<open>get<std::string>()\<close> throws a type error on anything but a string.\<close>

fun json_get_string :: "json \<Rightarrow> string outcome" where
  "json_get_string (JString s) = Ok s"
| "json_get_string j = Crash UncaughtException"

fun json_find :: "json \<Rightarrow> string \<Rightarrow> json option" where
  "json_find (JObject kvs) k = map_of kvs k"
| "json_find j k = None"

definition json_contains :: "json \<Rightarrow> string \<Rightarrow> bool" where
  "json_contains j k = (json_find j k \<noteq> None)"

section \<open>libcurl\<close>

text \<open>
  An easy handle is the list of options set on it, the latest first. A transfer returns
  the chunks given to the write callback, or the text of its error code.
\<close>

datatype curl_option =
    CURLOPT_URL string
  | CURLOPT_HTTPHEADER "string list"
  | CURLOPT_POSTFIELDS string
  | CURLOPT_HTTPGET
  | CURLOPT_POST
  | CURLOPT_VERBOSE
  | CURLOPT_UNIX_SOCKET_PATH string

datatype curl_result = CURLE_OK "string list" | CurlError string

record curl =
  curl_easy_init :: bool
  curl_easy_escape :: "string \<Rightarrow> string"
  curl_easy_perform :: "curl_option list \<Rightarrow> curl_result"

text \<open>\<open>WriteCallback\<close> of the three clients appends each chunk to the output string.\<close>

definition WriteCallback :: "string \<Rightarrow> string \<Rightarrow> string" where
  "WriteCallback contents output = output @ contents"

definition write_all :: "string list \<Rightarrow> string" where
  "write_all chunks = fold WriteCallback chunks []"

lemma fold_WriteCallback: "fold WriteCallback chunks out = out @ concat chunks"
  by (induction chunks arbitrary: out) (simp_all add: WriteCallback_def)

lemma write_all_concat: "write_all chunks = concat chunks"
  by (simp add: write_all_def fold_WriteCallback)

section \<open>The bundle used by the inline intrinsics\<close>

text \<open>
  \<open>FindAndConsume\<close> is the RE2 call of the prompt template with its fixed pattern: the
  placeholder it captured and the input that is left. \<open>oak_connect\<close> is the remote
  executor behind an attested channel, with the state of the connection.
\<close>

record 'c libs =
  PartialMatch :: "string \<Rightarrow> string \<Rightarrow> bool"
  FindAndConsume :: "string \<Rightarrow> (string \<times> string) option"
  StrReplaceAll :: "string \<Rightarrow> (string \<times> string) list \<Rightarrow> string"
  json_parse :: "string \<Rightarrow> json option"
  inja_render :: "string \<Rightarrow> json \<Rightarrow> string outcome"
  libcurl :: curl
  oak_connect :: "string \<Rightarrow> string option \<Rightarrow> ((ValueId, 'c) executor \<times> 'c) outcome"

section \<open>Element access\<close>

text \<open>
  \<open>element(i)\<close> of a repeated field: reading past the end is undefined, here a crash.
\<close>

definition element :: "pvalue list \<Rightarrow> nat \<Rightarrow> pvalue outcome" where
  "element es i = (if i < length es then Ok (es ! i) else Crash IndexOutOfRange)"

lemma element_Ok [simp]: "i < length es \<Longrightarrow> element es i = Ok (es ! i)"
  by (simp add: element_def)

lemma element_Crash: "length es \<le> i \<Longrightarrow> element es i = Crash IndexOutOfRange"
  by (simp add: element_def)

text \<open>The prompt template placeholders and the message of a JSON pointer are plain text.\<close>

definition braced :: "string \<Rightarrow> string" where
  "braced s = ''{'' @ s @ ''}''"

lemma braced_inject [simp]: "braced s = braced t \<longleftrightarrow> s = t"
  by (simp add: braced_def)

end
