(* ===== verification/Intrinsics.thy ===== *)
theory Intrinsics
  imports Libraries
begin

text \<open>
  The intrinsics: their identifiers (\<^verbatim>\<open>intrinsic_uris.h\<close>), the handlers with their checks
  of well-formedness, the handler set and the complete set of
  \<^verbatim>\<open>genc/cc/intrinsics/handler_sets.cc\<close>. One constructor stands for one handler class;
  its arguments are the members the object is built with.
\<close>

section \<open>Identifiers\<close>

definition kConditional :: string where "kConditional = ''conditional''"
definition kDelegate :: string where "kDelegate = ''delegate''"
definition kFallback :: string where "kFallback = ''fallback''"
definition kLogicalNot :: string where "kLogicalNot = ''logical_not''"
definition kModelInference :: string where "kModelInference = ''model_inference''"
definition kModelInferenceWithConfig :: string where
  "kModelInferenceWithConfig = ''model_inference_with_config''"
definition kCustomFunction :: string where "kCustomFunction = ''custom_function''"
definition kPromptTemplate :: string where "kPromptTemplate = ''prompt_template''"
definition kPromptTemplateWithParameters :: string where
  "kPromptTemplateWithParameters = ''prompt_template_with_parameters''"
definition kRegexPartialMatch :: string where "kRegexPartialMatch = ''regex_partial_match''"
definition kRepeat :: string where "kRepeat = ''repeat''"
definition kWhile :: string where "kWhile = ''while''"
definition kRepeatedConditionalChain :: string where
  "kRepeatedConditionalChain = ''repeated_conditional_chain''"
definition kBreakableChain :: string where "kBreakableChain = ''breakable_chain''"
definition kSerialChain :: string where "kSerialChain = ''serial_chain''"
definition kLogger :: string where "kLogger = ''logger''"
definition kParallelMap :: string where "kParallelMap = ''parallel_map''"
definition kInjaTemplate :: string where "kInjaTemplate = ''inja_template''"
definition kRestCall :: string where "kRestCall = ''rest_call''"
definition kWolframAlpha :: string where "kWolframAlpha = ''wolfram_alpha''"
definition kConfidentialComputation :: string where
  "kConfidentialComputation = ''confidential_computation''"

lemmas uri_defs =
  kConditional_def kDelegate_def kFallback_def kLogicalNot_def kModelInference_def
  kModelInferenceWithConfig_def kCustomFunction_def kPromptTemplate_def
  kPromptTemplateWithParameters_def kRegexPartialMatch_def kRepeat_def kWhile_def
  kRepeatedConditionalChain_def kBreakableChain_def kSerialChain_def kLogger_def
  kParallelMap_def kInjaTemplate_def kRestCall_def kWolframAlpha_def
  kConfidentialComputation_def

section \<open>Handlers\<close>

datatype InterfaceType = INLINE | CONTROL_FLOW

type_synonym RunnerFn = "pvalue \<Rightarrow> pvalue option \<Rightarrow> pvalue outcome"
type_synonym RunnerMap = "string \<rightharpoonup> RunnerFn"

text \<open>
  The functions that an application registers run in its process: they may write lines on
  the console and keep a memory of their own between calls, whose type is a parameter.
\<close>

record 'w process =
  console_lines :: "message list"
  memory :: 'w

definition write_console :: "message \<Rightarrow> 'w process \<Rightarrow> 'w process" where
  "write_console line s = s\<lparr>console_lines := console_lines s @ [line]\<rparr>"

type_synonym 'w process_fn = "pvalue \<Rightarrow> ('w process, pvalue) prog"
type_synonym 'w InferenceMap = "string \<rightharpoonup> 'w process_fn"
type_synonym 'w ConfigInferenceMap = "string \<rightharpoonup> (intrinsic_pb \<Rightarrow> 'w process_fn)"
type_synonym 'w FunctionMap = "string \<rightharpoonup> 'w process_fn"

text \<open>
  The last constructor is a handler that an embedding application adds to the set: an
  inline one, given by its identifier, its check and its call.
\<close>

datatype 'w handler =
    Conditional
  | Fallback
  | SerialChain
  | BreakableChain
  | Repeat
  | RepeatedConditionalChain
  | While
  | ParallelMap
  | Delegate RunnerMap
  | LogicalNot
  | Logger
  | RegexPartialMatch
  | PromptTemplate
  | PromptTemplateWithParameters
  | CustomFunction "'w FunctionMap"
  | ModelInference "'w InferenceMap"
  | ModelInferenceWithConfig "'w ConfigInferenceMap"
  | RestCall
  | InjaTemplate
  | WolframAlpha
  | ConfidentialComputation "unit outcome"
  | CustomInline string "intrinsic_pb \<Rightarrow> unit outcome"
      "intrinsic_pb \<Rightarrow> pvalue \<Rightarrow> pvalue \<Rightarrow> ('w process, pvalue) prog"

fun handler_uri :: "'w handler \<Rightarrow> string" where
  "handler_uri Conditional = kConditional"
| "handler_uri Fallback = kFallback"
| "handler_uri SerialChain = kSerialChain"
| "handler_uri BreakableChain = kBreakableChain"
| "handler_uri Repeat = kRepeat"
| "handler_uri RepeatedConditionalChain = kRepeatedConditionalChain"
| "handler_uri While = kWhile"
| "handler_uri ParallelMap = kParallelMap"
| "handler_uri (Delegate m) = kDelegate"
| "handler_uri LogicalNot = kLogicalNot"
| "handler_uri Logger = kLogger"
| "handler_uri RegexPartialMatch = kRegexPartialMatch"
| "handler_uri PromptTemplate = kPromptTemplate"
| "handler_uri PromptTemplateWithParameters = kPromptTemplateWithParameters"
| "handler_uri (CustomFunction m) = kCustomFunction"
| "handler_uri (ModelInference m) = kModelInference"
| "handler_uri (ModelInferenceWithConfig m) = kModelInferenceWithConfig"
| "handler_uri RestCall = kRestCall"
| "handler_uri InjaTemplate = kInjaTemplate"
| "handler_uri WolframAlpha = kWolframAlpha"
| "handler_uri (ConfidentialComputation c) = kConfidentialComputation"
| "handler_uri (CustomInline u chk f) = u"

fun interface_type :: "'w handler \<Rightarrow> InterfaceType" where
  "interface_type Conditional = CONTROL_FLOW"
| "interface_type Fallback = CONTROL_FLOW"
| "interface_type SerialChain = CONTROL_FLOW"
| "interface_type BreakableChain = CONTROL_FLOW"
| "interface_type Repeat = CONTROL_FLOW"
| "interface_type RepeatedConditionalChain = CONTROL_FLOW"
| "interface_type While = CONTROL_FLOW"
| "interface_type ParallelMap = CONTROL_FLOW"
| "interface_type (Delegate m) = CONTROL_FLOW"
| "interface_type h = INLINE"

text \<open>The dynamic casts succeed, since the interface type is fixed by the base class.\<close>

definition GetInlineInterface :: "'w handler \<Rightarrow> 'w handler outcome" where
  "GetInlineInterface h =
     (if interface_type h \<noteq> INLINE
      then InternalError [Txt ''Not an inline handler interface type: '', Txt (handler_uri h)]
      else Ok h)"

definition GetControlFlowInterface :: "'w handler \<Rightarrow> 'w handler outcome" where
  "GetControlFlowInterface h =
     (if interface_type h \<noteq> CONTROL_FLOW
      then InternalError [Txt ''Not a control flow handler interface type: '', Txt (handler_uri h)]
      else Ok h)"

section \<open>Well-formedness of an intrinsic\<close>

text \<open>One definition per handler; the static parameter is read through the default instance.\<close>

abbreviation params :: "intrinsic_pb \<Rightarrow> pvalue list" where
  "params i \<equiv> struct_elements (static_parameter i)"

definition Conditional_CheckWellFormed :: "intrinsic_pb \<Rightarrow> unit outcome" where
  "Conditional_CheckWellFormed i =
     (if \<not> has_struct (static_parameter i) \<or> length (params i) \<noteq> 2
      then InvalidArgumentError [Txt ''Missing a pair of static parameters.''] else Ok ())"

definition Fallback_CheckWellFormed :: "intrinsic_pb \<Rightarrow> unit outcome" where
  "Fallback_CheckWellFormed i = Ok ()"

definition SerialChain_CheckWellFormed :: "intrinsic_pb \<Rightarrow> unit outcome" where
  "SerialChain_CheckWellFormed i =
     (if \<not> has_struct (static_parameter i) \<or> length (params i) < 1
      then InvalidArgumentError [Txt ''Expect at least 1 function in chain, but got none.'']
      else Ok ())"

definition BreakableChain_CheckWellFormed :: "intrinsic_pb \<Rightarrow> unit outcome" where
  "BreakableChain_CheckWellFormed i =
     (if \<not> has_struct (static_parameter i) \<or> length (params i) < 1
      then InvalidArgumentError [Txt ''Expect at least 1 function in chain, but got none.'']
      else Ok ())"

definition Repeat_CheckWellFormed :: "intrinsic_pb \<Rightarrow> unit outcome" where
  "Repeat_CheckWellFormed i =
     (if \<not> has_struct (static_parameter i) \<or> length (params i) \<noteq> 2
      then InvalidArgumentError [Txt ''Expext struct with 2 elements for Repeat.''] else Ok ())"

definition RepeatedConditionalChain_CheckWellFormed :: "intrinsic_pb \<Rightarrow> unit outcome" where
  "RepeatedConditionalChain_CheckWellFormed i =
     (if \<not> has_struct (static_parameter i) \<or> length (params i) < 2
      then InvalidArgumentError [Txt ''Expect at least 2 elementes in static parameter 'num_steps' and a listed of body_fns, got: '',
             DebugString (static_parameter i)]
      else Ok ())"

definition While_CheckWellFormed :: "intrinsic_pb \<Rightarrow> unit outcome" where
  "While_CheckWellFormed i =
     (if length (params i) \<noteq> 2
      then InvalidArgumentError [Txt ''Missing required static parameters.''] else Ok ())"

definition ParallelMap_CheckWellFormed :: "intrinsic_pb \<Rightarrow> unit outcome" where
  "ParallelMap_CheckWellFormed i =
     (if \<not> has_static_parameter i
      then InvalidArgumentError [Txt ''Expect exactly one static_parameter for ParallelMap, got None.'']
      else Ok ())"

text \<open>The first element is read before the struct is known to have one.\<close>

definition Delegate_CheckWellFormed :: "intrinsic_pb \<Rightarrow> unit outcome" where
  "Delegate_CheckWellFormed i =
     (if \<not> has_struct (static_parameter i) then InvalidArgumentError [Txt ''Expect a struct.'']
      else try_value (element (params i) 0) (\<lambda>e.
        if \<not> has_str e then InvalidArgumentError [Txt ''Expected an environment name string.'']
        else Ok ()))"

definition LogicalNot_CheckWellFormed :: "intrinsic_pb \<Rightarrow> unit outcome" where
  "LogicalNot_CheckWellFormed i = Ok ()"

definition Logger_CheckWellFormed :: "intrinsic_pb \<Rightarrow> unit outcome" where
  "Logger_CheckWellFormed i = Ok ()"

definition RegexPartialMatch_CheckWellFormed :: "intrinsic_pb \<Rightarrow> unit outcome" where
  "RegexPartialMatch_CheckWellFormed i =
     (if \<not> has_str (static_parameter i)
      then InvalidArgumentError [Txt ''Static parameter is not a string:'', DebugString (static_parameter i)]
      else Ok ())"

definition PromptTemplate_CheckWellFormed :: "intrinsic_pb \<Rightarrow> unit outcome" where
  "PromptTemplate_CheckWellFormed i =
     (if \<not> has_str (static_parameter i)
      then InvalidArgumentError [Txt ''Expect prompt_template as str, got none.''] else Ok ())"

fun check_parameter_names :: "pvalue list \<Rightarrow> unit outcome" where
  "check_parameter_names [] = Ok ()"
| "check_parameter_names (p # ps) =
     (if \<not> has_str p then InvalidArgumentError [Txt ''Expected strings in the parameter list.'']
      else check_parameter_names ps)"

definition PromptTemplateWithParameters_CheckWellFormed :: "intrinsic_pb \<Rightarrow> unit outcome" where
  "PromptTemplateWithParameters_CheckWellFormed i =
     (if \<not> has_struct (static_parameter i)
      then InvalidArgumentError [Txt ''Expect prompt_template as struct.'']
      else if length (params i) \<noteq> 2
      then InvalidArgumentError [Txt ''Expect prompt_template as struct with two elements.'']
      else try_value (element (params i) 0) (\<lambda>e0.
        if \<not> has_str e0
        then InvalidArgumentError [Txt ''Expect prompt_template as struct with str as the first element.'']
        else try_value (element (params i) 1) (\<lambda>e1.
          if \<not> has_struct e1
          then InvalidArgumentError [Txt ''Expect prompt_template as struct with struct as the second element.'']
          else if length (struct_elements e1) < 2
          then InvalidArgumentError [Txt ''Expect prompt_template as struct with a 2-or-more-element struct as the second element.'']
          else check_parameter_names (struct_elements e1))))"

definition CustomFunction_CheckWellFormed :: "intrinsic_pb \<Rightarrow> unit outcome" where
  "CustomFunction_CheckWellFormed i =
     (if \<not> has_str (static_parameter i)
      then InvalidArgumentError [Txt ''Expect fn_uri as str, got none.''] else Ok ())"

definition ModelInference_CheckWellFormed :: "intrinsic_pb \<Rightarrow> unit outcome" where
  "ModelInference_CheckWellFormed i =
     (if \<not> has_str (static_parameter i)
      then InvalidArgumentError [Txt ''Expect model_uri as str, got none.''] else Ok ())"

definition ModelInferenceWithConfig_CheckWellFormed :: "intrinsic_pb \<Rightarrow> unit outcome" where
  "ModelInferenceWithConfig_CheckWellFormed i =
     (if \<not> has_struct (static_parameter i)
      then InvalidArgumentError [Txt ''Expected struct_ to be set, got none.'']
      else try_value (element (params i) 0) (\<lambda>e.
        if \<not> has_str e then InvalidArgumentError [Txt ''Expected model_uri to be set, got none.'']
        else Ok ()))"

definition RestCall_CheckWellFormed :: "intrinsic_pb \<Rightarrow> unit outcome" where
  "RestCall_CheckWellFormed i =
     (if length (params i) < 2
      then InvalidArgumentError [Txt ''Expect RestCall contians URL (required) and API key (optional), method (default to POST when not set), missing parameters.'']
      else Ok ())"

definition InjaTemplate_CheckWellFormed :: "intrinsic_pb \<Rightarrow> unit outcome" where
  "InjaTemplate_CheckWellFormed i =
     (if \<not> has_str (static_parameter i)
      then InvalidArgumentError [Txt ''Expect template as str, got none.''] else Ok ())"

definition WolframAlpha_CheckWellFormed :: "intrinsic_pb \<Rightarrow> unit outcome" where
  "WolframAlpha_CheckWellFormed i =
     (if \<not> has_str (static_parameter i)
      then InvalidArgumentError [Txt ''Expect template as appid, got none.''] else Ok ())"

definition kServerAddressLabel :: string where "kServerAddressLabel = ''server_address''"
definition kImageDigestLabel :: string where "kImageDigestLabel = ''image_digest''"

fun check_config :: "pvalue list \<Rightarrow> unit outcome" where
  "check_config [] = Ok ()"
| "check_config (e # es) =
     (if \<not> has_str e
      then InvalidArgumentError [Txt ''Expected a string as an element of the static parameter.'']
      else if str e = []
      then InvalidArgumentError [Txt ''Expected a non-empty string as an element of the static parameter.'']
      else if label e = []
      then InvalidArgumentError [Txt ''Expected all elements in the static parameter to have labels.'']
      else if label e \<noteq> kServerAddressLabel \<and> label e \<noteq> kImageDigestLabel
      then InvalidArgumentError [Txt ''Unrecognized label in the static parameter: '', Txt (label e), Txt ''.'']
      else check_config es)"

definition ConfidentialComputation_CheckWellFormed :: "intrinsic_pb \<Rightarrow> unit outcome" where
  "ConfidentialComputation_CheckWellFormed i =
     (if \<not> has_struct (static_parameter i)
      then InvalidArgumentError [Txt ''Expected a struct as a static parameter.'']
      else if length (params i) \<noteq> 2
      then InvalidArgumentError [Txt ''Expected 2 elements in the static parameter struct.'']
      else try_value (element (params i) 1) (\<lambda>config.
        if \<not> has_struct config
        then InvalidArgumentError [Txt ''Expected a struct as the second element in the static parameter.'']
        else check_config (struct_elements config)))"

fun CheckWellFormed :: "'w handler \<Rightarrow> intrinsic_pb \<Rightarrow> unit outcome" where
  "CheckWellFormed Conditional i = Conditional_CheckWellFormed i"
| "CheckWellFormed Fallback i = Fallback_CheckWellFormed i"
| "CheckWellFormed SerialChain i = SerialChain_CheckWellFormed i"
| "CheckWellFormed BreakableChain i = BreakableChain_CheckWellFormed i"
| "CheckWellFormed Repeat i = Repeat_CheckWellFormed i"
| "CheckWellFormed RepeatedConditionalChain i = RepeatedConditionalChain_CheckWellFormed i"
| "CheckWellFormed While i = While_CheckWellFormed i"
| "CheckWellFormed ParallelMap i = ParallelMap_CheckWellFormed i"
| "CheckWellFormed (Delegate m) i = Delegate_CheckWellFormed i"
| "CheckWellFormed LogicalNot i = LogicalNot_CheckWellFormed i"
| "CheckWellFormed Logger i = Logger_CheckWellFormed i"
| "CheckWellFormed RegexPartialMatch i = RegexPartialMatch_CheckWellFormed i"
| "CheckWellFormed PromptTemplate i = PromptTemplate_CheckWellFormed i"
| "CheckWellFormed PromptTemplateWithParameters i = PromptTemplateWithParameters_CheckWellFormed i"
| "CheckWellFormed (CustomFunction m) i = CustomFunction_CheckWellFormed i"
| "CheckWellFormed (ModelInference m) i = ModelInference_CheckWellFormed i"
| "CheckWellFormed (ModelInferenceWithConfig m) i = ModelInferenceWithConfig_CheckWellFormed i"
| "CheckWellFormed RestCall i = RestCall_CheckWellFormed i"
| "CheckWellFormed InjaTemplate i = InjaTemplate_CheckWellFormed i"
| "CheckWellFormed WolframAlpha i = WolframAlpha_CheckWellFormed i"
| "CheckWellFormed (ConfidentialComputation c) i = ConfidentialComputation_CheckWellFormed i"
| "CheckWellFormed (CustomInline u chk f) i = chk i"

lemmas CheckWellFormed_defs [handler_simps] =
  Conditional_CheckWellFormed_def Fallback_CheckWellFormed_def SerialChain_CheckWellFormed_def
  BreakableChain_CheckWellFormed_def Repeat_CheckWellFormed_def
  RepeatedConditionalChain_CheckWellFormed_def While_CheckWellFormed_def
  ParallelMap_CheckWellFormed_def Delegate_CheckWellFormed_def LogicalNot_CheckWellFormed_def
  Logger_CheckWellFormed_def RegexPartialMatch_CheckWellFormed_def
  PromptTemplate_CheckWellFormed_def PromptTemplateWithParameters_CheckWellFormed_def
  CustomFunction_CheckWellFormed_def ModelInference_CheckWellFormed_def
  ModelInferenceWithConfig_CheckWellFormed_def RestCall_CheckWellFormed_def
  InjaTemplate_CheckWellFormed_def WolframAlpha_CheckWellFormed_def
  ConfidentialComputation_CheckWellFormed_def

section \<open>The handler set\<close>

type_synonym 'w IntrinsicHandlerSet = "string \<rightharpoonup> 'w handler"

definition AddHandler :: "'w handler \<Rightarrow> 'w IntrinsicHandlerSet \<Rightarrow> 'w IntrinsicHandlerSet" where
  "AddHandler h hs = hs(handler_uri h \<mapsto> h)"

definition GetHandler :: "'w IntrinsicHandlerSet \<Rightarrow> string \<Rightarrow> 'w handler outcome" where
  "GetHandler hs u = (case hs u of
      None \<Rightarrow> NotFoundError [Txt ''Could not find a handler for: '', Txt u]
    | Some h \<Rightarrow>
        if handler_uri h \<noteq> u then InternalError [Txt ''Wrong handler URI registered for: '', Txt u]
        else Ok h)"

record 'w HandlerSetConfig =
  delegate_map :: RunnerMap
  model_inference_map :: "'w InferenceMap"
  model_inference_with_config_map :: "'w ConfigInferenceMap"
  custom_function_map :: "'w FunctionMap"
  custom_intrinsics_list :: "'w handler list"
  http_client_interface :: "unit outcome"

definition built_in_handlers :: "'w HandlerSetConfig \<Rightarrow> 'w handler list" where
  "built_in_handlers config =
    [BreakableChain, SerialChain, Conditional, ConfidentialComputation (http_client_interface config),
     Delegate (delegate_map config), Fallback, Logger, InjaTemplate,
     CustomFunction (custom_function_map config), ModelInference (model_inference_map config),
     ModelInferenceWithConfig (model_inference_with_config_map config), ParallelMap, LogicalNot,
     PromptTemplate, PromptTemplateWithParameters, RegexPartialMatch, Repeat, RestCall, While,
     RepeatedConditionalChain]"

definition CreateCompleteHandlerSet :: "'w HandlerSetConfig \<Rightarrow> 'w IntrinsicHandlerSet" where
  "CreateCompleteHandlerSet config =
     fold AddHandler (built_in_handlers config @ custom_intrinsics_list config) Map.empty"

text \<open>The set is keyed by the identifier each handler reports for itself.\<close>

definition keyed :: "'w IntrinsicHandlerSet \<Rightarrow> bool" where
  "keyed hs \<longleftrightarrow> (\<forall>u h. hs u = Some h \<longrightarrow> handler_uri h = u)"

lemma keyed_empty [simp]: "keyed Map.empty"
  by (simp add: keyed_def)

lemma keyed_AddHandler: "keyed hs \<Longrightarrow> keyed (AddHandler h hs)"
  by (simp add: keyed_def AddHandler_def)

lemma keyed_fold: "keyed hs \<Longrightarrow> keyed (fold AddHandler xs hs)"
  by (induction xs arbitrary: hs) (simp_all add: keyed_AddHandler)

lemma GetHandler_keyed:
  "keyed hs \<Longrightarrow> GetHandler hs u =
     (case hs u of None \<Rightarrow> NotFoundError [Txt ''Could not find a handler for: '', Txt u] | Some h \<Rightarrow> Ok h)"
  by (auto simp: GetHandler_def keyed_def split: option.splits)

lemma fold_AddHandler:
  "fold AddHandler xs hs u =
     (case find (\<lambda>h. handler_uri h = u) (rev xs) of None \<Rightarrow> hs u | Some h \<Rightarrow> Some h)"
proof (induction xs rule: rev_induct)
  case (snoc x xs)
  then show ?case by (simp add: AddHandler_def)
qed simp

lemma GetHandler_AddHandler:
  "GetHandler (AddHandler h hs) u = (if u = handler_uri h then Ok h else GetHandler hs u)"
  by (simp add: GetHandler_def AddHandler_def)

lemma GetHandler_Ok: "GetHandler hs u = Ok h \<Longrightarrow> hs u = Some h \<and> handler_uri h = u"
  by (auto simp: GetHandler_def split: option.splits if_splits)

lemma distinct_built_in: "distinct (map handler_uri (built_in_handlers config))"
  by (simp add: built_in_handlers_def) (simp add: uri_defs)

text \<open>
  C33: looking up an identifier in the complete handler set gives the custom handler that
  was registered last under it, else the built-in handler of that identifier, else a
  not-found error; the branch for a handler stored under a foreign identifier is dead.
\<close>

theorem GetHandler_complete:
  "GetHandler (CreateCompleteHandlerSet config) u =
     (case find (\<lambda>h. handler_uri h = u) (rev (custom_intrinsics_list config)) of
        Some h \<Rightarrow> Ok h
      | None \<Rightarrow> (case find (\<lambda>h. handler_uri h = u) (built_in_handlers config) of
          Some h \<Rightarrow> Ok h
        | None \<Rightarrow> NotFoundError [Txt ''Could not find a handler for: '', Txt u]))"
proof -
  have keyed: "keyed (CreateCompleteHandlerSet config)"
    unfolding CreateCompleteHandlerSet_def by (rule keyed_fold) simp
  have "find (\<lambda>h. handler_uri h = u) (rev (built_in_handlers config)) =
      find (\<lambda>h. handler_uri h = u) (built_in_handlers config)"
    by (rule find_rev_distinct) (rule distinct_built_in)
  then show ?thesis
    by (simp add: GetHandler_keyed [OF keyed])
       (simp add: CreateCompleteHandlerSet_def fold_append fold_AddHandler split: option.split)
qed

end
