(* ===== verification/Control_Flow_Intrinsics.thy ===== *)
theory Control_Flow_Intrinsics
  imports Intrinsics
begin

text \<open>
  The calls of the control flow intrinsics (\<^verbatim>\<open>genc/cc/intrinsics\<close>) over the context the
  executor gives them: an executor whose references are shared pointers. The loop of
  \<open>While\<close> may never end, so it runs on fuel.
\<close>

section \<open>Helpers\<close>

text \<open>\<open>Materialize\<close> into a local variable that starts out as the empty message.\<close>

definition Materialize_pb :: "('v, 's) executor \<Rightarrow> 'v \<Rightarrow> ('s, pvalue) prog" where
  "Materialize_pb ctx v =
     GENC_TRY (materialize ctx v True) (\<lambda>r. return (case r of None \<Rightarrow> empty_value | Some p \<Rightarrow> p))"

text \<open>\<open>arg.value()\<close> of an empty optional throws.\<close>

definition arg_value :: "'v option \<Rightarrow> 'v outcome" where
  "arg_value arg = (case arg of None \<Rightarrow> Crash BadOptionalAccess | Some v \<Rightarrow> Ok v)"

text \<open>Goes on with the error when a step fails with one.\<close>

definition otherwise :: "('s, 'a) prog \<Rightarrow> (status \<Rightarrow> ('s, 'a) prog) \<Rightarrow> ('s, 'a) prog" where
  "otherwise p k = (\<lambda>s. case p s of
      (Err e, s') \<Rightarrow> k e s'
    | r \<Rightarrow> r)"

section \<open>The calls\<close>

definition Conditional_ExecuteCall ::
  "intrinsic_pb \<Rightarrow> 'v option \<Rightarrow> ('v, 's) executor \<Rightarrow> ('s, 'v) prog" where
  "Conditional_ExecuteCall i arg ctx = (case arg of
      None \<Rightarrow> lift (InvalidArgumentError [Txt ''Missing condition.''])
    | Some a \<Rightarrow>
        GENC_TRY (Materialize_pb ctx a) (\<lambda>cond_pb.
        if \<not> has_boolean cond_pb
        then lift (InvalidArgumentError [Txt ''Condition is not a Boolean: '', DebugString cond_pb])
        else GENC_TRY (lift (element (params i) (if boolean cond_pb then 0 else 1))) (create_value ctx)))"

text \<open>One candidate: created, called, and materialized with a null output pointer.\<close>

definition attempt_candidate ::
  "'v option \<Rightarrow> ('v, 's) executor \<Rightarrow> pvalue \<Rightarrow> ('s, 'v) prog" where
  "attempt_candidate arg ctx fn_pb =
     GENC_TRY (create_value ctx fn_pb) (\<lambda>fn.
     GENC_TRY (create_call ctx fn arg) (\<lambda>r.
     GENC_TRY (materialize ctx r False) (\<lambda>_. return r)))"

fun Fallback_loop ::
  "'v option \<Rightarrow> ('v, 's) executor \<Rightarrow> pvalue list \<Rightarrow> status \<Rightarrow> ('s, 'v) prog" where
  "Fallback_loop arg ctx [] error_status = lift (Err error_status)"
| "Fallback_loop arg ctx (fn_pb # fns) error_status =
     otherwise (attempt_candidate arg ctx fn_pb) (Fallback_loop arg ctx fns)"

definition no_candidate :: status where
  "no_candidate = Status kUnavailable [Txt ''No candidate computations available.'']"

definition Fallback_ExecuteCall ::
  "intrinsic_pb \<Rightarrow> 'v option \<Rightarrow> ('v, 's) executor \<Rightarrow> ('s, 'v) prog" where
  "Fallback_ExecuteCall i arg ctx = Fallback_loop arg ctx (params i) no_candidate"

definition chain_step :: "('v, 's) executor \<Rightarrow> pvalue \<Rightarrow> 'v \<Rightarrow> ('s, 'v) prog" where
  "chain_step ctx fn state =
     GENC_TRY (create_value ctx fn) (\<lambda>fn_ref. create_call ctx fn_ref (Some state))"

definition SerialChain_ExecuteCall ::
  "intrinsic_pb \<Rightarrow> 'v option \<Rightarrow> ('v, 's) executor \<Rightarrow> ('s, 'v) prog" where
  "SerialChain_ExecuteCall i arg ctx =
     GENC_TRY (lift (arg_value arg)) (fold_try (chain_step ctx) (params i))"

fun BreakableChain_loop :: "('v, 's) executor \<Rightarrow> pvalue list \<Rightarrow> 'v \<Rightarrow> ('s, 'v) prog" where
  "BreakableChain_loop ctx [] state = return state"
| "BreakableChain_loop ctx (fn # fns) state =
     GENC_TRY (create_value ctx fn) (\<lambda>fn_ref.
     GENC_TRY (create_call ctx fn_ref (Some state)) (\<lambda>next_state.
     GENC_TRY (Materialize_pb ctx next_state) (\<lambda>next_state_pb.
     if \<not> has_boolean next_state_pb then BreakableChain_loop ctx fns next_state
     else if boolean next_state_pb then return state
     else BreakableChain_loop ctx fns state)))"

definition BreakableChain_ExecuteCall ::
  "intrinsic_pb \<Rightarrow> 'v option \<Rightarrow> ('v, 's) executor \<Rightarrow> ('s, 'v) prog" where
  "BreakableChain_ExecuteCall i arg ctx =
     GENC_TRY (lift (arg_value arg)) (BreakableChain_loop ctx (params i))"

text \<open>\<open>for (int i = 0; i < num_steps; i++)\<close>: no turn when the bound is negative.\<close>

fun repeat_try :: "nat \<Rightarrow> ('a \<Rightarrow> ('s, 'a) prog) \<Rightarrow> 'a \<Rightarrow> ('s, 'a) prog" where
  "repeat_try 0 f x = return x"
| "repeat_try (Suc n) f x = GENC_TRY (f x) (repeat_try n f)"

definition Repeat_ExecuteCall ::
  "intrinsic_pb \<Rightarrow> 'v option \<Rightarrow> ('v, 's) executor \<Rightarrow> ('s, 'v) prog" where
  "Repeat_ExecuteCall i arg ctx =
     GENC_TRY (lift (element (params i) 0)) (\<lambda>steps_pb.
     GENC_TRY (lift (element (params i) 1)) (\<lambda>body_pb.
     GENC_TRY (create_value ctx body_pb) (\<lambda>body_fn.
     GENC_TRY (lift (arg_value arg)) (\<lambda>state.
     repeat_try (nat (sint (int_32 steps_pb))) (\<lambda>st. create_call ctx body_fn (Some st)) state))))"

text \<open>One pass over the functions; the flag says that a step asked to stop.\<close>

fun conditional_chain_pass :: "('v, 's) executor \<Rightarrow> 'v list \<Rightarrow> 'v \<Rightarrow> ('s, 'v \<times> bool) prog" where
  "conditional_chain_pass ctx [] state = return (state, False)"
| "conditional_chain_pass ctx (body_fn # fns) state =
     GENC_TRY (create_call ctx body_fn (Some state)) (\<lambda>fn_val.
     GENC_TRY (Materialize_pb ctx fn_val) (\<lambda>next_state_pb.
     if \<not> has_boolean next_state_pb
     then GENC_TRY (create_value ctx next_state_pb) (conditional_chain_pass ctx fns)
     else if boolean next_state_pb then return (state, True)
     else conditional_chain_pass ctx fns state))"

fun conditional_chain_loop :: "nat \<Rightarrow> ('v, 's) executor \<Rightarrow> 'v list \<Rightarrow> 'v \<Rightarrow> ('s, 'v) prog" where
  "conditional_chain_loop 0 ctx fns state = return state"
| "conditional_chain_loop (Suc n) ctx fns state =
     GENC_TRY (conditional_chain_pass ctx fns state) (\<lambda>(state', should_break).
     if should_break then return state' else conditional_chain_loop n ctx fns state')"

definition RepeatedConditionalChain_ExecuteCall ::
  "intrinsic_pb \<Rightarrow> 'v option \<Rightarrow> ('v, 's) executor \<Rightarrow> ('s, 'v) prog" where
  "RepeatedConditionalChain_ExecuteCall i arg ctx =
     GENC_TRY (lift (element (params i) 0)) (\<lambda>steps_pb.
     GENC_TRY (map_try (create_value ctx) (tl (params i))) (\<lambda>body_fns_ref.
     GENC_TRY (lift (arg_value arg)) (\<lambda>state.
     conditional_chain_loop (nat (sint (int_32 steps_pb))) ctx body_fns_ref state)))"

fun While_loop :: "nat \<Rightarrow> ('v, 's) executor \<Rightarrow> 'v \<Rightarrow> 'v \<Rightarrow> 'v \<Rightarrow> ('s, 'v) prog" where
  "While_loop 0 ctx condition_fn body_fn state = lift Diverge"
| "While_loop (Suc n) ctx condition_fn body_fn state =
     GENC_TRY (create_call ctx condition_fn (Some state)) (\<lambda>condition_val.
     GENC_TRY (Materialize_pb ctx condition_val) (\<lambda>cond_pb.
     if \<not> has_boolean cond_pb
     then lift (InvalidArgumentError [Txt ''Condition does not have boolean: '', DebugString cond_pb])
     else if \<not> boolean cond_pb then return state
     else GENC_TRY (create_call ctx body_fn (Some state)) (While_loop n ctx condition_fn body_fn)))"

definition While_ExecuteCall ::
  "nat \<Rightarrow> intrinsic_pb \<Rightarrow> 'v option \<Rightarrow> ('v, 's) executor \<Rightarrow> ('s, 'v) prog" where
  "While_ExecuteCall fuel i arg ctx =
     GENC_TRY (lift (element (params i) 0)) (\<lambda>cond_pb.
     GENC_TRY (create_value ctx cond_pb) (\<lambda>condition_fn.
     GENC_TRY (lift (element (params i) 1)) (\<lambda>body_pb.
     GENC_TRY (create_value ctx body_pb) (\<lambda>body_fn.
     GENC_TRY (lift (arg_value arg)) (While_loop fuel ctx condition_fn body_fn)))))"

definition map_element :: "('v, 's) executor \<Rightarrow> 'v \<Rightarrow> pvalue \<Rightarrow> ('s, 'v) prog" where
  "map_element ctx fn_val e =
     GENC_TRY (create_value ctx e) (\<lambda>arg_val. create_call ctx fn_val (Some arg_val))"

definition ParallelMap_ExecuteCall ::
  "intrinsic_pb \<Rightarrow> 'v option \<Rightarrow> ('v, 's) executor \<Rightarrow> ('s, 'v) prog" where
  "ParallelMap_ExecuteCall i arg ctx =
     GENC_TRY (lift (arg_value arg)) (\<lambda>a.
     GENC_TRY (Materialize_pb ctx a) (\<lambda>args_pb.
     GENC_TRY (create_value ctx (static_parameter i)) (\<lambda>fn_val.
     GENC_TRY (map_try (map_element ctx fn_val) (struct_elements args_pb)) (\<lambda>results.
     create_struct ctx results))))"

text \<open>
  The argument is swapped into an optional that holds no value yet: dereferencing it is
  undefined behaviour, here a crash.
\<close>

definition Delegate_ExecuteCall ::
  "RunnerMap \<Rightarrow> intrinsic_pb \<Rightarrow> 'v option \<Rightarrow> ('v, 's) executor \<Rightarrow> ('s, 'v) prog" where
  "Delegate_ExecuteCall runner_map i arg ctx =
     GENC_TRY (lift (element (params i) 0)) (\<lambda>env_pb.
     case runner_map (str env_pb) of
       None \<Rightarrow> lift (NotFoundError [Txt ''No such runtime environment: '', Txt (str env_pb)])
     | Some runner_fn \<Rightarrow>
         GENC_TRY (lift (element (params i) 1)) (\<lambda>func_pb.
         GENC_TRY (case arg of
                     None \<Rightarrow> return None
                   | Some a \<Rightarrow> GENC_TRY (Materialize_pb ctx a) (\<lambda>arg_pb. lift (Crash BadOptionalAccess)))
           (\<lambda>optional_arg_pb.
         GENC_TRY (lift (runner_fn func_pb optional_arg_pb)) (create_value ctx))))"

section \<open>Dispatch\<close>

fun control_flow_ExecuteCall ::
  "nat \<Rightarrow> 'w handler \<Rightarrow> intrinsic_pb \<Rightarrow> 'v option \<Rightarrow> ('v, 's) executor \<Rightarrow> ('s, 'v) prog" where
  "control_flow_ExecuteCall fuel Conditional i arg ctx = Conditional_ExecuteCall i arg ctx"
| "control_flow_ExecuteCall fuel Fallback i arg ctx = Fallback_ExecuteCall i arg ctx"
| "control_flow_ExecuteCall fuel SerialChain i arg ctx = SerialChain_ExecuteCall i arg ctx"
| "control_flow_ExecuteCall fuel BreakableChain i arg ctx = BreakableChain_ExecuteCall i arg ctx"
| "control_flow_ExecuteCall fuel Repeat i arg ctx = Repeat_ExecuteCall i arg ctx"
| "control_flow_ExecuteCall fuel RepeatedConditionalChain i arg ctx =
     RepeatedConditionalChain_ExecuteCall i arg ctx"
| "control_flow_ExecuteCall fuel While i arg ctx = While_ExecuteCall fuel i arg ctx"
| "control_flow_ExecuteCall fuel ParallelMap i arg ctx = ParallelMap_ExecuteCall i arg ctx"
| "control_flow_ExecuteCall fuel (Delegate m) i arg ctx = Delegate_ExecuteCall m i arg ctx"
| "control_flow_ExecuteCall fuel h i arg ctx = lift (Crash NullDereference)"

lemmas control_flow_defs [handler_simps] =
  Conditional_ExecuteCall_def Fallback_ExecuteCall_def SerialChain_ExecuteCall_def
  BreakableChain_ExecuteCall_def Repeat_ExecuteCall_def RepeatedConditionalChain_ExecuteCall_def
  While_ExecuteCall_def ParallelMap_ExecuteCall_def Delegate_ExecuteCall_def

end
