(* ===== verification/Control_Flow_Executor.thy ===== *)
theory Control_Flow_Executor
  imports Control_Flow_Intrinsics
begin

text \<open>
  \<^verbatim>\<open>genc/cc/runtime/control_flow_executor.cc\<close>: the executor that evaluates lambdas,
  blocks, structures and control flow, and passes everything else to a child executor.
  \<open>'h\<close> is the handle of the child and \<open>'s\<close> its state. Lambda calls make the evaluation
  recursive beyond the size of the value, and programs can loop, so the evaluator runs on
  fuel; the outcome \<open>Diverge\<close> says that it ran out.
\<close>

section \<open>Values and scopes\<close>

datatype ('h, 'w) exec_value =
    Embedded 'h
  | Structure "('h, 'w) exec_value list"
  | LambdaV lambda_pb "('h, 'w) scope"
  | IntrinsicV intrinsic_pb "'w handler" "('h, 'w) scope"
and ('h, 'w) scope =
    Root
  | Scope string "('h, 'w) exec_value" "('h, 'w) scope"

primrec Resolve :: "('h, 'w) scope \<Rightarrow> string \<Rightarrow> ('h, 'w) exec_value outcome" where
  "Resolve Root nm = NotFoundError [Txt ''Could not find reference ['', Txt nm, Txt '']'']"
| "Resolve (Scope x v parent) nm = (if x = nm then Ok v else Resolve parent nm)"

fun value_DebugString :: "('h, 'w) exec_value \<Rightarrow> string" where
  "value_DebugString (Embedded h) = ''V''"
| "value_DebugString (Structure vs) = ''<V>''"
| "value_DebugString v = ''invalid''"

primrec scope_DebugString :: "('h, 'w) scope \<Rightarrow> string" where
  "scope_DebugString Root = ''[]''"
| "scope_DebugString (Scope x v parent) =
     scope_DebugString parent @ ''->'' @ ''['' @ x @ ''='' @ value_DebugString v @ '']''"

section \<open>Embedding a value into the child executor\<close>

text \<open>
  The owned handles of temporary child values are released when the function that holds
  them returns, with a value or with an error.
\<close>

definition release_handles :: "('h, 's) executor \<Rightarrow> 'h list \<Rightarrow> 's \<Rightarrow> 's" where
  "release_handles child hs s = fold (\<lambda>h st. snd (dispose child h st)) hs s"

definition finally_release :: "('h, 's) executor \<Rightarrow> 'h list \<Rightarrow> ('s, 'a) prog \<Rightarrow> ('s, 'a) prog" where
  "finally_release child hs p = (\<lambda>s. case p s of
      (Ok x, s') \<Rightarrow> (Ok x, release_handles child hs s')
    | (Err e, s') \<Rightarrow> (Err e, release_handles child hs s')
    | (Crash c, s') \<Rightarrow> (Crash c, s')
    | (Diverge, s') \<Rightarrow> (Diverge, s'))"

definition try_or_release ::
  "('h, 's) executor \<Rightarrow> 'h list \<Rightarrow> ('s, 'a) prog \<Rightarrow> ('a \<Rightarrow> ('s, 'b) prog) \<Rightarrow> ('s, 'b) prog" where
  "try_or_release child hs p k = (\<lambda>s. case p s of
      (Ok x, s') \<Rightarrow> k x s'
    | (Err e, s') \<Rightarrow> (Err e, release_handles child hs s')
    | (Crash c, s') \<Rightarrow> (Crash c, s')
    | (Diverge, s') \<Rightarrow> (Diverge, s'))"

definition slot_list :: "'h option \<Rightarrow> 'h list" where
  "slot_list slot = (case slot of None \<Rightarrow> [] | Some h \<Rightarrow> [h])"

text \<open>
  The result is the child's handle, and the slot that owns it when it was created here.
  The fields carry the handles of the fields so far and the slots that own some of them.
\<close>

fun Embed :: "('h, 's) executor \<Rightarrow> ('h, 'w) exec_value \<Rightarrow> ('s, 'h \<times> 'h option) prog"
and Embed_fields ::
  "('h, 's) executor \<Rightarrow> ('h, 'w) exec_value list \<Rightarrow> 'h list \<Rightarrow> 'h list \<Rightarrow> ('s, 'h \<times> 'h option) prog" where
  "Embed child (Embedded h) = return (h, None)"
| "Embed child (Structure vs) = Embed_fields child vs [] []"
| "Embed child (LambdaV l sc) =
     GENC_TRY (create_value child (plain (KLambda l))) (\<lambda>h. return (h, Some h))"
| "Embed child (IntrinsicV i hdl sc) =
     lift (InternalError [Txt ''Tried to embed an unsupported value type.''])"
| "Embed_fields child [] field_ids field_slots =
     finally_release child field_slots
       (GENC_TRY (create_struct child field_ids) (\<lambda>h. return (h, Some h)))"
| "Embed_fields child (v # vs) field_ids field_slots =
     try_or_release child field_slots (Embed child v) (\<lambda>(h, slot).
       Embed_fields child vs (field_ids @ [h]) (field_slots @ slot_list slot))"

definition ConstMaterialize ::
  "('h, 's) executor \<Rightarrow> ('h, 'w) exec_value \<Rightarrow> bool \<Rightarrow> ('s, pvalue option) prog" where
  "ConstMaterialize child v want =
     GENC_TRY (Embed child v) (\<lambda>(h, slot).
       finally_release child (slot_list slot) (materialize child h want))"

section \<open>Structures and selections\<close>

definition CreateSelectionInternal ::
  "('h, 's) executor \<Rightarrow> ('h, 'w) exec_value \<Rightarrow> u32 \<Rightarrow> ('s, ('h, 'w) exec_value) prog" where
  "CreateSelectionInternal child source index = (case source of
      Embedded child_id \<Rightarrow>
        GENC_TRY (create_selection child child_id index) (\<lambda>h. return (Embedded h))
    | Structure elements \<Rightarrow>
        if length elements \<le> unat index
        then lift (NotFoundError
          [Txt ''Failed to create selection for index ['', Num (uint index),
           Txt ''] on structure with length ['', Num (int (length elements)), Txt '']''])
        else return (elements ! unat index)
    | _ \<Rightarrow> lift (InvalidArgumentError
          [Txt ''Cannot perform selection on a Lambda or Intrinsic value'']))"

section \<open>One level of the evaluator\<close>

text \<open>
  \<open>ev\<close> and \<open>cl\<close> are \<open>Evaluate\<close> and \<open>ConstCreateCall\<close> themselves, for the calls that the
  bodies make; the recursion is tied below.
\<close>

type_synonym ('h, 'w, 's) evaluate_fn = "pvalue \<Rightarrow> ('h, 'w) scope \<Rightarrow> ('s, ('h, 'w) exec_value) prog"
type_synonym ('h, 'w, 's) call_fn = "('h, 'w) exec_value \<Rightarrow> ('h, 'w) exec_value option \<Rightarrow> ('s, ('h, 'w) exec_value) prog"

definition local_names :: "local_pb list \<Rightarrow> string" where
  "local_names ls = concat (case map local_name ls of [] \<Rightarrow> [] | n # ns \<Rightarrow> n # map (\<lambda>m. '','' @ m) ns)"

definition while_evaluating :: "local_pb list \<Rightarrow> local_pb \<Rightarrow> message" where
  "while_evaluating ls l =
     [Txt ''while evaluating local ['', Txt (local_name l), Txt ''] in block locals ['',
      Txt (local_names ls), Txt '']'']"

definition evaluate_local ::
  "('h, 'w, 's) evaluate_fn \<Rightarrow> local_pb list \<Rightarrow> local_pb \<Rightarrow> ('h, 'w) scope \<Rightarrow> ('s, ('h, 'w) scope) prog" where
  "evaluate_local ev ls l current_scope =
     GENC_TRY (with_suffix (while_evaluating ls l) (ev (local_value l) current_scope)) (\<lambda>v.
     return (Scope (local_name l) v current_scope))"

definition EvaluateBlock ::
  "('h, 'w, 's) evaluate_fn \<Rightarrow> local_pb list \<Rightarrow> pvalue \<Rightarrow> ('h, 'w) scope \<Rightarrow> ('s, ('h, 'w) exec_value) prog" where
  "EvaluateBlock ev ls result sc =
     GENC_TRY (fold_try (evaluate_local ev ls) ls sc) (ev result)"

definition EvaluateReference :: "string \<Rightarrow> ('h, 'w) scope \<Rightarrow> ('s, ('h, 'w) exec_value) prog" where
  "EvaluateReference nm sc =
     with_suffix [Txt ''while searching scope: '', Txt (scope_DebugString sc)] (lift (Resolve sc nm))"

definition EvaluateCall ::
  "('h, 'w, 's) evaluate_fn \<Rightarrow> ('h, 'w, 's) call_fn \<Rightarrow> pvalue \<Rightarrow> pvalue option \<Rightarrow> ('h, 'w) scope
     \<Rightarrow> ('s, ('h, 'w) exec_value) prog" where
  "EvaluateCall ev cl fn_pb arg_pb sc =
     GENC_TRY (ev fn_pb sc) (\<lambda>function.
     GENC_TRY (case arg_pb of
                 None \<Rightarrow> return None
               | Some a \<Rightarrow> GENC_TRY (ev a sc) (\<lambda>v. return (Some v))) (\<lambda>argument.
     cl function argument))"

definition EvaluateStruct ::
  "('h, 'w, 's) evaluate_fn \<Rightarrow> pvalue list \<Rightarrow> ('h, 'w) scope \<Rightarrow> ('s, ('h, 'w) exec_value) prog" where
  "EvaluateStruct ev es sc =
     GENC_TRY (map_try (\<lambda>e. ev e sc) es) (\<lambda>elements. return (Structure elements))"

definition EvaluateSelection ::
  "('h, 's) executor \<Rightarrow> ('h, 'w, 's) evaluate_fn \<Rightarrow> pvalue \<Rightarrow> u32 \<Rightarrow> ('h, 'w) scope
     \<Rightarrow> ('s, ('h, 'w) exec_value) prog" where
  "EvaluateSelection child ev source index sc =
     GENC_TRY (ev source sc) (\<lambda>v. CreateSelectionInternal child v index)"

definition EvaluateLambda :: "lambda_pb \<Rightarrow> ('h, 'w) scope \<Rightarrow> ('s, ('h, 'w) exec_value) prog" where
  "EvaluateLambda l sc = return (LambdaV l sc)"

definition embed_in_child :: "('h, 's) executor \<Rightarrow> pvalue \<Rightarrow> ('s, ('h, 'w) exec_value) prog" where
  "embed_in_child child v = GENC_TRY (create_value child v) (\<lambda>h. return (Embedded h))"

text \<open>Handlers that are not control flow are left to the child, with the whole value.\<close>

definition EvaluateIntrinsic ::
  "'w IntrinsicHandlerSet \<Rightarrow> ('h, 's) executor \<Rightarrow> pvalue \<Rightarrow> intrinsic_pb \<Rightarrow> ('h, 'w) scope
     \<Rightarrow> ('s, ('h, 'w) exec_value) prog" where
  "EvaluateIntrinsic hs child v intr_pb sc =
     GENC_TRY (lift (GetHandler hs (uri intr_pb))) (\<lambda>h.
     GENC_TRY (lift (CheckWellFormed h intr_pb)) (\<lambda>_.
     if interface_type h = CONTROL_FLOW
     then GENC_TRY (lift (CheckWellFormed h intr_pb)) (\<lambda>_. return (IntrinsicV intr_pb h sc))
     else embed_in_child child v))"

definition Evaluate_F ::
  "'w IntrinsicHandlerSet \<Rightarrow> ('h, 's) executor \<Rightarrow> ('h, 'w, 's) evaluate_fn \<Rightarrow> ('h, 'w, 's) call_fn
     \<Rightarrow> ('h, 'w, 's) evaluate_fn" where
  "Evaluate_F hs child ev cl v sc = (case value_case v of
      KBlock ls r \<Rightarrow> EvaluateBlock ev ls (or_default r) sc
    | KReference nm \<Rightarrow> EvaluateReference nm sc
    | KCall f a \<Rightarrow> EvaluateCall ev cl (or_default f) a sc
    | KSelection s i \<Rightarrow> EvaluateSelection child ev (or_default s) i sc
    | KStruct es \<Rightarrow> EvaluateStruct ev es sc
    | KLambda l \<Rightarrow> EvaluateLambda l sc
    | KIntrinsic intr_pb \<Rightarrow> EvaluateIntrinsic hs child v intr_pb sc
    | _ \<Rightarrow> embed_in_child child v)"

section \<open>Creating values\<close>

definition HasComputation :: "pvalue \<Rightarrow> bool" where
  "HasComputation v = (case value_case v of
      KBlock ls r \<Rightarrow> True | KReference nm \<Rightarrow> True | KCall f a \<Rightarrow> True | KLambda l \<Rightarrow> True
    | KStruct es \<Rightarrow> True | KSelection s i \<Rightarrow> True | KIntrinsic i \<Rightarrow> True | _ \<Rightarrow> False)"

definition ConstCreateExecutorValue ::
  "('h, 's) executor \<Rightarrow> ('h, 'w, 's) evaluate_fn \<Rightarrow> pvalue \<Rightarrow> ('s, ('h, 'w) exec_value) prog" where
  "ConstCreateExecutorValue child ev v = (case value_case v of
      NotSet \<Rightarrow> lift (UnimplementedError [Txt ''Cannot create value of type ['', Num 0, Txt '']''])
    | KBlock ls r \<Rightarrow> ev v Root | KReference nm \<Rightarrow> ev v Root | KCall f a \<Rightarrow> ev v Root
    | KLambda l \<Rightarrow> ev v Root | KStruct es \<Rightarrow> ev v Root | KSelection s i \<Rightarrow> ev v Root
    | KIntrinsic i \<Rightarrow> ev v Root
    | _ \<Rightarrow> embed_in_child child v)"

section \<open>The context of a control flow handler\<close>

definition context_CreateValue ::
  "('h, 's) executor \<Rightarrow> ('h, 'w, 's) evaluate_fn \<Rightarrow> ('h, 'w) scope \<Rightarrow> pvalue \<Rightarrow> ('s, ('h, 'w) exec_value) prog" where
  "context_CreateValue child ev sc v =
     (if HasComputation v then ev v sc else ConstCreateExecutorValue child ev v)"

definition ControlFlowIntrinsicCallContextImpl ::
  "('h, 's) executor \<Rightarrow> ('h, 'w, 's) evaluate_fn \<Rightarrow> ('h, 'w, 's) call_fn \<Rightarrow> ('h, 'w) scope
     \<Rightarrow> (('h, 'w) exec_value, 's) executor" where
  "ControlFlowIntrinsicCallContextImpl child ev cl sc = \<lparr>
     create_value = context_CreateValue child ev sc,
     create_call = cl,
     create_struct = (\<lambda>members. return (Structure members)),
     create_selection = CreateSelectionInternal child,
     materialize = ConstMaterialize child,
     dispose = (\<lambda>v. lift (UnimplementedError [Txt ''Not implemented.'']))\<rparr>"

section \<open>Calls\<close>

definition ScopedLambda_Call ::
  "('h, 'w, 's) evaluate_fn \<Rightarrow> lambda_pb \<Rightarrow> ('h, 'w) scope \<Rightarrow> ('h, 'w) exec_value option \<Rightarrow> ('s, ('h, 'w) exec_value) prog" where
  "ScopedLambda_Call ev l sc arg = (case arg of
      Some a \<Rightarrow> ev (lambda_result l) (Scope (parameter_name l) a sc)
    | None \<Rightarrow> ev (lambda_result l) sc)"

definition ScopedIntrinsic_Call ::
  "nat \<Rightarrow> ('h, 's) executor \<Rightarrow> ('h, 'w, 's) evaluate_fn \<Rightarrow> ('h, 'w, 's) call_fn \<Rightarrow> intrinsic_pb
     \<Rightarrow> 'w handler \<Rightarrow> ('h, 'w) scope \<Rightarrow> ('h, 'w) exec_value option \<Rightarrow> ('s, ('h, 'w) exec_value) prog" where
  "ScopedIntrinsic_Call fuel child ev cl intr_pb h sc arg =
     GENC_TRY (lift (GetControlFlowInterface h)) (\<lambda>interface.
     control_flow_ExecuteCall fuel interface intr_pb arg
       (ControlFlowIntrinsicCallContextImpl child ev cl sc))"

definition call_child ::
  "('h, 's) executor \<Rightarrow> 'h \<Rightarrow> ('h, 'w) exec_value option \<Rightarrow> ('s, ('h, 'w) exec_value) prog" where
  "call_child child f argument = (case argument of
      None \<Rightarrow> GENC_TRY (create_call child f None) (\<lambda>h. return (Embedded h))
    | Some a \<Rightarrow>
        GENC_TRY (Embed child a) (\<lambda>(embedded_arg, slot).
        finally_release child (slot_list slot)
          (GENC_TRY (create_call child f (Some embedded_arg)) (\<lambda>h. return (Embedded h)))))"

definition ConstCreateCall_F ::
  "nat \<Rightarrow> ('h, 's) executor \<Rightarrow> ('h, 'w, 's) evaluate_fn \<Rightarrow> ('h, 'w, 's) call_fn \<Rightarrow> ('h, 'w, 's) call_fn" where
  "ConstCreateCall_F fuel child ev cl function argument = (case function of
      Embedded f \<Rightarrow> call_child child f argument
    | LambdaV l sc \<Rightarrow> ScopedLambda_Call ev l sc argument
    | Structure vs \<Rightarrow> lift (InvalidArgumentError
        [Txt ''Received value type [STRUCTURE] which is not a function.''])
    | IntrinsicV i h sc \<Rightarrow> ScopedIntrinsic_Call fuel child ev cl i h sc argument)"

section \<open>The recursion\<close>

primrec interp ::
  "nat \<Rightarrow> 'w IntrinsicHandlerSet \<Rightarrow> ('h, 's) executor \<Rightarrow> ('h, 'w, 's) evaluate_fn \<times> ('h, 'w, 's) call_fn" where
  "interp 0 hs child = ((\<lambda>v sc. lift Diverge), (\<lambda>f a. lift Diverge))"
| "interp (Suc n) hs child =
     (case interp n hs child of (ev, cl) \<Rightarrow>
        (Evaluate_F hs child ev cl, ConstCreateCall_F n child ev cl))"

definition Evaluate :: "nat \<Rightarrow> 'w IntrinsicHandlerSet \<Rightarrow> ('h, 's) executor \<Rightarrow> ('h, 'w, 's) evaluate_fn" where
  "Evaluate n hs child = fst (interp n hs child)"

definition ConstCreateCall :: "nat \<Rightarrow> 'w IntrinsicHandlerSet \<Rightarrow> ('h, 's) executor \<Rightarrow> ('h, 'w, 's) call_fn" where
  "ConstCreateCall n hs child = snd (interp n hs child)"

lemma Evaluate_0 [simp]: "Evaluate 0 hs child v sc = lift Diverge"
  by (simp add: Evaluate_def)

lemma ConstCreateCall_0 [simp]: "ConstCreateCall 0 hs child f a = lift Diverge"
  by (simp add: ConstCreateCall_def)

lemma Evaluate_Suc:
  "Evaluate (Suc n) hs child = Evaluate_F hs child (Evaluate n hs child) (ConstCreateCall n hs child)"
  by (simp add: Evaluate_def ConstCreateCall_def split: prod.split)

lemma ConstCreateCall_Suc:
  "ConstCreateCall (Suc n) hs child =
     ConstCreateCall_F n child (Evaluate n hs child) (ConstCreateCall n hs child)"
  by (simp add: Evaluate_def ConstCreateCall_def split: prod.split)

section \<open>The executor\<close>

definition ControlFlowExecutor ::
  "nat \<Rightarrow> 'w IntrinsicHandlerSet \<Rightarrow> ('h, 's) executor \<Rightarrow> (('h, 'w) exec_value, 's) executor_impl" where
  "ControlFlowExecutor n hs child = \<lparr>
     executor_name = ''ControlFlowExecutor'',
     impl_create_value = ConstCreateExecutorValue child (Evaluate n hs child),
     impl_create_call = ConstCreateCall n hs child,
     impl_create_struct = (\<lambda>members. return (Structure members)),
     impl_create_selection = CreateSelectionInternal child,
     impl_materialize = ConstMaterialize child\<rparr>"

definition CreateControlFlowExecutor ::
  "nat \<Rightarrow> 'w IntrinsicHandlerSet \<Rightarrow> ('h, 's) executor
     \<Rightarrow> (ValueId, (('h, 'w) exec_value, 's) base_state) executor" where
  "CreateControlFlowExecutor n hs child = ExecutorBase (ControlFlowExecutor n hs child)"

end
