(* ===== verification/Fuel.thy ===== *)
theory Fuel
  imports Control_Flow_Executor
begin

text \<open>
  More fuel never changes an answer of the evaluator: the order on programs in which only
  divergence may be improved, the combinators and the handlers as monotone functions, and
  the big-step relation that forgets the amount of fuel.
\<close>

section \<open>The order on programs\<close>

definition prog_le :: "('s, 'a) prog \<Rightarrow> ('s, 'a) prog \<Rightarrow> bool" where
  "prog_le p q \<longleftrightarrow> (\<forall>s. fst (p s) = Diverge \<or> p s = q s)"

named_theorems prog_le_intros "monotonicity of the program combinators"

lemma prog_leD: "prog_le p q \<Longrightarrow> fst (p s) \<noteq> Diverge \<Longrightarrow> q s = p s"
  by (auto simp: prog_le_def)

lemma prog_le_refl [simp, prog_le_intros]: "prog_le p p"
  by (simp add: prog_le_def)

lemma prog_le_trans: "prog_le p q \<Longrightarrow> prog_le q r \<Longrightarrow> prog_le p r"
  unfolding prog_le_def by metis

lemma prog_le_Diverge [simp, prog_le_intros]: "prog_le (lift Diverge) q"
  by (simp add: prog_le_def lift_def)

lemma fst_Diverge_cases:
  assumes "prog_le p q"
  obtains s' where "p s = (Diverge, s')" | "q s = p s"
  using assms unfolding prog_le_def by (metis prod.collapse)

lemma prog_le_try [prog_le_intros]:
  assumes "prog_le p q" and "\<And>x. prog_le (k x) (l x)"
  shows "prog_le (GENC_TRY p k) (GENC_TRY q l)"
  unfolding prog_le_def
proof
  fix s
  show "fst (GENC_TRY p k s) = Diverge \<or> GENC_TRY p k s = GENC_TRY q l s"
    using assms(2) by (rule_tac s = s in fst_Diverge_cases [OF assms(1)])
      (auto simp: GENC_TRY_apply prog_le_def split: prod.splits outcome.splits)
qed

lemma prog_le_otherwise [prog_le_intros]:
  assumes "prog_le p q" and "\<And>e. prog_le (k e) (l e)"
  shows "prog_le (otherwise p k) (otherwise q l)"
  unfolding prog_le_def
proof
  fix s
  show "fst (otherwise p k s) = Diverge \<or> otherwise p k s = otherwise q l s"
    using assms(2) by (rule_tac s = s in fst_Diverge_cases [OF assms(1)])
      (auto simp: otherwise_def prog_le_def split: prod.splits outcome.splits)
qed

lemma prog_le_with_suffix [prog_le_intros]:
  assumes "prog_le p q" shows "prog_le (with_suffix m p) (with_suffix m q)"
  unfolding prog_le_def
proof
  fix s
  show "fst (with_suffix m p s) = Diverge \<or> with_suffix m p s = with_suffix m q s"
    by (rule_tac s = s in fst_Diverge_cases [OF assms])
      (auto simp: with_suffix_def split: prod.splits outcome.splits)
qed

lemma prog_le_map_try [prog_le_intros]:
  "(\<And>x. prog_le (f x) (g x)) \<Longrightarrow> prog_le (map_try f xs) (map_try g xs)"
  by (induction xs) (auto intro!: prog_le_intros)

lemma prog_le_fold_try [prog_le_intros]:
  "(\<And>x y. prog_le (f x y) (g x y)) \<Longrightarrow> prog_le (fold_try f xs st) (fold_try g xs st)"
  by (induction xs arbitrary: st) (auto intro!: prog_le_intros)

lemma prog_le_repeat_try [prog_le_intros]:
  "(\<And>x. prog_le (f x) (g x)) \<Longrightarrow> prog_le (repeat_try n f st) (repeat_try n g st)"
  by (induction n arbitrary: st) (auto intro!: prog_le_intros)

section \<open>Handlers are monotone in their context\<close>

definition context_le :: "('v, 's) executor \<Rightarrow> ('v, 's) executor \<Rightarrow> bool" where
  "context_le c d \<longleftrightarrow>
     (\<forall>v. prog_le (create_value c v) (create_value d v)) \<and>
     (\<forall>f a. prog_le (create_call c f a) (create_call d f a)) \<and>
     create_struct c = create_struct d \<and> materialize c = materialize d"

lemma context_le_ops [prog_le_intros]:
  assumes "context_le c d"
  shows "prog_le (create_value c p) (create_value d p)"
    and "prog_le (create_call c f a) (create_call d f a)"
    and "prog_le (create_struct c ms) (create_struct d ms)"
    and "prog_le (materialize c r w) (materialize d r w)"
  using assms by (auto simp: context_le_def)

lemma Materialize_pb_le [prog_le_intros]:
  "context_le c d \<Longrightarrow> prog_le (Materialize_pb c v) (Materialize_pb d v)"
  unfolding Materialize_pb_def by (auto intro!: prog_le_intros)

lemma Fallback_loop_le [prog_le_intros]:
  "context_le c d \<Longrightarrow> prog_le (Fallback_loop arg c fns e) (Fallback_loop arg d fns e)"
  by (induction fns arbitrary: e) (auto simp: attempt_candidate_def intro!: prog_le_intros)

lemma BreakableChain_loop_le [prog_le_intros]:
  "context_le c d \<Longrightarrow> prog_le (BreakableChain_loop c fns st) (BreakableChain_loop d fns st)"
  by (induction fns arbitrary: st) (auto intro!: prog_le_intros)

lemma conditional_chain_pass_le [prog_le_intros]:
  "context_le c d \<Longrightarrow> prog_le (conditional_chain_pass c fns st) (conditional_chain_pass d fns st)"
  by (induction fns arbitrary: st) (auto intro!: prog_le_intros)

lemma conditional_chain_loop_le [prog_le_intros]:
  "context_le c d \<Longrightarrow> prog_le (conditional_chain_loop n c fns st) (conditional_chain_loop n d fns st)"
  by (induction n arbitrary: st) (auto intro!: prog_le_intros)

lemma While_loop_le [prog_le_intros]:
  "context_le c d \<Longrightarrow> prog_le (While_loop n c cf bf st) (While_loop (Suc n) d cf bf st)"
proof (induction n arbitrary: st)
  case (Suc n)
  then show ?case
    by (subst (1 2) While_loop.simps) (auto intro!: prog_le_intros)
qed simp

lemma control_flow_ExecuteCall_le [prog_le_intros]:
  assumes "context_le c d"
  shows "prog_le (control_flow_ExecuteCall n h i arg c) (control_flow_ExecuteCall (Suc n) h i arg d)"
proof (cases h)
  case Conditional
  then show ?thesis using assms
    by (auto simp: Conditional_ExecuteCall_def intro!: prog_le_intros split: option.split)
next
  case (Delegate m)
  then show ?thesis using assms
    by (auto simp: Delegate_ExecuteCall_def intro!: prog_le_intros split: option.split)
qed (use assms in \<open>auto simp: Fallback_ExecuteCall_def SerialChain_ExecuteCall_def chain_step_def
       BreakableChain_ExecuteCall_def Repeat_ExecuteCall_def RepeatedConditionalChain_ExecuteCall_def
       While_ExecuteCall_def ParallelMap_ExecuteCall_def map_element_def
       intro!: prog_le_intros\<close>)

section \<open>The evaluator is monotone in its fuel\<close>

lemma Evaluate_F_le:
  assumes "\<And>v sc. prog_le (ev v sc) (ev' v sc)" and "\<And>f a. prog_le (cl f a) (cl' f a)"
  shows "prog_le (Evaluate_F hs child ev cl v sc) (Evaluate_F hs child ev' cl' v sc)"
  using assms
  by (cases "value_case v")
     (auto simp: Evaluate_F_def EvaluateBlock_def evaluate_local_def EvaluateCall_def
       EvaluateStruct_def EvaluateSelection_def intro!: prog_le_intros split: option.split)

lemma context_le_impl:
  assumes "\<And>v sc. prog_le (ev v sc) (ev' v sc)" and "\<And>f a. prog_le (cl f a) (cl' f a)"
  shows "context_le (ControlFlowIntrinsicCallContextImpl child ev cl sc)
    (ControlFlowIntrinsicCallContextImpl child ev' cl' sc)"
  using assms
  by (auto simp: context_le_def ControlFlowIntrinsicCallContextImpl_def context_CreateValue_def
      ConstCreateExecutorValue_def split: value_oneof.split)

lemma ConstCreateCall_F_le:
  assumes "\<And>v sc. prog_le (ev v sc) (ev' v sc)" and "\<And>f a. prog_le (cl f a) (cl' f a)"
  shows "prog_le (ConstCreateCall_F n child ev cl f a) (ConstCreateCall_F (Suc n) child ev' cl' f a)"
  using assms context_le_impl [OF assms]
  by (cases f) (auto simp: ConstCreateCall_F_def ScopedLambda_Call_def ScopedIntrinsic_Call_def
      intro!: prog_le_intros split: option.split)

lemma interp_Suc_le:
  "prog_le (Evaluate n hs child v sc) (Evaluate (Suc n) hs child v sc) \<and>
   prog_le (ConstCreateCall n hs child f a) (ConstCreateCall (Suc n) hs child f a)"
proof (induction n arbitrary: v sc f a)
  case (Suc n)
  have ev: "prog_le (Evaluate n hs child v sc) (Evaluate (Suc n) hs child v sc)" for v sc
    using Suc.IH by blast
  have cl: "prog_le (ConstCreateCall n hs child f a) (ConstCreateCall (Suc n) hs child f a)" for f a
    using Suc.IH by blast
  have "prog_le (Evaluate_F hs child (Evaluate n hs child) (ConstCreateCall n hs child) v sc)
      (Evaluate_F hs child (Evaluate (Suc n) hs child) (ConstCreateCall (Suc n) hs child) v sc)"
    by (rule Evaluate_F_le [OF ev cl])
  moreover have "prog_le (ConstCreateCall_F n child (Evaluate n hs child) (ConstCreateCall n hs child) f a)
      (ConstCreateCall_F (Suc n) child (Evaluate (Suc n) hs child) (ConstCreateCall (Suc n) hs child) f a)"
    by (rule ConstCreateCall_F_le [OF ev cl])
  ultimately show ?case
    by (simp only: Evaluate_Suc [symmetric] ConstCreateCall_Suc [symmetric])
qed simp

lemma Evaluate_le: "n \<le> m \<Longrightarrow> prog_le (Evaluate n hs child v sc) (Evaluate m hs child v sc)"
  by (induction rule: dec_induct) (auto intro: prog_le_trans interp_Suc_le [THEN conjunct1])

lemma ConstCreateCall_le:
  "n \<le> m \<Longrightarrow> prog_le (ConstCreateCall n hs child f a) (ConstCreateCall m hs child f a)"
  by (induction rule: dec_induct) (auto intro: prog_le_trans interp_Suc_le [THEN conjunct2])

section \<open>The big-step relation\<close>

definition evaluates ::
  "'w IntrinsicHandlerSet \<Rightarrow> ('h, 's) executor \<Rightarrow> pvalue \<Rightarrow> ('h, 'w) scope \<Rightarrow> 's
     \<Rightarrow> ('h, 'w) exec_value outcome \<times> 's \<Rightarrow> bool" where
  "evaluates hs child v sc s r \<longleftrightarrow> (\<exists>n. Evaluate n hs child v sc s = r \<and> fst r \<noteq> Diverge)"

lemma Evaluate_more_fuel:
  "fst (Evaluate n hs child v sc s) \<noteq> Diverge \<Longrightarrow> n \<le> m \<Longrightarrow>
   Evaluate m hs child v sc s = Evaluate n hs child v sc s"
  by (rule prog_leD [OF Evaluate_le])

lemma evaluates_eventually:
  assumes "evaluates hs child v sc s r"
  obtains N where "\<And>n. N \<le> n \<Longrightarrow> Evaluate n hs child v sc s = r"
  using assms Evaluate_more_fuel unfolding evaluates_def by metis

lemma evaluates_intro_Ok: "Evaluate n hs child v sc s = (Ok w, s') \<Longrightarrow> evaluates hs child v sc s (Ok w, s')"
  unfolding evaluates_def by (metis fst_conv outcome.distinct(5))

lemma evaluates_deterministic:
  assumes "evaluates hs child v sc s r" and "evaluates hs child v sc s r'"
  shows "r = r'"
  using assms by (metis evaluates_eventually nle_le)


text \<open>A child executor for evaluation: its handles are the values themselves.\<close>

definition literal_child :: "(pvalue, nat) executor" where
  "literal_child = \<lparr>
     create_value = (\<lambda>v s. (Ok v, Suc s)),
     create_call = (\<lambda>f a. lift (UnimplementedError [])),
     create_struct = (\<lambda>vs s. (Ok (plain (KStruct vs)), Suc s)),
     create_selection = (\<lambda>v i. lift (UnimplementedError [])),
     materialize = (\<lambda>v want. return (Some v)),
     dispose = (\<lambda>v s. (Ok (), s))\<rparr>"


end
