(* ===== verification/Control_Flow_Laws.thy ===== *)
theory Control_Flow_Laws
  imports Fuel
begin

text \<open>
  What the control flow intrinsics do, for any context: which functions run, in which
  order, what is returned, and when a loop ends. The reference semantics are inductive
  relations over the steps that succeeded or failed.
\<close>

section \<open>Fallback\<close>

text \<open>
  The candidates all fail, one after the other from the state the previous one left; the
  last component is the error of the last one.
\<close>

inductive all_fail ::
  "'v option \<Rightarrow> ('v, 's) executor \<Rightarrow> 's \<Rightarrow> pvalue list \<Rightarrow> status \<Rightarrow> 's \<Rightarrow> status \<Rightarrow> bool"
  for arg ctx where
  none: "all_fail arg ctx s [] e s e"
| one: "attempt_candidate arg ctx fn s = (Err e1, s1) \<Longrightarrow> all_fail arg ctx s1 fns e1 s2 e2 \<Longrightarrow>
    all_fail arg ctx s (fn # fns) e0 s2 e2"

inductive_simps all_fail_Nil [simp]: "all_fail arg ctx s [] e s' e'"

lemma Fallback_loop_skip:
  "all_fail arg ctx s pre e s1 e1 \<Longrightarrow>
   Fallback_loop arg ctx (pre @ fns) e s = Fallback_loop arg ctx fns e1 s1"
  by (induction rule: all_fail.induct) (simp_all add: otherwise_def)


definition strings_only :: "(pvalue, nat) executor" where
  "strings_only = \<lparr>
     create_value = (\<lambda>v s. (Ok v, Suc s)),
     create_call = (\<lambda>f a s. if has_str f then (Ok f, Suc s) else (Err (Status kInternal []), Suc s)),
     create_struct = (\<lambda>vs s. (Ok (plain (KStruct vs)), s)),
     create_selection = (\<lambda>v i. lift (UnimplementedError [])),
     materialize = (\<lambda>v want. return (Some v)),
     dispose = (\<lambda>v s. (Ok (), s))\<rparr>"


section \<open>Conditional\<close>

text \<open>
  A conditional creates the alternative its condition selects and nothing of the
  other one: the outcome and the state do not depend on the other alternative.
\<close>

lemma Conditional_lazy:
  assumes "materialize ctx a True s = (Ok (Some c), s')" and "value_case c = KBoolean b"
    and "params i = [then_pb, else_pb]"
  shows "Conditional_ExecuteCall i (Some a) ctx s = create_value ctx (if b then then_pb else else_pb) s'"
proof -
  have "has_boolean c" "boolean c = b"
    using assms(2) boolean_case [OF assms(2)] by (auto simp: has_boolean_iff)
  then show ?thesis
    using assms(1,3)
    by (simp add: Conditional_ExecuteCall_def Materialize_pb_def run_simps)
qed

lemma Conditional_lazy_witness:
  "Conditional_ExecuteCall (IntrinsicPb kConditional (Some (plain (KStruct
      [plain (KStr ''yes''), plain (KStr ''no'')])))) (Some (plain (KBoolean False))) strings_only 0
   = (Ok (plain (KStr ''no'')), 1)"
  by (subst Conditional_lazy [where c = "plain (KBoolean False)" and s' = 0 and b = False
        and then_pb = "plain (KStr ''yes'')" and else_pb = "plain (KStr ''no'')"])
     (simp_all add: strings_only_def return_def static_parameter_def or_default_def)

section \<open>Chains\<close>

text \<open>
  Running a serial chain of two lists of functions is running the first list and
  then the second on its result, errors of the first included.
\<close>

lemma SerialChain_append:
  assumes "params i = fs @ gs" and "params i1 = fs" and "params i2 = gs"
  shows "SerialChain_ExecuteCall i (Some a) ctx =
    GENC_TRY (SerialChain_ExecuteCall i1 (Some a) ctx)
      (\<lambda>st. SerialChain_ExecuteCall i2 (Some st) ctx)"
  using assms
  by (simp add: SerialChain_ExecuteCall_def arg_value_def lift_Ok fold_try_append)

lemma SerialChain_append_witness:
  "SerialChain_ExecuteCall (IntrinsicPb kSerialChain (Some (plain (KStruct
      [plain (KStr ''f''), plain (KStr ''g'')])))) (Some (plain (KStr ''x''))) strings_only 0
   = (Ok (plain (KStr ''g'')), 4)"
  by (subst SerialChain_append [where fs = "[plain (KStr ''f'')]" and gs = "[plain (KStr ''g'')]"
        and ?i1.0 = "IntrinsicPb kSerialChain (Some (plain (KStruct [plain (KStr ''f'')])))"
        and ?i2.0 = "IntrinsicPb kSerialChain (Some (plain (KStruct [plain (KStr ''g'')])))"])
     (simp_all add: SerialChain_ExecuteCall_def arg_value_def chain_step_def static_parameter_def
        or_default_def strings_only_def run_simps)

text \<open>
  A prefix of a breakable chain runs through: no function answers true, and the state
  follows the answers that are not Booleans.
\<close>

definition breakable_answer :: "('v, 's) executor \<Rightarrow> pvalue \<Rightarrow> 'v \<Rightarrow> ('s, 'v \<times> pvalue) prog" where
  "breakable_answer ctx fn st =
     GENC_TRY (create_value ctx fn) (\<lambda>fn_ref.
     GENC_TRY (create_call ctx fn_ref (Some st)) (\<lambda>nxt.
     GENC_TRY (Materialize_pb ctx nxt) (\<lambda>pb. return (nxt, pb))))"

inductive runs_through ::
  "('v, 's) executor \<Rightarrow> pvalue list \<Rightarrow> 'v \<Rightarrow> 's \<Rightarrow> 'v \<Rightarrow> 's \<Rightarrow> bool" for ctx where
  stop: "runs_through ctx [] st s st s"
| state: "breakable_answer ctx fn st s = (Ok (nxt, pb), s1) \<Longrightarrow> \<not> has_boolean pb \<Longrightarrow>
    runs_through ctx fns nxt s1 st2 s2 \<Longrightarrow> runs_through ctx (fn # fns) st s st2 s2"
| false: "breakable_answer ctx fn st s = (Ok (nxt, pb), s1) \<Longrightarrow> has_boolean pb \<Longrightarrow> \<not> boolean pb \<Longrightarrow>
    runs_through ctx fns st s1 st2 s2 \<Longrightarrow> runs_through ctx (fn # fns) st s st2 s2"

lemma BreakableChain_loop_answer:
  "BreakableChain_loop ctx (fn # fns) st =
     GENC_TRY (breakable_answer ctx fn st) (\<lambda>(nxt, pb).
       if \<not> has_boolean pb then BreakableChain_loop ctx fns nxt
       else if boolean pb then return st else BreakableChain_loop ctx fns st)"
  by (simp add: breakable_answer_def GENC_TRY_assoc)

lemma BreakableChain_loop_through:
  "runs_through ctx pre st s st1 s1 \<Longrightarrow>
   BreakableChain_loop ctx (pre @ fns) st s = BreakableChain_loop ctx fns st1 s1"
  by (induction rule: runs_through.induct)
     (simp_all add: BreakableChain_loop_answer GENC_TRY_apply del: BreakableChain_loop.simps(2))

text \<open>
  A breakable chain stops at the first function that answers true and returns the
  state it had before that function, whatever functions follow; without such a function
  it returns the state after the last one.
\<close>

lemma BreakableChain_breaks:
  assumes "params i = pre @ rest" and "runs_through ctx pre a s st1 s1"
  shows "(\<forall>fn post nxt pb s2. rest = fn # post \<longrightarrow>
            breakable_answer ctx fn st1 s1 = (Ok (nxt, pb), s2) \<longrightarrow> value_case pb = KBoolean True \<longrightarrow>
            BreakableChain_ExecuteCall i (Some a) ctx s = (Ok st1, s2)) \<and>
         (rest = [] \<longrightarrow> BreakableChain_ExecuteCall i (Some a) ctx s = (Ok st1, s1))"
proof -
  have "BreakableChain_ExecuteCall i (Some a) ctx s = BreakableChain_loop ctx rest st1 s1"
    using assms by (simp add: BreakableChain_ExecuteCall_def arg_value_def lift_Ok BreakableChain_loop_through)
  then show ?thesis
    by (auto simp: BreakableChain_loop_answer GENC_TRY_apply return_apply has_boolean_iff boolean_case
        simp del: BreakableChain_loop.simps(2))
qed

text \<open>A context that applies a function by returning it.\<close>

definition constant_functions :: "(pvalue, nat) executor" where
  "constant_functions = strings_only\<lparr>create_call := \<lambda>f a s. (Ok f, Suc s)\<rparr>"

lemma BreakableChain_breaks_witness:
  "BreakableChain_ExecuteCall (IntrinsicPb kBreakableChain (Some (plain (KStruct
      [plain (KStr ''f''), plain (KBoolean True), plain (KStr ''g'')]))))
      (Some (plain (KStr ''x''))) constant_functions 0
   = (Ok (plain (KStr ''f'')), 4)"
proof -
  let ?i = "IntrinsicPb kBreakableChain (Some (plain (KStruct
      [plain (KStr ''f''), plain (KBoolean True), plain (KStr ''g'')])))"
  have p: "params ?i = [plain (KStr ''f'')] @ [plain (KBoolean True), plain (KStr ''g'')]"
    by (simp add: static_parameter_def or_default_def)
  have ans: "breakable_answer constant_functions fn st s = (Ok (fn, fn), Suc (Suc s))" for fn st s
    by (simp add: breakable_answer_def Materialize_pb_def constant_functions_def strings_only_def run_simps)
  have "runs_through constant_functions [plain (KStr ''f'')] (plain (KStr ''x'')) 0 (plain (KStr ''f'')) 2"
    by (rule runs_through.state, rule ans) (simp_all add: runs_through.stop numeral_2_eq_2)
  from BreakableChain_breaks [OF p this] show ?thesis
    by (simp add: ans)
qed

section \<open>Repeat\<close>

lemma repeat_try_add_fun:
  "repeat_try (m + n) f = (\<lambda>x. GENC_TRY (repeat_try m f x) (repeat_try n f))"
  by (induction m) (rule ext, simp add: GENC_TRY_assoc)+

lemma repeat_try_add:
  "repeat_try (m + n) f x = GENC_TRY (repeat_try m f x) (repeat_try n f)"
  by (simp add: repeat_try_add_fun)

definition call_with :: "('v, 's) executor \<Rightarrow> 'v \<Rightarrow> 'v \<Rightarrow> ('s, 'v) prog" where
  "call_with ctx f st = create_call ctx f (Some st)"

text \<open>
  \<open>Repeat\<close> reads its count as a signed 32-bit number: a count that is not positive
  creates the body and returns the argument without a call; a count that is a sum of two
  runs the body the first number of times and then the second.
\<close>

lemma Repeat_count:
  assumes "params i = [count, body]"
  shows "(sint (int_32 count) \<le> 0 \<longrightarrow>
            Repeat_ExecuteCall i (Some a) ctx = GENC_TRY (create_value ctx body) (\<lambda>f. return a)) \<and>
         (\<forall>m n. sint (int_32 count) = int m + int n \<longrightarrow>
            Repeat_ExecuteCall i (Some a) ctx = GENC_TRY (create_value ctx body) (\<lambda>f.
              GENC_TRY (repeat_try m (call_with ctx f) a) (repeat_try n (call_with ctx f))))"
proof -
  have eta: "(\<lambda>st. create_call ctx f (Some st)) = call_with ctx f" for f
    by (simp add: call_with_def fun_eq_iff)
  have "nat (int m + int n) = m + n" for m n by simp
  then show ?thesis
    using assms by (auto simp: Repeat_ExecuteCall_def arg_value_def eta repeat_try_add)
qed

lemma Repeat_count_witness:
  "Repeat_ExecuteCall (IntrinsicPb kRepeat (Some (plain (KStruct [plain (KInt32 (- 3)), plain (KStr ''f'')]))))
     (Some (plain (KStr ''x''))) constant_functions 0 = (Ok (plain (KStr ''x'')), 1)"
proof -
  let ?i = "IntrinsicPb kRepeat (Some (plain (KStruct [plain (KInt32 (- 3)), plain (KStr ''f'')])))"
  have "params ?i = [plain (KInt32 (- 3)), plain (KStr ''f'')]"
    by (simp add: static_parameter_def or_default_def)
  from Repeat_count [OF this, of "plain (KStr ''x'')" constant_functions]
  have "Repeat_ExecuteCall ?i (Some (plain (KStr ''x''))) constant_functions =
      GENC_TRY (create_value constant_functions (plain (KStr ''f''))) (\<lambda>f. return (plain (KStr ''x'')))"
    by simp
  then show ?thesis
    by (simp add: constant_functions_def strings_only_def run_simps)
qed

section \<open>While\<close>

definition condition :: "('v, 's) executor \<Rightarrow> 'v \<Rightarrow> 'v \<Rightarrow> ('s, pvalue) prog" where
  "condition ctx cf st = GENC_TRY (create_call ctx cf (Some st)) (Materialize_pb ctx)"

lemma While_loop_condition:
  "While_loop (Suc n) ctx cf bf st =
     GENC_TRY (condition ctx cf st) (\<lambda>cond_pb.
       if \<not> has_boolean cond_pb
       then lift (InvalidArgumentError [Txt ''Condition does not have boolean: '', DebugString cond_pb])
       else if \<not> boolean cond_pb then return st
       else GENC_TRY (create_call ctx bf (Some st)) (While_loop n ctx cf bf))"
  by (simp add: condition_def GENC_TRY_assoc)

inductive while_runs ::
  "('v, 's) executor \<Rightarrow> 'v \<Rightarrow> 'v \<Rightarrow> 'v \<Rightarrow> 's \<Rightarrow> 'v \<Rightarrow> 's \<Rightarrow> bool" for ctx cf bf where
  leave: "condition ctx cf st s = (Ok pb, s1) \<Longrightarrow> value_case pb = KBoolean False \<Longrightarrow>
    while_runs ctx cf bf st s st s1"
| turn: "condition ctx cf st s = (Ok pb, s1) \<Longrightarrow> value_case pb = KBoolean True \<Longrightarrow>
    create_call ctx bf (Some st) s1 = (Ok st1, s2) \<Longrightarrow> while_runs ctx cf bf st1 s2 st' s' \<Longrightarrow>
    while_runs ctx cf bf st s st' s'"

lemma boolean_pb: "value_case pb = KBoolean b \<Longrightarrow> has_boolean pb \<and> boolean pb = b"
  by (auto simp: has_boolean_iff boolean_case)

lemma boolean_pb_iff:
  "value_case pb = KBoolean True \<Longrightarrow> has_boolean pb \<and> boolean pb"
  "value_case pb = KBoolean False \<Longrightarrow> has_boolean pb \<and> \<not> boolean pb"
  using boolean_pb [of pb True] boolean_pb [of pb False] by simp_all

lemma while_runs_loop: "while_runs ctx cf bf st s st' s' \<Longrightarrow>
   \<exists>n. While_loop n ctx cf bf st s = (Ok st', s')"
proof (induction rule: while_runs.induct)
  case (leave st s pb s1)
  then have "While_loop (Suc 0) ctx cf bf st s = (Ok st, s1)"
    by (simp add: While_loop_condition GENC_TRY_apply boolean_pb_iff return_apply del: While_loop.simps(2))
  then show ?case by blast
next
  case (turn st s pb s1 st1 s2 st' s')
  then obtain n where "While_loop n ctx cf bf st1 s2 = (Ok st', s')" by blast
  with turn have "While_loop (Suc n) ctx cf bf st s = (Ok st', s')"
    by (simp add: While_loop_condition GENC_TRY_apply boolean_pb_iff return_apply del: While_loop.simps(2))
  then show ?case by blast
qed

lemma while_loop_runs:
  "While_loop n ctx cf bf st s = (Ok st', s') \<Longrightarrow> while_runs ctx cf bf st s st' s'"
proof (induction n arbitrary: st s)
  case (Suc n)
  obtain pb s1 where pb: "condition ctx cf st s = (Ok pb, s1)"
    and rest: "(if \<not> has_boolean pb
       then lift (InvalidArgumentError [Txt ''Condition does not have boolean: '', DebugString pb])
       else if \<not> boolean pb then return st
       else GENC_TRY (create_call ctx bf (Some st)) (While_loop n ctx cf bf)) s1 = (Ok st', s')"
    using Suc.prems unfolding While_loop_condition GENC_TRY_eq_Ok by blast
  then have "has_boolean pb" by (auto simp: lift_apply split: if_splits)
  then obtain b where b: "value_case pb = KBoolean b" by (auto simp: has_boolean_iff)
  show ?case
  proof (cases b)
    case False
    then show ?thesis using pb b rest boolean_pb [OF b]
      by (auto simp: return_apply intro: while_runs.leave)
  next
    case True
    then obtain st1 s2 where "create_call ctx bf (Some st) s1 = (Ok st1, s2)"
      and "While_loop n ctx cf bf st1 s2 = (Ok st', s')"
      using rest boolean_pb [OF b] by (auto simp: GENC_TRY_eq_Ok)
    then show ?thesis using pb b True Suc.IH by (auto intro: while_runs.turn)
  qed
qed (simp add: lift_apply)

lemma While_ExecuteCall_loop:
  assumes "params i = [c, b]" and "create_value ctx c s = (Ok cf, s1)"
    and "create_value ctx b s1 = (Ok bf, s2)"
  shows "While_ExecuteCall n i (Some a) ctx s = While_loop n ctx cf bf a s2"
  using assms by (simp add: While_ExecuteCall_def arg_value_def lift_Ok GENC_TRY_apply)

text \<open>
  C12: a while intrinsic returns a value, with some amount of fuel, exactly when the
  condition and the body can be run in turns until the condition is false; it then
  returns the state the last turn left.
\<close>

theorem While_returns_iff:
  assumes "params i = [c, b]" and "create_value ctx c s = (Ok cf, s1)"
    and "create_value ctx b s1 = (Ok bf, s2)"
  shows "(\<exists>n. While_ExecuteCall n i (Some a) ctx s = (Ok st', s')) \<longleftrightarrow>
    while_runs ctx cf bf a s2 st' s'"
  unfolding While_ExecuteCall_loop [OF assms] by (metis while_runs_loop while_loop_runs)

text \<open>A context with one counter: \<open>down\<close> subtracts one, \<open>pos\<close> asks whether it is positive.\<close>

definition counting :: "(pvalue, unit) executor" where
  "counting = \<lparr>
     create_value = return,
     create_call = (\<lambda>f a. case a of None \<Rightarrow> lift (Crash BadOptionalAccess) | Some x \<Rightarrow>
        return (if str f = ''down'' then plain (KInt32 (int_32 x - 1))
                else plain (KBoolean (0 < sint (int_32 x))))),
     create_struct = (\<lambda>vs. return (plain (KStruct vs))),
     create_selection = (\<lambda>v i. lift (UnimplementedError [])),
     materialize = (\<lambda>v want. return (Some v)),
     dispose = (\<lambda>v. return ())\<rparr>"

lemma While_returns_iff_witness:
  "while_runs counting (plain (KStr ''pos'')) (plain (KStr ''down'')) (plain (KInt32 2)) ()
     (plain (KInt32 0)) ()"
proof -
  let ?i = "IntrinsicPb kWhile (Some (plain (KStruct [plain (KStr ''pos''), plain (KStr ''down'')])))"
  have p: "params ?i = [plain (KStr ''pos''), plain (KStr ''down'')]"
    by (simp add: static_parameter_def or_default_def)
  have "While_ExecuteCall 3 ?i (Some (plain (KInt32 2))) counting () = (Ok (plain (KInt32 0)), ())"
    by (simp add: While_ExecuteCall_def p arg_value_def lift_Ok eval_nat_numeral Materialize_pb_def
        counting_def run_simps)
  then show ?thesis
    using While_returns_iff [OF p, of counting "()" "plain (KStr ''pos'')" "()" "plain (KStr ''down'')" "()"]
    by (auto simp: counting_def return_apply)
qed

text \<open>
  A while intrinsic whose condition keeps answering true and whose body keeps
  succeeding never returns: no amount of fuel gives an outcome.
\<close>

lemma While_never_returns:
  assumes "params i = [c, b]" and "create_value ctx c s = (Ok cf, s1)"
    and "create_value ctx b s1 = (Ok bf, s2)"
    and "I a s2"
    and "\<And>st s. I st s \<Longrightarrow> \<exists>pb s1 st1 s2. condition ctx cf st s = (Ok pb, s1) \<and>
      value_case pb = KBoolean True \<and> create_call ctx bf (Some st) s1 = (Ok st1, s2) \<and> I st1 s2"
  shows "fst (While_ExecuteCall n i (Some a) ctx s) = Diverge"
proof -
  have "fst (While_loop n ctx cf bf st t) = Diverge" if "I st t" for st t
    using that
  proof (induction n arbitrary: st t)
    case (Suc n)
    from assms(5) [OF Suc.prems] obtain pb t1 st1 t2 where
      "condition ctx cf st t = (Ok pb, t1)" "value_case pb = KBoolean True"
      "create_call ctx bf (Some st) t1 = (Ok st1, t2)" "I st1 t2" by blast
    then show ?case using Suc.IH
      by (simp add: While_loop_condition GENC_TRY_apply boolean_pb_iff del: While_loop.simps(2))
  qed (simp add: lift_apply)
  then show ?thesis unfolding While_ExecuteCall_loop [OF assms(1-3)] using assms(4) .
qed

lemma While_never_returns_witness:
  "fst (While_ExecuteCall 1000 (IntrinsicPb kWhile (Some (plain (KStruct
      [plain (KBoolean True), plain (KStr ''f'')])))) (Some (plain (KStr ''x''))) constant_functions 0)
   = Diverge"
proof (rule While_never_returns [where I = "\<lambda>a s. True" and c = "plain (KBoolean True)"
      and b = "plain (KStr ''f'')" and cf = "plain (KBoolean True)" and bf = "plain (KStr ''f'')"
      and ?s1.0 = 1 and ?s2.0 = 2])
  show "\<exists>pb s1 st1 s2. condition constant_functions (plain (KBoolean True)) st s = (Ok pb, s1) \<and>
      value_case pb = KBoolean True \<and>
      create_call constant_functions (plain (KStr ''f'')) (Some st) s1 = (Ok st1, s2) \<and> True" for st s
    by (simp add: condition_def Materialize_pb_def constant_functions_def strings_only_def run_simps)
qed (simp_all add: static_parameter_def or_default_def constant_functions_def strings_only_def)

section \<open>Delegation\<close>

text \<open>
  Delegating with an argument never reaches the runner of the environment: the
  argument is swapped into an optional that holds no value.
\<close>

lemma Delegate_argument_lost:
  assumes "params i = env_pb # func_pb # ps" and "m (str env_pb) = Some runner_fn"
    and "materialize ctx a True s = (Ok (Some arg_pb), s')"
  shows "Delegate_ExecuteCall m i (Some a) ctx s = (Crash BadOptionalAccess, s')"
  using assms by (simp add: Delegate_ExecuteCall_def Materialize_pb_def run_simps)

lemma Delegate_argument_lost_witness:
  "fst (Delegate_ExecuteCall [''env'' \<mapsto> (\<lambda>f a. Ok f)] (IntrinsicPb kDelegate (Some (plain (KStruct
      [plain (KStr ''env''), plain (KStr ''f'')])))) (Some (plain (KStr ''x''))) strings_only 0)
   = Crash BadOptionalAccess"
  by (subst Delegate_argument_lost [where env_pb = "plain (KStr ''env'')" and ps = "[]"
        and func_pb = "plain (KStr ''f'')" and runner_fn = "\<lambda>f a. Ok f" and s' = 0
        and arg_pb = "plain (KStr ''x'')"])
     (simp_all add: strings_only_def return_def static_parameter_def or_default_def)

end
