(* ===== verification/Evaluator_Laws.thy ===== *)
theory Evaluator_Laws
  imports Fuel
begin

text \<open>
  Laws of the evaluator: blocks are calls of lambdas, references see the innermost
  binding, selection from a structure, evaluations that end and one that does not.
\<close>

section \<open>Scopes\<close>

text \<open>The bindings of a scope, the innermost first.\<close>

fun bindings :: "('h, 'w) scope \<Rightarrow> (string \<times> ('h, 'w) exec_value) list" where
  "bindings Root = []"
| "bindings (Scope x v parent) = (x, v) # bindings parent"

lemma Resolve_bindings:
  "Resolve sc nm = (case map_of (bindings sc) nm of
      None \<Rightarrow> NotFoundError [Txt ''Could not find reference ['', Txt nm, Txt '']'']
    | Some v \<Rightarrow> Ok v)"
  by (induction sc rule: bindings.induct) simp_all

text \<open>
  C19: a reference evaluates to the value of the innermost binding of its name without
  touching the child executor, and to a not-found error that shows the scope when there
  is no such binding.
\<close>

theorem EvaluateReference_innermost:
  "Evaluate (Suc n) hs child (plain (KReference nm)) sc s =
     (case map_of (bindings sc) nm of
        Some v \<Rightarrow> (Ok v, s)
      | None \<Rightarrow> (NotFoundError [Txt ''Could not find reference ['', Txt nm, Txt '']'', Txt '' '',
                  Txt ''while searching scope: '', Txt (scope_DebugString sc)], s))"
  by (simp add: Evaluate_Suc Evaluate_F_def EvaluateReference_def Resolve_bindings with_suffix_def
      lift_apply get_status_def split: option.split)

section \<open>Blocks and lambda calls\<close>

lemma with_suffix_eq_Ok: "with_suffix m p s = (Ok v, s') \<longleftrightarrow> p s = (Ok v, s')"
  by (auto simp: with_suffix_def split: prod.splits outcome.splits)

lemma evaluate_local_eq_Ok:
  "evaluate_local ev ls l sc s = (Ok sc', s') \<longleftrightarrow>
     (\<exists>v. ev (local_value l) sc s = (Ok v, s') \<and> sc' = Scope (local_name l) v sc)"
  by (auto simp: evaluate_local_def GENC_TRY_eq_Ok with_suffix_eq_Ok return_apply)

text \<open>The names of all locals matter for error messages only.\<close>

lemma fold_locals_names:
  "fold_try (evaluate_local ev ls) xs sc s = (Ok sc', s') \<longleftrightarrow>
   fold_try (evaluate_local ev ls') xs sc s = (Ok sc', s')"
  by (induction xs arbitrary: sc s) (auto simp: GENC_TRY_eq_Ok evaluate_local_eq_Ok return_apply)

lemma EvaluateBlock_Cons_Ok:
  "EvaluateBlock ev (l # ls) r sc s = (Ok w, s') \<longleftrightarrow>
     (\<exists>v s1. ev (local_value l) sc s = (Ok v, s1) \<and>
        EvaluateBlock ev ls r (Scope (local_name l) v sc) s1 = (Ok w, s'))"
  unfolding EvaluateBlock_def fold_try.simps GENC_TRY_eq_Ok evaluate_local_eq_Ok
  using fold_locals_names by metis

lemma evaluates_Suc:
  "evaluates hs child v sc s (Ok w, s') \<longleftrightarrow> (\<exists>n. Evaluate (Suc n) hs child v sc s = (Ok w, s'))"
proof
  assume "evaluates hs child v sc s (Ok w, s')"
  then show "\<exists>n. Evaluate (Suc n) hs child v sc s = (Ok w, s')"
    by (metis evaluates_eventually le_SucI order_refl)
qed (auto intro: evaluates_intro_Ok)

lemma evaluates_common:
  assumes "evaluates hs child v sc s (Ok w, s1)" and "evaluates hs child v' sc' s1 (Ok w', s2)"
  obtains n where "Evaluate n hs child v sc s = (Ok w, s1)" and "Evaluate n hs child v' sc' s1 = (Ok w', s2)"
  using assms by (metis evaluates_eventually nle_le)

lemma evaluates_block:
  "evaluates hs child (plain (KBlock (l # ls) r)) sc s (Ok w, s') \<longleftrightarrow>
     (\<exists>v s1. evaluates hs child (local_value l) sc s (Ok v, s1) \<and>
        evaluates hs child (plain (KBlock ls r)) (Scope (local_name l) v sc) s1 (Ok w, s'))"
proof
  assume "evaluates hs child (plain (KBlock (l # ls) r)) sc s (Ok w, s')"
  then obtain n where "EvaluateBlock (Evaluate n hs child) (l # ls) (or_default r) sc s = (Ok w, s')"
    by (auto simp: evaluates_Suc Evaluate_Suc Evaluate_F_def)
  then obtain v s1 where "Evaluate n hs child (local_value l) sc s = (Ok v, s1)"
    and "Evaluate (Suc n) hs child (plain (KBlock ls r)) (Scope (local_name l) v sc) s1 = (Ok w, s')"
    by (auto simp: EvaluateBlock_Cons_Ok Evaluate_Suc Evaluate_F_def)
  then show "\<exists>v s1. evaluates hs child (local_value l) sc s (Ok v, s1) \<and>
        evaluates hs child (plain (KBlock ls r)) (Scope (local_name l) v sc) s1 (Ok w, s')"
    by (blast intro: evaluates_intro_Ok)
next
  assume "\<exists>v s1. evaluates hs child (local_value l) sc s (Ok v, s1) \<and>
        evaluates hs child (plain (KBlock ls r)) (Scope (local_name l) v sc) s1 (Ok w, s')"
  then obtain v s1 n where e: "Evaluate n hs child (local_value l) sc s = (Ok v, s1)"
    and b: "Evaluate n hs child (plain (KBlock ls r)) (Scope (local_name l) v sc) s1 = (Ok w, s')"
    by (meson evaluates_common)
  have "Evaluate (Suc n) hs child (plain (KBlock ls r)) (Scope (local_name l) v sc) s1 = (Ok w, s')"
    using b Evaluate_more_fuel [of n hs child _ _ _ "Suc n"] by simp
  with e have "EvaluateBlock (Evaluate n hs child) (l # ls) (or_default r) sc s = (Ok w, s')"
    by (auto simp: EvaluateBlock_Cons_Ok Evaluate_Suc Evaluate_F_def)
  then show "evaluates hs child (plain (KBlock (l # ls) r)) sc s (Ok w, s')"
    by (auto simp: evaluates_Suc Evaluate_Suc Evaluate_F_def)
qed

lemma lambda_call_Suc:
  "Evaluate (Suc (Suc n)) hs child (plain (KCall (Some (plain (KLambda (LambdaPb x body)))) (Some e))) sc s =
     GENC_TRY (Evaluate (Suc n) hs child e sc) (\<lambda>v. Evaluate n hs child (or_default body) (Scope x v sc)) s"
  by (simp add: Evaluate_Suc Evaluate_F_def EvaluateCall_def EvaluateLambda_def or_default_def
      GENC_TRY_assoc ConstCreateCall_Suc ConstCreateCall_F_def ScopedLambda_Call_def lambda_result_def)

lemma evaluates_lambda_call:
  "evaluates hs child (plain (KCall (Some (plain (KLambda (LambdaPb x body)))) (Some e))) sc s (Ok w, s') \<longleftrightarrow>
     (\<exists>v s1. evaluates hs child e sc s (Ok v, s1) \<and>
        evaluates hs child (or_default body) (Scope x v sc) s1 (Ok w, s'))"
proof
  let ?call = "plain (KCall (Some (plain (KLambda (LambdaPb x body)))) (Some e))"
  assume "evaluates hs child ?call sc s (Ok w, s')"
  then obtain n where "Evaluate (Suc (Suc n)) hs child ?call sc s = (Ok w, s')"
    by (metis evaluates_eventually le_SucI order_refl)
  then show "\<exists>v s1. evaluates hs child e sc s (Ok v, s1) \<and>
        evaluates hs child (or_default body) (Scope x v sc) s1 (Ok w, s')"
    unfolding lambda_call_Suc GENC_TRY_eq_Ok by (blast intro: evaluates_intro_Ok)
next
  let ?call = "plain (KCall (Some (plain (KLambda (LambdaPb x body)))) (Some e))"
  assume "\<exists>v s1. evaluates hs child e sc s (Ok v, s1) \<and>
        evaluates hs child (or_default body) (Scope x v sc) s1 (Ok w, s')"
  then obtain v s1 n where e: "Evaluate n hs child e sc s = (Ok v, s1)"
    and b: "Evaluate n hs child (or_default body) (Scope x v sc) s1 = (Ok w, s')"
    by (meson evaluates_common)
  have "Evaluate (Suc n) hs child e sc s = (Ok v, s1)"
    using e Evaluate_more_fuel [of n hs child _ _ _ "Suc n"] by simp
  with b have "Evaluate (Suc (Suc n)) hs child ?call sc s = (Ok w, s')"
    unfolding lambda_call_Suc GENC_TRY_eq_Ok by blast
  then show "evaluates hs child ?call sc s (Ok w, s')" by (rule evaluates_intro_Ok)
qed

text \<open>
  C20: a block evaluates to a value exactly when the call of a lambda with the first local
  as parameter, the first local's value as argument and the rest of the block as body
  does, with the same value and the same state: locals are lexically scoped, evaluated
  once, in order.
\<close>

theorem block_is_lambda_call:
  "evaluates hs child (plain (KBlock (LocalPb x (Some e) # ls) r)) sc s (Ok w, s') =
   evaluates hs child (plain (KCall (Some (plain (KLambda (LambdaPb x
      (Some (plain (KBlock ls r)))))))
      (Some e))) sc s (Ok w, s')"
  by (simp add: evaluates_block evaluates_lambda_call local_value_def or_default_def)

section \<open>Structures\<close>

text \<open>
  Selecting from a structure literal evaluates every element in order and gives the
  one at the index, as it is, or a not-found error for an index out of range; the child
  executor makes no selection.
\<close>

lemma select_from_struct:
  "Evaluate (Suc (Suc n)) hs child (plain (KSelection (Some (plain (KStruct es))) index)) sc =
     GENC_TRY (map_try (\<lambda>e. Evaluate n hs child e sc) es) (\<lambda>vs.
       if unat index < length vs then return (vs ! unat index)
       else lift (NotFoundError
          [Txt ''Failed to create selection for index ['', Num (uint index),
           Txt ''] on structure with length ['', Num (int (length vs)), Txt '']'']))"
  by (auto simp: Evaluate_Suc Evaluate_F_def EvaluateSelection_def EvaluateStruct_def or_default_def
      CreateSelectionInternal_def GENC_TRY_assoc not_le intro!: arg_cong [where f = "GENC_TRY _"])

section \<open>Evaluations that end, and one that does not\<close>

text \<open>Values without calls: evaluating one makes no call of a function.\<close>

fun call_free :: "pvalue \<Rightarrow> bool" where
  "call_free (Value (KCall f a) t l m) = False"
| "call_free (Value (KStruct es) t l m) = (\<forall>e \<in> set es. call_free e)"
| "call_free (Value (KSelection (Some s) i) t l m) = call_free s"
| "call_free (Value (KBlock ls (Some r)) t l m) =
     ((\<forall>x \<in> set ls. case x of LocalPb nm (Some v) \<Rightarrow> call_free v | LocalPb nm None \<Rightarrow> True) \<and> call_free r)"
| "call_free (Value (KBlock ls None) t l m) =
     (\<forall>x \<in> set ls. case x of LocalPb nm (Some v) \<Rightarrow> call_free v | LocalPb nm None \<Rightarrow> True)"
| "call_free (Value c t l m) = True"

definition ends :: "('s, 'a) prog \<Rightarrow> bool" where
  "ends p \<longleftrightarrow> (\<forall>s. fst (p s) \<noteq> Diverge)"

named_theorems ends_intros "programs that end"

lemma ends_return [ends_intros]: "ends (return x)"
  by (simp add: ends_def return_def)

lemma ends_lift [ends_intros]: "r \<noteq> Diverge \<Longrightarrow> ends (lift r)"
  by (simp add: ends_def lift_def)

lemma ends_try [ends_intros]: "ends p \<Longrightarrow> (\<And>x. ends (k x)) \<Longrightarrow> ends (GENC_TRY p k)"
  by (auto simp: ends_def GENC_TRY_apply split: prod.splits outcome.splits) (metis fst_conv)+

lemma ends_with_suffix [ends_intros]: "ends p \<Longrightarrow> ends (with_suffix m p)"
  by (auto simp: ends_def with_suffix_def split: prod.splits outcome.splits) (metis fst_conv)+

lemma ends_map_try: "(\<And>x. x \<in> set xs \<Longrightarrow> ends (f x)) \<Longrightarrow> ends (map_try f xs)"
  by (induction xs) (auto intro!: ends_intros)

lemma ends_fold_try: "(\<And>x y. x \<in> set xs \<Longrightarrow> ends (f x y)) \<Longrightarrow> ends (fold_try f xs st)"
  by (induction xs arbitrary: st) (auto intro!: ends_intros)

lemma Resolve_not_Diverge: "Resolve sc nm \<noteq> Diverge"
  by (simp add: Resolve_bindings split: option.split)

text \<open>The child's operations and the checks of the handlers come to an end.\<close>

definition child_ends :: "('h, 's) executor \<Rightarrow> bool" where
  "child_ends child \<longleftrightarrow> (\<forall>v. ends (create_value child v)) \<and> (\<forall>h i. ends (create_selection child h i))"

definition checks_end :: "'w IntrinsicHandlerSet \<Rightarrow> bool" where
  "checks_end hs \<longleftrightarrow> (\<forall>u h i. hs u = Some h \<longrightarrow> CheckWellFormed h i \<noteq> Diverge)"

lemma ends_embed [ends_intros]: "child_ends child \<Longrightarrow> ends (embed_in_child child v)"
  unfolding embed_in_child_def child_ends_def by (auto intro!: ends_intros)

lemma ends_intrinsic [ends_intros]:
  assumes "child_ends child" and "checks_end hs"
  shows "ends (EvaluateIntrinsic hs child v i sc)"
proof (cases "GetHandler hs (uri i)")
  case (Ok h)
  then have "CheckWellFormed h i \<noteq> Diverge"
    using assms(2) GetHandler_Ok [OF Ok] unfolding checks_end_def by blast
  then show ?thesis
    using assms(1) Ok by (auto simp: EvaluateIntrinsic_def intro!: ends_intros)
next
  case Diverge
  then show ?thesis by (auto simp: GetHandler_def split: option.splits if_splits)
qed (auto simp: EvaluateIntrinsic_def intro: ends_intros)

lemma ends_selection [ends_intros]:
  "child_ends child \<Longrightarrow> ends (CreateSelectionInternal child v i)"
  by (cases v) (auto simp: CreateSelectionInternal_def child_ends_def intro!: ends_intros)

lemma size_in_list: "x \<in> set xs \<Longrightarrow> size x < Suc (size_list size xs)"
  by (induction xs) auto

lemma call_free_or_default: "call_free (or_default None)"
  by (simp add: or_default_def)

lemma ends_block:
  assumes "\<And>x sc'. x \<in> set ls \<Longrightarrow> ends (ev (local_value x) sc')" and "\<And>sc'. ends (ev r sc')"
  shows "ends (EvaluateBlock ev ls r sc)"
  using assms unfolding EvaluateBlock_def evaluate_local_def
  by (auto intro!: ends_intros ends_fold_try)

lemma local_value_size:
  "x \<in> set ls \<Longrightarrow> size (local_value x) < size (Value (KBlock ls r) t l m) \<or> local_value x = empty_value"
  using size_in_list [of x ls]
  by (cases x rule: local_pb.exhaust, cases "local_value_field x")
     (auto simp: local_value_def or_default_def)

lemma call_free_local:
  "call_free (Value (KBlock ls r) t l m) \<Longrightarrow> x \<in> set ls \<Longrightarrow> call_free (local_value x)"
  by (cases r; cases x) (auto simp: local_value_def or_default_def split: option.splits dest!: bspec)

lemma call_free_result:
  "call_free (Value (KBlock ls r) t l m) \<Longrightarrow> call_free (or_default r)"
  by (cases r) (auto simp: or_default_def)

lemma ends_empty: "child_ends child \<Longrightarrow> 0 < n \<Longrightarrow> ends (Evaluate n hs child empty_value sc)"
  by (cases n) (auto simp: Evaluate_Suc Evaluate_F_def intro: ends_intros)

text \<open>
  C38: evaluating a value without calls ends: more fuel than the size of the value is
  enough, in every scope, when the child's operations and the handlers' checks end.
\<close>

theorem call_free_ends:
  assumes "call_free v" and "size v < n" and "child_ends child" and "checks_end hs"
  shows "fst (Evaluate n hs child v sc s) \<noteq> Diverge"
proof -
  have "ends (Evaluate n hs child v sc)"
    using assms(1,2)
  proof (induction n arbitrary: v sc)
    case (Suc n)
    obtain c t l m where v: "v = Value c t l m" by (cases v)
    have sub: "ends (Evaluate n hs child w sc')" if "call_free w" "size w < size v \<or> w = empty_value" for w sc'
      using Suc that ends_empty [OF assms(3), of n hs sc'] v by (cases "w = empty_value") auto
    show ?case
    proof (cases c)
      case (KBlock ls r)
      have cf: "call_free (Value (KBlock ls r) t l m)"
        using Suc.prems(1) v KBlock by simp
      have "ends (Evaluate n hs child (local_value x) sc')" if "x \<in> set ls" for x sc'
        using local_value_size [OF that, of r t l m] call_free_local [OF cf that]
        by (intro sub) (simp_all only: v KBlock)
      moreover have "ends (Evaluate n hs child (or_default r) sc')" for sc'
        using call_free_result [OF cf]
        by (intro sub) (cases r; simp add: or_default_def v KBlock)+
      ultimately show ?thesis
        unfolding Evaluate_Suc Evaluate_F_def by (simp add: v KBlock ends_block)
    next
      case (KSelection src i)
      then show ?thesis
        using Suc.prems(1) assms(3) unfolding Evaluate_Suc Evaluate_F_def v
        by (cases src) (auto simp: v EvaluateSelection_def or_default_def intro!: ends_intros sub)
    next
      case (KStruct es)
      have "ends (Evaluate n hs child e sc')" if "e \<in> set es" for e sc'
        using Suc.prems(1) that size_in_list [OF that] by (intro sub) (simp_all add: v KStruct)
      then show ?thesis
        unfolding Evaluate_Suc Evaluate_F_def
        by (auto simp: v KStruct EvaluateStruct_def intro!: ends_intros ends_map_try)
    next
      case (KReference nm)
      then show ?thesis
        unfolding Evaluate_Suc Evaluate_F_def v
        by (auto simp: EvaluateReference_def Resolve_not_Diverge intro!: ends_intros)
    qed (use Suc.prems(1) assms(3,4) in \<open>auto simp: v Evaluate_Suc Evaluate_F_def EvaluateLambda_def
           intro: ends_intros\<close>)
  qed simp
  then show ?thesis by (simp add: ends_def)
qed

lemma call_free_ends_witness:
  "fst (Evaluate 20 Map.empty literal_child (plain (KSelection (Some (plain (KStruct
      [plain (KStr ''a''), plain (KReference ''x'')]))) 0)) Root 0) \<noteq> Diverge"
  by (rule call_free_ends)
     (simp_all add: child_ends_def checks_end_def literal_child_def ends_def lift_def)

text \<open>The lambda that calls its argument with itself, and that lambda called with itself.\<close>

definition self_application :: lambda_pb where
  "self_application = LambdaPb ''x'' (Some (plain (KCall (Some (plain (KReference ''x'')))
     (Some (plain (KReference ''x''))))))"

definition omega :: pvalue where
  "omega = plain (KCall (Some (plain (KLambda self_application))) (Some (plain (KLambda self_application))))"

lemma fst_Diverge_try: "fst (p s) = Diverge \<Longrightarrow> fst (GENC_TRY p k s) = Diverge"
  by (auto simp: GENC_TRY_apply split: prod.splits)

lemma self_application_diverges:
  "fst (ConstCreateCall n hs child (LambdaV self_application Root)
     (Some (LambdaV self_application Root)) s) = Diverge"
proof (induction n arbitrary: s rule: less_induct)
  case (less n)
  let ?w = "LambdaV self_application Root" and ?sc = "Scope ''x'' (LambdaV self_application Root) Root"
  show ?case
  proof (cases n)
    case (Suc k)
    show ?thesis
    proof (cases k)
      case (Suc m)
      have ref: "Evaluate m hs child (plain (KReference ''x'')) ?sc s =
          (if m = 0 then (Diverge, s) else (Ok ?w, s))" for s
        by (cases m) (simp_all add: lift_apply EvaluateReference_innermost)
      have ih: "fst (ConstCreateCall m hs child ?w (Some ?w) s) = Diverge" for s
        using less \<open>n = Suc k\<close> Suc by simp
      show ?thesis
        using \<open>n = Suc k\<close> Suc ref ih
        by (simp add: ConstCreateCall_Suc ConstCreateCall_F_def ScopedLambda_Call_def
            lambda_result_def Evaluate_Suc [of m] Evaluate_F_def EvaluateCall_def or_default_def
            self_application_def GENC_TRY_apply return_apply)
    qed (simp add: \<open>n = Suc k\<close> ConstCreateCall_Suc ConstCreateCall_F_def ScopedLambda_Call_def lift_apply)
  qed (simp add: lift_apply)
qed

text \<open>
  The evaluator does not check types, so a closed value can make it run forever: the
  self-application of a lambda has no outcome with any amount of fuel.
\<close>

lemma omega_diverges: "fst (Evaluate n hs child omega Root s) = Diverge"
proof (cases n)
  case (Suc k)
  have lam: "Evaluate k hs child (plain (KLambda self_application)) Root s =
      (if k = 0 then (Diverge, s) else (Ok (LambdaV self_application Root), s))" for s
    by (cases k) (simp_all add: lift_apply Evaluate_Suc Evaluate_F_def EvaluateLambda_def return_apply)
  show ?thesis
    using self_application_diverges [of k hs child]
    by (simp add: Suc omega_def Evaluate_Suc [of k] Evaluate_F_def EvaluateCall_def or_default_def
        GENC_TRY_apply return_apply lam)
qed (simp add: lift_apply)

end
