(* ===== verification/Inline_Intrinsics.thy ===== *)
theory Inline_Intrinsics
  imports Intrinsics
begin

text \<open>
  The calls of the inline intrinsics (\<^verbatim>\<open>genc/cc/intrinsics\<close>, \<^verbatim>\<open>genc/cc/modules/tools\<close>).
  A call takes the intrinsic, its argument and the value behind the result pointer, and
  returns the value that is behind the pointer afterwards. The state is the
  process: the console on which the logger writes, and the memory of the functions.
\<close>

section \<open>Values, logging, regular expressions\<close>

definition LogicalNot_ExecuteCall ::
  "intrinsic_pb \<Rightarrow> pvalue \<Rightarrow> pvalue \<Rightarrow> ('w process, pvalue) prog" where
  "LogicalNot_ExecuteCall i arg result =
     (if \<not> has_boolean arg
      then lift (InvalidArgumentError [Txt ''Argument does not contain boolean.''])
      else return (set_case (KBoolean (\<not> boolean arg)) result))"

definition Logger_ExecuteCall ::
  "intrinsic_pb \<Rightarrow> pvalue \<Rightarrow> pvalue \<Rightarrow> ('w process, pvalue) prog" where
  "Logger_ExecuteCall i arg result = (\<lambda>s.
     let line = (if has_str arg then [Txt (str arg)] else [DebugString arg])
     in (Ok arg, write_console line s))"

definition RegexPartialMatch_ExecuteCall ::
  "'c libs \<Rightarrow> intrinsic_pb \<Rightarrow> pvalue \<Rightarrow> pvalue \<Rightarrow> ('w process, pvalue) prog" where
  "RegexPartialMatch_ExecuteCall lib i arg result =
     (if \<not> has_str arg
      then lift (InvalidArgumentError [Txt ''Argument is not a string: '', DebugString arg])
      else return (set_case (KBoolean (PartialMatch lib (str arg) (str (static_parameter i)))) result))"

section \<open>Prompt templates\<close>

text \<open>
  The loop over \<open>FindAndConsume\<close>: the last captured placeholder and the set of all of
  them. Whether it ends depends on the library, so it is a partial function.
\<close>

partial_function (option) find_parameters ::
  "(string \<Rightarrow> (string \<times> string) option) \<Rightarrow> string \<Rightarrow> string \<Rightarrow> string list
     \<Rightarrow> (string \<times> string list) option" where
  "find_parameters find_next input parameter parameters_set =
     (case find_next input of
        None \<Rightarrow> Some (parameter, parameters_set)
      | Some (p, rest) \<Rightarrow> find_parameters find_next rest p (List.insert p parameters_set))"

definition of_loop :: "'a option \<Rightarrow> 'a outcome" where
  "of_loop r = (case r of None \<Rightarrow> Diverge | Some x \<Rightarrow> Ok x)"

definition PromptTemplate_ExecuteCall ::
  "'c libs \<Rightarrow> intrinsic_pb \<Rightarrow> pvalue \<Rightarrow> pvalue \<Rightarrow> ('w process, pvalue) prog" where
  "PromptTemplate_ExecuteCall lib i arg result =
     (let template_string = str (static_parameter i) in
      GENC_TRY (lift (of_loop (find_parameters (FindAndConsume lib) template_string [] [])))
        (\<lambda>(parameter, parameters_set).
      GENC_TRY
        (if length parameters_set = 1
         then if \<not> has_str arg
              then lift (InvalidArgumentError
                     [Txt ''Expect input to PromptTemplate to have str value, got none.''])
              else return [(parameter, str arg)]
         else return (map (\<lambda>a. (braced (label a), str a)) (struct_elements arg)))
        (\<lambda>replacements.
      return (set_case (KStr (StrReplaceAll lib template_string replacements)) result))))"

text \<open>The loop over the parameters and the argument elements, read by index.\<close>

fun parameter_replacements ::
  "pvalue list \<Rightarrow> pvalue list \<Rightarrow> (string \<times> string) list outcome" where
  "parameter_replacements [] args = Ok []"
| "parameter_replacements (p # ps) [] = Crash IndexOutOfRange"
| "parameter_replacements (p # ps) (a # as) =
     (if \<not> has_str a
      then InvalidArgumentError [Txt ''Expected strings in the argument, got '', DebugString a]
      else if \<not> has_str p then InternalError [Txt ''Non-string parameter name.'']
      else try_value (parameter_replacements ps as) (\<lambda>rs. Ok ((braced (str p), str a) # rs)))"

definition PromptTemplateWithParameters_ExecuteCall ::
  "'c libs \<Rightarrow> intrinsic_pb \<Rightarrow> pvalue \<Rightarrow> pvalue \<Rightarrow> ('w process, pvalue) prog" where
  "PromptTemplateWithParameters_ExecuteCall lib i arg result =
     GENC_TRY (lift (element (params i) 0)) (\<lambda>e0.
     let template_string = str e0 in
     if template_string = []
     then lift (InvalidArgumentError [Txt ''The template string is empty.''])
     else if \<not> has_struct arg
     then lift (InvalidArgumentError [Txt ''The argument is not a struct: '', DebugString arg])
     else GENC_TRY (lift (element (params i) 1)) (\<lambda>e1.
       if length (struct_elements e1) \<noteq> length (struct_elements arg)
       then lift (InvalidArgumentError
              [Txt ''Mismatching the number of elements in the argument: '',
               Num (int (length (struct_elements arg))), Txt '' as compated to '',
               Num (int (length (struct_elements e1))), Txt '' in the template: '',
               DebugString (static_parameter i)])
       else GENC_TRY (lift (of_loop (find_parameters (FindAndConsume lib) template_string [] [])))
         (\<lambda>_. GENC_TRY (lift (parameter_replacements (struct_elements e1) (struct_elements arg)))
         (\<lambda>replacements.
            return (set_case (KStr (StrReplaceAll lib template_string replacements)) result)))))"

section \<open>User functions and models\<close>

definition CustomFunction_ExecuteCall ::
  "'w FunctionMap \<Rightarrow> intrinsic_pb \<Rightarrow> pvalue \<Rightarrow> pvalue \<Rightarrow> ('w process, pvalue) prog" where
  "CustomFunction_ExecuteCall function_map i arg result =
     (case function_map (str (static_parameter i)) of
        None \<Rightarrow> return result
      | Some f \<Rightarrow> f arg)"

definition test_model_output :: "string \<Rightarrow> string" where
  "test_model_output s =
     ''This is an output from a test model in response to '' @ [char_of (34::nat)] @ s @ [char_of (34::nat)] @ ''.''"

definition ModelInference_ExecuteCall ::
  "'w InferenceMap \<Rightarrow> intrinsic_pb \<Rightarrow> pvalue \<Rightarrow> pvalue \<Rightarrow> ('w process, pvalue) prog" where
  "ModelInference_ExecuteCall inference_map i arg result =
     (let model_uri = str (static_parameter i) in
      if model_uri = ''test_model''
      then return (set_case (KStr (test_model_output (str arg))) result)
      else case inference_map model_uri of
        Some f \<Rightarrow> f arg
      | None \<Rightarrow> lift (UnimplementedError [Txt ''Unsupported model: '', Txt model_uri]))"

definition ModelInferenceWithConfig_ExecuteCall ::
  "'w ConfigInferenceMap \<Rightarrow> intrinsic_pb \<Rightarrow> pvalue \<Rightarrow> pvalue \<Rightarrow> ('w process, pvalue) prog" where
  "ModelInferenceWithConfig_ExecuteCall inference_map i arg result =
     GENC_TRY (lift (element (params i) 0)) (\<lambda>e0.
      let model_uri = str e0 in
      if model_uri = ''test_model''
      then return (set_case (KStr (test_model_output (str arg))) result)
      else case inference_map model_uri of
        Some f \<Rightarrow> f i arg
      | None \<Rightarrow> lift (UnimplementedError [Txt ''Unsupported model: '', Txt model_uri]))"

section \<open>HTTP calls and templates\<close>

definition CurlClient_Post :: "curl \<Rightarrow> string \<Rightarrow> string \<Rightarrow> string \<Rightarrow> pvalue outcome" where
  "CurlClient_Post c api_key endpoint json_request =
     (if \<not> curl_easy_init c then InternalError [Txt ''Unable to init CURL'']
      else
        let headers = (if api_key \<noteq> [] then [''Authorization: Bearer '' @ api_key] else [])
                      @ [''Content-Type: application/json'']
        in case curl_easy_perform c
             [CURLOPT_POSTFIELDS json_request, CURLOPT_HTTPHEADER headers, CURLOPT_URL endpoint] of
             CurlError e \<Rightarrow> InternalError [Txt e]
           | CURLE_OK chunks \<Rightarrow> Ok (plain (KStr (write_all chunks))))"

definition CurlClient_Get :: "curl \<Rightarrow> string \<Rightarrow> pvalue outcome" where
  "CurlClient_Get c endpoint =
     (if \<not> curl_easy_init c then InternalError [Txt ''Unable to init CURL'']
      else case curl_easy_perform c [CURLOPT_HTTPGET, CURLOPT_URL endpoint] of
             CurlError e \<Rightarrow> InternalError [Txt e]
           | CURLE_OK chunks \<Rightarrow> Ok (plain (KStr (write_all chunks))))"

definition kRestCallPost :: string where "kRestCallPost = ''POST''"
definition kRestCallGet :: string where "kRestCallGet = ''GET''"

definition RestCall_ExecuteCall ::
  "'c libs \<Rightarrow> intrinsic_pb \<Rightarrow> pvalue \<Rightarrow> pvalue \<Rightarrow> ('w process, pvalue) prog" where
  "RestCall_ExecuteCall lib i arg result =
     GENC_TRY (lift (element (params i) 0)) (\<lambda>e0.
     GENC_TRY (lift (element (params i) 1)) (\<lambda>e1.
     let http_method = str e0; url = str e1 in
     if http_method = kRestCallGet then lift (CurlClient_Get (libcurl lib) url)
     else if http_method = kRestCallPost
     then GENC_TRY (lift (element (params i) 2)) (\<lambda>e2.
            lift (CurlClient_Post (libcurl lib) (str e2) url (str arg)))
     else lift (InvalidArgumentError [Txt ''Unsupported RestCall method: '', Txt http_method])))"

definition InjaTemplate_ExecuteCall ::
  "'c libs \<Rightarrow> intrinsic_pb \<Rightarrow> pvalue \<Rightarrow> pvalue \<Rightarrow> ('w process, pvalue) prog" where
  "InjaTemplate_ExecuteCall lib i arg result =
     (case json_parse lib (str arg) of
        None \<Rightarrow> lift (InternalError [Txt ''Failed parsing json input to InjaTemplate: '', DebugString arg])
      | Some parsed_json \<Rightarrow>
          GENC_TRY (lift (inja_render lib (str (static_parameter i)) parsed_json)) (\<lambda>result_str.
          return (set_case (KStr result_str) result)))"

definition CallShortAnswersAPI :: "curl \<Rightarrow> string \<Rightarrow> string \<Rightarrow> string outcome" where
  "CallShortAnswersAPI c app_id query =
     (if \<not> curl_easy_init c then InternalError [Txt ''Unable to init CURL'']
      else
        let url = ''http://api.wolframalpha.com/v2/query?appid='' @ app_id
                  @ ''&output=json&includepodid=Result&input='' @ curl_easy_escape c query
        in case curl_easy_perform c [CURLOPT_URL url] of
             CurlError e \<Rightarrow> InternalError [Txt e]
           | CURLE_OK chunks \<Rightarrow> Ok (write_all chunks))"

definition WolframAlpha_ExecuteCall ::
  "'c libs \<Rightarrow> intrinsic_pb \<Rightarrow> pvalue \<Rightarrow> pvalue \<Rightarrow> ('w process, pvalue) prog" where
  "WolframAlpha_ExecuteCall lib i arg result =
     GENC_TRY (lift (CallShortAnswersAPI (libcurl lib) (str (static_parameter i)) (str arg)))
       (\<lambda>result_str. return (set_case (KStr result_str) result))"

section \<open>Confidential computations\<close>

text \<open>Later elements of the configuration override earlier ones with the same label.\<close>

fun read_config :: "pvalue list \<Rightarrow> string \<times> string \<Rightarrow> string \<times> string" where
  "read_config [] acc = acc"
| "read_config (e # es) (server_address, image_digest) =
     read_config es
       (if label e = kServerAddressLabel then (str e, image_digest)
        else if label e = kImageDigestLabel then (server_address, str e)
        else (server_address, image_digest))"

text \<open>The steps taken on the remote executor; the owned handles die with the executor.\<close>

definition remote_session ::
  "(ValueId, 'c) executor \<Rightarrow> pvalue \<Rightarrow> pvalue \<Rightarrow> ('c, pvalue option) prog" where
  "remote_session ex computation arg =
     GENC_TRY (create_value ex computation) (\<lambda>embedded_comp.
     GENC_TRY (create_value ex arg) (\<lambda>embedded_arg.
     GENC_TRY (create_call ex embedded_comp (Some embedded_arg)) (\<lambda>embedded_result.
     materialize ex embedded_result True)))"

definition ConfidentialComputation_ExecuteCall ::
  "unit outcome \<Rightarrow> 'c libs \<Rightarrow> intrinsic_pb \<Rightarrow> pvalue \<Rightarrow> pvalue \<Rightarrow> ('w process, pvalue) prog" where
  "ConfidentialComputation_ExecuteCall http_client lib i arg result =
     (case http_client of
        Err e \<Rightarrow> lift (InternalError [Txt ''Failed to initialize HTTP client: '', StatusText (code e) (msg e)])
      | Crash c \<Rightarrow> lift (Crash c)
      | Diverge \<Rightarrow> lift Diverge
      | Ok _ \<Rightarrow>
        GENC_TRY (lift (element (params i) 0)) (\<lambda>computation.
        GENC_TRY (lift (element (params i) 1)) (\<lambda>config.
        let (server_address, image_digest) = read_config (struct_elements config) ([], []) in
        if server_address = []
        then lift (InvalidArgumentError [Txt ''Expected a non-empty server address.''])
        else GENC_TRY (lift (oak_connect lib server_address
                               (if image_digest \<noteq> [] then Some image_digest else None)))
               (\<lambda>(ex, conn). GENC_TRY (lift (fst (remote_session ex computation arg conn)))
               (\<lambda>r. return (case r of None \<Rightarrow> result | Some v \<Rightarrow> v))))))"

section \<open>Dispatch\<close>

text \<open>The virtual call through the inline interface.\<close>

fun inline_ExecuteCall ::
  "'c libs \<Rightarrow> 'w handler \<Rightarrow> intrinsic_pb \<Rightarrow> pvalue \<Rightarrow> pvalue \<Rightarrow> ('w process, pvalue) prog" where
  "inline_ExecuteCall lib LogicalNot i arg result = LogicalNot_ExecuteCall i arg result"
| "inline_ExecuteCall lib Logger i arg result = Logger_ExecuteCall i arg result"
| "inline_ExecuteCall lib RegexPartialMatch i arg result = RegexPartialMatch_ExecuteCall lib i arg result"
| "inline_ExecuteCall lib PromptTemplate i arg result = PromptTemplate_ExecuteCall lib i arg result"
| "inline_ExecuteCall lib PromptTemplateWithParameters i arg result =
     PromptTemplateWithParameters_ExecuteCall lib i arg result"
| "inline_ExecuteCall lib (CustomFunction m) i arg result = CustomFunction_ExecuteCall m i arg result"
| "inline_ExecuteCall lib (ModelInference m) i arg result = ModelInference_ExecuteCall m i arg result"
| "inline_ExecuteCall lib (ModelInferenceWithConfig m) i arg result =
     ModelInferenceWithConfig_ExecuteCall m i arg result"
| "inline_ExecuteCall lib RestCall i arg result = RestCall_ExecuteCall lib i arg result"
| "inline_ExecuteCall lib InjaTemplate i arg result = InjaTemplate_ExecuteCall lib i arg result"
| "inline_ExecuteCall lib WolframAlpha i arg result = WolframAlpha_ExecuteCall lib i arg result"
| "inline_ExecuteCall lib (ConfidentialComputation c) i arg result =
     ConfidentialComputation_ExecuteCall c lib i arg result"
| "inline_ExecuteCall lib (CustomInline u chk f) i arg result = f i arg result"
| "inline_ExecuteCall lib h i arg result = lift (Crash NullDereference)"

section \<open>The placeholders of a template\<close>

text \<open>
  The documented behaviour the loop relies on: a match consumes at least one character.
  The list of captures, bounded by the length of the input, is the reference.
\<close>

definition consumes :: "(string \<Rightarrow> (string \<times> string) option) \<Rightarrow> bool" where
  "consumes find_next \<longleftrightarrow> (\<forall>s p r. find_next s = Some (p, r) \<longrightarrow> length r < length s)"

fun captures :: "nat \<Rightarrow> (string \<Rightarrow> (string \<times> string) option) \<Rightarrow> string \<Rightarrow> string list" where
  "captures 0 find_next s = []"
| "captures (Suc n) find_next s =
     (case find_next s of None \<Rightarrow> [] | Some (p, r) \<Rightarrow> p # captures n find_next r)"

definition placeholders :: "(string \<Rightarrow> (string \<times> string) option) \<Rightarrow> string \<Rightarrow> string list" where
  "placeholders find_next s = captures (Suc (length s)) find_next s"

lemma find_parameters_captures:
  assumes "consumes f" and "length s < n"
  shows "find_parameters f s p ps =
    Some (if captures n f s = [] then p else last (captures n f s),
          fold List.insert (captures n f s) ps)"
  using assms(2)
proof (induction n arbitrary: s p ps)
  case (Suc n)
  show ?case
  proof (cases "f s")
    case (Some pr)
    obtain q r where qr: "pr = (q, r)" by (cases pr)
    with Some assms(1) have "length r < length s" by (simp add: consumes_def)
    with Suc.prems have "length r < n" by simp
    from Suc.IH [OF this, of q "List.insert q ps"] Some qr show ?thesis
      by (subst find_parameters.simps) simp
  qed (subst find_parameters.simps, simp)
qed simp

lemma find_parameters_placeholders:
  "consumes f \<Longrightarrow> find_parameters f s p ps =
    Some (if placeholders f s = [] then p else last (placeholders f s),
          fold List.insert (placeholders f s) ps)"
  unfolding placeholders_def by (rule find_parameters_captures) simp_all

lemma length_fold_insert_one:
  "length (fold List.insert ps []) = 1 \<longleftrightarrow> (\<exists>p. set ps = {p})"
proof -
  have d: "distinct (fold List.insert ps qs)" if "distinct qs" for qs :: "'a list"
    using that by (induction ps arbitrary: qs) auto
  have s: "set (fold List.insert ps qs) = set qs \<union> set ps" for qs :: "'a list"
    by (induction ps arbitrary: qs) auto
  have "length (fold List.insert ps []) = card (set ps)"
    using distinct_card [OF d [of "[]"]] s [of "[]"] by simp
  then show ?thesis by (simp add: card_1_singleton_iff)
qed

lemma last_of_singleton: "set ps = {p} \<Longrightarrow> ps \<noteq> [] \<and> last ps = p"
  by (metis empty_not_insert last_in_set list.set(1) singletonD)

text \<open>
  Concrete libraries for evaluation: the leftmost match of the pattern
  \<open>\{[a-zA-Z0-9_]*\}\<close>, and the replacement that scans once from the left and prefers the
  longest key.
\<close>

definition word_char :: "char \<Rightarrow> bool" where
  "word_char c = (let n = (of_char c :: nat) in
     (48 \<le> n \<and> n \<le> 57) \<or> (65 \<le> n \<and> n \<le> 90) \<or> (97 \<le> n \<and> n \<le> 122) \<or> n = 95)"

fun find_placeholder :: "string \<Rightarrow> (string \<times> string) option" where
  "find_placeholder [] = None"
| "find_placeholder (c # cs) =
     (if c = CHR ''{'' \<and> dropWhile word_char cs \<noteq> [] \<and> hd (dropWhile word_char cs) = CHR ''}''
      then Some (braced (takeWhile word_char cs), tl (dropWhile word_char cs))
      else find_placeholder cs)"

lemma find_placeholder_consumes: "consumes find_placeholder"
proof -
  have "length r < length s" if "find_placeholder s = Some (p, r)" for s p r
    using that
  proof (induction s)
    case (Cons c cs)
    then show ?case
      by (auto split: if_splits) (use length_dropWhile_le [of word_char cs] in linarith)
  qed simp
  then show ?thesis by (auto simp: consumes_def)
qed

definition prefix_key :: "string \<Rightarrow> string \<Rightarrow> bool" where
  "prefix_key k s = (k \<noteq> [] \<and> take (length k) s = k)"

fun longest_key :: "(string \<times> string) list \<Rightarrow> string \<Rightarrow> (string \<times> string) option" where
  "longest_key [] s = None"
| "longest_key ((k, v) # rs) s =
     (case longest_key rs s of
        None \<Rightarrow> if prefix_key k s then Some (k, v) else None
      | Some (k', v') \<Rightarrow>
          if prefix_key k s \<and> length k' \<le> length k then Some (k, v) else Some (k', v'))"

function replace_all :: "string \<Rightarrow> (string \<times> string) list \<Rightarrow> string" where
  "replace_all [] rs = []"
| "replace_all (c # cs) rs =
     (case longest_key rs (c # cs) of
        None \<Rightarrow> c # replace_all cs rs
      | Some (k, v) \<Rightarrow> v @ replace_all (drop (length k - 1) cs) rs)"
  by pat_completeness auto
termination by (relation "measure (\<lambda>(s, rs). length s)") auto

text \<open>A process that has written nothing and whose functions keep no memory.\<close>

definition new_process :: "unit process" where
  "new_process = \<lparr>console_lines = [], memory = ()\<rparr>"

definition sample_libs :: "unit libs" where
  "sample_libs = \<lparr>PartialMatch = (\<lambda>s p. s = p), FindAndConsume = find_placeholder,
     StrReplaceAll = replace_all, json_parse = (\<lambda>s. Some (JString s)),
     inja_render = (\<lambda>t j. Ok t),
     libcurl = \<lparr>curl_easy_init = True, curl_easy_escape = (\<lambda>s. s),
                curl_easy_perform = (\<lambda>os. CURLE_OK [''ok''])\<rparr>,
     oak_connect = (\<lambda>a d. Err (Status kUnavailable []))\<rparr>"

text \<open>
  C29: filling a prompt template always ends: with one distinct placeholder (however often
  it occurs) the text of the argument replaces it, and anything but a string is an
  invalid argument; with none or several, each element of the argument struct replaces
  the placeholder that carries its label.
\<close>

theorem PromptTemplate_ExecuteCall_result:
  assumes "consumes (FindAndConsume lib)"
  shows "PromptTemplate_ExecuteCall lib i arg result out =
    (let t = str (static_parameter i); ps = placeholders (FindAndConsume lib) t in
     if \<exists>p. set ps = {p} then
       if has_str arg
       then (Ok (set_case (KStr (StrReplaceAll lib t [(last ps, str arg)])) result), out)
       else (InvalidArgumentError [Txt ''Expect input to PromptTemplate to have str value, got none.''], out)
     else (Ok (set_case (KStr (StrReplaceAll lib t
             (map (\<lambda>a. (braced (label a), str a)) (struct_elements arg)))) result), out))"
  using last_of_singleton
  by (auto simp: PromptTemplate_ExecuteCall_def Let_def of_loop_def run_simps
      find_parameters_placeholders [OF assms] length_fold_insert_one [unfolded One_nat_def])

lemma PromptTemplate_ExecuteCall_result_witness:
  "PromptTemplate_ExecuteCall sample_libs
     (IntrinsicPb kPromptTemplate (Some (plain (KStr ''Hi {x}, {x}!'')))) (plain (KStr ''Bo'')) empty_value new_process
   = (Ok (plain (KStr ''Hi Bo, Bo!'')), new_process)"
proof -
  have c: "consumes (FindAndConsume sample_libs)"
    by (simp add: sample_libs_def find_placeholder_consumes)
  have ps: "placeholders (FindAndConsume sample_libs) ''Hi {x}, {x}!'' = [''{x}'', ''{x}'']"
    by code_simp
  have r: "StrReplaceAll sample_libs ''Hi {x}, {x}!'' [(''{x}'', ''Bo'')] = ''Hi Bo, Bo!''"
    by code_simp
  show ?thesis
    by (subst PromptTemplate_ExecuteCall_result [OF c])
       (simp add: static_parameter_def or_default_def ps r)
qed

section \<open>A checked intrinsic does not crash its handler\<close>

definition no_crash :: "'a outcome \<Rightarrow> bool" where
  "no_crash r \<longleftrightarrow> (case r of Crash c \<Rightarrow> False | _ \<Rightarrow> True)"

lemma no_crash_simps [simp]:
  "no_crash (Ok x)" "no_crash (Err e)" "\<not> no_crash (Crash c)" "no_crash Diverge"
  by (simp_all add: no_crash_def)

text \<open>What the caller's own functions and the libraries have to keep.\<close>

fun provider_ok :: "'c libs \<Rightarrow> 'w handler \<Rightarrow> bool" where
  "provider_ok lib (CustomFunction m) = (\<forall>u f v s. m u = Some f \<longrightarrow> no_crash (fst (f v s)))"
| "provider_ok lib (ModelInference m) = (\<forall>u f v s. m u = Some f \<longrightarrow> no_crash (fst (f v s)))"
| "provider_ok lib (ModelInferenceWithConfig m) = (\<forall>u f i v s. m u = Some f \<longrightarrow> no_crash (fst (f i v s)))"
| "provider_ok lib (CustomInline u chk f) = (\<forall>i v r s. no_crash (fst (f i v r s)))"
| "provider_ok lib InjaTemplate = (\<forall>t j. no_crash (inja_render lib t j))"
| "provider_ok lib (ConfidentialComputation c) =
     (no_crash c \<and> (\<forall>a d. no_crash (oak_connect lib a d)) \<and>
      (\<forall>a d ex conn v w. oak_connect lib a d = Ok (ex, conn) \<longrightarrow> no_crash (fst (remote_session ex v w conn))))"
| "provider_ok lib h = True"

lemma no_crash_try:
  assumes "no_crash (fst (p s))" and "\<And>x s'. p s = (Ok x, s') \<Longrightarrow> no_crash (fst (k x s'))"
  shows "no_crash (fst (GENC_TRY p k s))"
  using assms by (auto simp: GENC_TRY_apply split: prod.splits outcome.splits)

lemma no_crash_of_loop [simp]: "no_crash (of_loop r)"
  by (simp add: of_loop_def split: option.split)

lemma check_config_no_crash: "no_crash (check_config es)"
  by (induction es) auto

lemma check_parameter_names_strs:
  "check_parameter_names ps = Ok () \<Longrightarrow> p \<in> set ps \<Longrightarrow> has_str p"
  by (induction ps) (auto split: if_splits)

lemma parameter_replacements_no_crash:
  "length ps = length as \<Longrightarrow> no_crash (parameter_replacements ps as)"
proof (induction ps as rule: parameter_replacements.induct)
  case (3 p ps a as)
  then show ?case by (cases "parameter_replacements ps as") auto
qed auto

lemma PromptTemplate_no_crash: "no_crash (fst (PromptTemplate_ExecuteCall lib i arg result out))"
  unfolding PromptTemplate_ExecuteCall_def Let_def
  by (rule no_crash_try) (auto simp: run_simps split: if_splits)

lemma PromptTemplateWithParameters_no_crash:
  assumes "PromptTemplateWithParameters_CheckWellFormed i = Ok ()"
  shows "no_crash (fst (PromptTemplateWithParameters_ExecuteCall lib i arg result out))"
proof -
  have two: "length (params i) = 2"
    using assms by (auto simp: PromptTemplateWithParameters_CheckWellFormed_def split: if_splits)
  show ?thesis
    unfolding PromptTemplateWithParameters_ExecuteCall_def Let_def
    using two by (auto simp: lift_apply return_apply element_def parameter_replacements_no_crash
        intro!: no_crash_try)
qed

lemma CurlClient_no_crash [simp]:
  "no_crash (CurlClient_Get c u)" "no_crash (CurlClient_Post c k u j)" "no_crash (CallShortAnswersAPI c a q)"
  by (auto simp: CurlClient_Get_def CurlClient_Post_def CallShortAnswersAPI_def Let_def
      split: curl_result.split)

lemma ModelInferenceWithConfig_no_crash:
  assumes "ModelInferenceWithConfig_CheckWellFormed i = Ok ()"
    and "provider_ok lib (ModelInferenceWithConfig m)"
  shows "no_crash (fst (ModelInferenceWithConfig_ExecuteCall m i arg result out))"
proof -
  have "0 < length (params i)"
    using assms(1)
    by (auto simp: ModelInferenceWithConfig_CheckWellFormed_def element_def split: if_splits)
  then show ?thesis
    using assms(2) by (auto simp: ModelInferenceWithConfig_ExecuteCall_def Let_def run_simps
        split: option.split)
qed

lemma ConfidentialComputation_no_crash:
  assumes "ConfidentialComputation_CheckWellFormed i = Ok ()"
    and "provider_ok lib (ConfidentialComputation c)"
  shows "no_crash (fst (ConfidentialComputation_ExecuteCall c lib i arg result out))"
proof -
  have two: "length (params i) = 2"
    using assms(1) by (auto simp: ConfidentialComputation_CheckWellFormed_def split: if_splits)
  show ?thesis
  proof (cases c)
    case (Ok u)
    then show ?thesis
      using two assms(2)
      by (auto simp: ConfidentialComputation_ExecuteCall_def Let_def lift_apply return_apply
          split: prod.splits intro!: no_crash_try)
  qed (use assms(2) in \<open>auto simp: ConfidentialComputation_ExecuteCall_def lift_apply\<close>)
qed



text \<open>
  A rest call with the method POST and just a URL passes its check, and then reads an
  element that is not there.
\<close>

lemma RestCall_post_without_key:
  assumes "str m = kRestCallPost"
    and "i = IntrinsicPb kRestCall (Some (plain (KStruct [m, url])))"
  shows "CheckWellFormed RestCall i = Ok () \<and>
    inline_ExecuteCall lib RestCall i arg result out = (Crash IndexOutOfRange, out)"
  using assms
  by (simp add: RestCall_CheckWellFormed_def RestCall_ExecuteCall_def static_parameter_def
      or_default_def element_def Let_def run_simps kRestCallGet_def kRestCallPost_def)

lemma RestCall_post_without_key_witness:
  "inline_ExecuteCall sample_libs RestCall
     (IntrinsicPb kRestCall (Some (plain (KStruct [plain (KStr kRestCallPost), plain (KStr ''u'')]))))
     (plain (KStr ''x'')) empty_value new_process = (Crash IndexOutOfRange, new_process)"
  by (rule RestCall_post_without_key [THEN conjunct2, OF _ refl]) simp

end
