(* ===== verification/Concurrency.thy ===== *)
theory Concurrency
  imports Executor
begin

text \<open>
  \<^verbatim>\<open>genc/cc/runtime/concurrency.h\<close>, \<^verbatim>\<open>concurrency_helpers.h\<close> and \<^verbatim>\<open>threading.cc\<close>: tasks and
  futures, the pool of threads that runs jobs which wait for each other's futures, and
  the tracker of outstanding callbacks. The theorems on the pool are what allows the
  executors to be modelled as if every job ran when it is scheduled.
\<close>

section \<open>Tasks\<close>

text \<open>
  \<open>waitable\<close> is the status of \<open>Schedule\<close> and, when that is OK, the status that \<open>Wait\<close>
  returns. The result is there once the callback has run.
\<close>

record 'a task =
  waitable :: "unit outcome outcome"
  task_result :: "'a outcome"

definition Task_Get :: "'a task \<Rightarrow> 'a outcome" where
  "Task_Get t = try_value (waitable t) (\<lambda>w. try_value w (\<lambda>_. task_result t))"

text \<open>What a concurrency manager decides for each callback: whether it is scheduled.\<close>

type_synonym schedule = "unit outcome outcome"

definition thread_based :: schedule where
  "thread_based = Ok (Ok ())"

text \<open>
  \<open>RunAsync\<close> with the callback run at once. A callback that is refused never runs; one
  that crashes takes the process with it.
\<close>

definition RunAsync :: "schedule \<Rightarrow> ('s, 'a) prog \<Rightarrow> ('s, 'a task) prog" where
  "RunAsync sch job = (\<lambda>s. case sch of
      Ok w \<Rightarrow> (case job s of
                 (Crash c, s') \<Rightarrow> (Crash c, s')
               | (r, s') \<Rightarrow> (Ok \<lparr>waitable = sch, task_result = r\<rparr>, s'))
    | _ \<Rightarrow> (Ok \<lparr>waitable = sch, task_result = Err (Status kUnknown [])\<rparr>, s))"

lemma Task_Get_RunAsync:
  assumes "RunAsync thread_based job s = (Ok t, s')"
  shows "Task_Get t = fst (job s) \<and> s' = snd (job s)"
  using assms
  by (auto simp: RunAsync_def thread_based_def Task_Get_def split: prod.splits outcome.splits)

section \<open>A pool of jobs\<close>

text \<open>
  A job runs on a thread of its own: it finishes with a value, or blocks on the future of
  another job and continues with its value. A job only knows futures that were created
  before it.
\<close>

datatype 'v job = Finish 'v | Await nat "'v \<Rightarrow> 'v job"

primrec awaits_below :: "nat \<Rightarrow> 'v job \<Rightarrow> bool" where
  "awaits_below n (Finish v) = True"
| "awaits_below n (Await d k) = (d < n \<and> (\<forall>v. awaits_below n (k v)))"

primrec run_job :: "'v list \<Rightarrow> 'v job \<Rightarrow> 'v" where
  "run_job env (Finish v) = v"
| "run_job env (Await d k) = run_job env (k (env ! d))"

text \<open>The values when each job runs to its end as soon as it is created.\<close>

fun eager_from :: "'v list \<Rightarrow> 'v job list \<Rightarrow> 'v list" where
  "eager_from env [] = env"
| "eager_from env (j # js) = eager_from (env @ [run_job env j]) js"

abbreviation eager :: "'v job list \<Rightarrow> 'v list" where
  "eager js \<equiv> eager_from [] js"

record 'v pool =
  to_spawn :: "'v job list"
  threads :: "'v job list"

text \<open>The main thread creates the next job, or some thread passes a wait that is over.\<close>

inductive pool_step :: "'v pool \<Rightarrow> 'v pool \<Rightarrow> bool" where
  spawn: "to_spawn p = j # js \<Longrightarrow>
    pool_step p (p\<lparr>to_spawn := js, threads := threads p @ [j]\<rparr>)"
| resume: "i < length (threads p) \<Longrightarrow> threads p ! i = Await d k \<Longrightarrow>
    d < length (threads p) \<Longrightarrow> threads p ! d = Finish v \<Longrightarrow>
    pool_step p (p\<lparr>threads := (threads p)[i := k v]\<rparr>)"

inductive_cases pool_stepE: "pool_step p q"

definition start :: "'v job list \<Rightarrow> 'v pool" where
  "start js = \<lparr>to_spawn = js, threads = []\<rparr>"

definition well_scoped :: "'v job list \<Rightarrow> bool" where
  "well_scoped js \<longleftrightarrow> (\<forall>i < length js. awaits_below i (js ! i))"

definition all_done :: "'v pool \<Rightarrow> bool" where
  "all_done p \<longleftrightarrow> to_spawn p = [] \<and> (\<forall>j \<in> set (threads p). \<exists>v. j = Finish v)"

lemma length_eager_from [simp]: "length (eager_from env js) = length env + length js"
  by (induction env js rule: eager_from.induct) simp_all

lemma eager_from_prefix: "i < length env \<Longrightarrow> eager_from env js ! i = env ! i"
  by (induction env js rule: eager_from.induct) (simp_all add: nth_append)

lemma run_job_cong:
  "awaits_below n j \<Longrightarrow> (\<And>i. i < n \<Longrightarrow> env ! i = env' ! i) \<Longrightarrow> run_job env j = run_job env' j"
  by (induction j) simp_all

lemma eager_from_nth:
  "i < length js \<Longrightarrow> awaits_below (length env + i) (js ! i) \<Longrightarrow>
   eager_from env js ! (length env + i) = run_job (eager_from env js) (js ! i)"
proof (induction js arbitrary: env i)
  case (Cons j js)
  show ?case
  proof (cases i)
    case 0
    then have "eager_from (env @ [run_job env j]) js ! length env = run_job env j"
      by (simp add: eager_from_prefix nth_append)
    moreover have "run_job env j = run_job (eager_from (env @ [run_job env j]) js) j"
      using Cons.prems 0
      by (intro run_job_cong [of "length env"]) (simp_all add: eager_from_prefix nth_append)
    ultimately show ?thesis using 0 by simp
  next
    case (Suc k)
    then show ?thesis using Cons.IH [of k "env @ [run_job env j]"] Cons.prems by simp
  qed
qed simp

text \<open>The number of waits a job still has to pass, given the values of all futures.\<close>

primrec waits :: "'v list \<Rightarrow> 'v job \<Rightarrow> nat" where
  "waits env (Finish v) = 0"
| "waits env (Await d k) = Suc (waits env (k (env ! d)))"

definition work :: "'v list \<Rightarrow> 'v pool \<Rightarrow> nat" where
  "work E p = length (to_spawn p) + sum_list (map (waits E) (threads p @ to_spawn p))"

definition pool_inv :: "'v job list \<Rightarrow> 'v pool \<Rightarrow> bool" where
  "pool_inv js p \<longleftrightarrow>
     (\<exists>n \<le> length js. to_spawn p = drop n js \<and> length (threads p) = n) \<and>
     (\<forall>i < length (threads p). awaits_below i (threads p ! i) \<and>
        run_job (eager js) (threads p ! i) = eager js ! i)"

lemma pool_inv_start: "pool_inv js (start js)"
  by (auto simp: pool_inv_def start_def)

lemma sum_list_waits_update:
  "i < length ts \<Longrightarrow> waits E (ts ! i) = Suc (waits E j) \<Longrightarrow>
   sum_list (map (waits E) (ts[i := j])) + 1 = sum_list (map (waits E) ts)"
proof (induction ts arbitrary: i)
  case (Cons t ts)
  then show ?case by (cases i) auto
qed simp

lemma pool_step_inv:
  assumes "pool_step p q" and "pool_inv js p" and "well_scoped js"
  shows "pool_inv js q \<and> work (eager js) p = Suc (work (eager js) q)"
  using assms(1)
proof (cases rule: pool_step.cases)
  case (spawn j js')
  obtain n where n: "n \<le> length js" "to_spawn p = drop n js" "length (threads p) = n"
    using assms(2) by (auto simp: pool_inv_def)
  have "drop n js \<noteq> []" using n spawn by (metis list.distinct(1))
  then have lt: "n < length js" by simp
  have "drop n js = js ! n # drop (Suc n) js" using lt by (simp add: Cons_nth_drop_Suc)
  then have j: "j = js ! n" and js': "js' = drop (Suc n) js"
    using n spawn by simp_all
  have "run_job (eager js) j = eager js ! n"
    using eager_from_nth [of n js "[]"] assms(3) lt j by (simp add: well_scoped_def)
  moreover have "awaits_below n j" using assms(3) lt j by (simp add: well_scoped_def)
  ultimately show ?thesis
    using assms(2) n lt js' spawn
    by (auto simp: pool_inv_def work_def nth_append less_Suc_eq)
next
  case (resume i d k v)
  have v: "v = eager js ! d" and inv: "awaits_below i (Await d k)"
    "run_job (eager js) (Await d k) = eager js ! i"
    using assms(2) resume by (auto simp: pool_inv_def)
  have "waits (eager js) (threads p ! i) = Suc (waits (eager js) (k v))"
    using resume v by simp
  from sum_list_waits_update [OF resume(2) this]
  have "work (eager js) p = Suc (work (eager js) q)"
    using resume by (simp add: work_def)
  moreover have "pool_inv js q"
    using assms(2) resume inv v by (auto simp: pool_inv_def nth_list_update)
  ultimately show ?thesis by simp
qed

lemma pool_progress:
  assumes "pool_inv js p" and "\<not> all_done p"
  shows "\<exists>q. pool_step p q"
proof (cases "to_spawn p")
  case (Cons j js')
  then show ?thesis by (blast intro: pool_step.spawn)
next
  case Nil
  let ?busy = "\<lambda>i. i < length (threads p) \<and> (\<forall>v. threads p ! i \<noteq> Finish v)"
  have "\<exists>i. ?busy i"
    using assms(2) Nil by (auto simp: all_done_def in_set_conv_nth)
  then obtain i where i: "?busy i" and least: "\<And>d. d < i \<Longrightarrow> \<not> ?busy d"
    using exists_least_iff [of ?busy] by blast
  obtain d k where a: "threads p ! i = Await d k"
    using i by (cases "threads p ! i") auto
  have "awaits_below i (threads p ! i)"
    using assms(1) i by (simp add: pool_inv_def)
  then have "d < i" using a by simp
  then have "d < length (threads p)" using i by simp
  with least [OF \<open>d < i\<close>] obtain v where v: "threads p ! d = Finish v" by blast
  show ?thesis
    using pool_step.resume [OF _ a \<open>d < length (threads p)\<close> v] i by blast
qed

lemma all_done_no_step: "all_done p \<Longrightarrow> \<not> pool_step p q"
  by (auto simp: all_done_def elim!: pool_stepE dest!: nth_mem)

lemma pool_run:
  assumes "(pool_step ^^ n) (start js) p" and "well_scoped js"
  shows "pool_inv js p \<and> work (eager js) (start js) = n + work (eager js) p"
  using assms(1)
proof (induction n arbitrary: p)
  case 0
  then show ?case by (auto simp: pool_inv_start)
next
  case (Suc n)
  then obtain m where m: "(pool_step ^^ n) (start js) m" "pool_step m p" by auto
  then show ?case using Suc.IH [OF m(1)] pool_step_inv [OF m(2) _ assms(2)] by simp
qed

lemma finished_eager:
  assumes "pool_inv js p" and "all_done p"
  shows "map (run_job []) (threads p) = eager js"
proof (rule nth_equalityI)
  have len: "length (threads p) = length js"
    using assms by (auto simp: pool_inv_def all_done_def)
  then show "length (map (run_job []) (threads p)) = length (eager js)" by simp
  fix i assume "i < length (map (run_job []) (threads p))"
  then have i: "i < length (threads p)" by simp
  then obtain v where "threads p ! i = Finish v"
    using assms(2) by (meson all_done_def nth_mem)
  moreover have "run_job (eager js) (threads p ! i) = eager js ! i"
    using assms(1) i by (simp add: pool_inv_def)
  ultimately show "map (run_job []) (threads p) ! i = eager js ! i" using i by simp
qed


definition sample_jobs :: "nat job list" where
  "sample_jobs = [Finish 5, Await 0 (\<lambda>v. Finish (v + 1))]"


section \<open>The callback tracker\<close>

text \<open>
  The members of \<open>CallbackTracker\<close>; the counters are read as integers (fewer than
  \<open>2 ^ 31\<close> callbacks). A waitable is named by the callback it waits for.
\<close>

record tracker =
  total_num_callbacks_scheduled :: int
  total_num_callbacks_completed :: int
  completed_early :: "int set"
  callbacks :: "int \<rightharpoonup> int"

definition new_tracker :: tracker where
  "new_tracker = \<lparr>total_num_callbacks_scheduled = 0, total_num_callbacks_completed = 0,
     completed_early = {}, callbacks = Map.empty\<rparr>"

definition GetNewCallbackId :: "tracker \<Rightarrow> int \<times> tracker" where
  "GetNewCallbackId t =
     (let n = total_num_callbacks_scheduled t + 1
      in (n, t\<lparr>total_num_callbacks_scheduled := n\<rparr>))"

definition RegisterCallback :: "int \<Rightarrow> int \<Rightarrow> tracker \<Rightarrow> tracker" where
  "RegisterCallback callback_id w t =
     (if callback_id \<in> completed_early t
      then t\<lparr>completed_early := completed_early t - {callback_id}\<rparr>
      else t\<lparr>callbacks := (callbacks t)(callback_id \<mapsto> w)\<rparr>)"

definition IgnoreCallback :: "int \<Rightarrow> tracker \<Rightarrow> tracker" where
  "IgnoreCallback callback_id t =
     t\<lparr>total_num_callbacks_completed := total_num_callbacks_completed t + 1\<rparr>"

text \<open>The part of \<open>RunCallback\<close> after the callback, under the lock.\<close>

definition RunCallback :: "int \<Rightarrow> tracker \<Rightarrow> tracker" where
  "RunCallback callback_id t =
     (let t' = (if callback_id \<in> dom (callbacks t)
                then t\<lparr>callbacks := (callbacks t)(callback_id := None)\<rparr>
                else t\<lparr>completed_early := insert callback_id (completed_early t)\<rparr>)
      in t'\<lparr>total_num_callbacks_completed := total_num_callbacks_completed t + 1\<rparr>)"

text \<open>
  One turn of \<open>WaitUntilAllCompleted\<close>: it returns OK, waits for some registered callback,
  or fails. \<open>pick\<close> is the first entry of the hash map.
\<close>

datatype wait_decision = AllCompleted | WaitFor int | NoWaitable status

definition WaitUntilAllCompleted_turn ::
  "((int \<rightharpoonup> int) \<Rightarrow> int) \<Rightarrow> tracker \<Rightarrow> wait_decision" where
  "WaitUntilAllCompleted_turn pick t =
     (let num_pending = total_num_callbacks_scheduled t - total_num_callbacks_completed t in
      if num_pending \<le> 0 then AllCompleted
      else if callbacks t \<noteq> Map.empty then WaitFor (the (callbacks t (pick (callbacks t))))
      else NoWaitable (Status kFailedPrecondition
        [Txt ''No waitable callbacks found; this potentially indicates that the wait attempt was made while activities were still being actively scheduled for execution.'']))"

text \<open>
  The life of one callback identifier. The thread that schedules it and the thread that
  runs it race: the callback may complete before it is registered.
\<close>

datatype phase = Requested | Submitted | CompletedEarly | Registered | Finished | Ignored

record tracker_system =
  tracker :: tracker
  phases :: "int \<rightharpoonup> phase"

inductive tracker_step :: "tracker_system \<Rightarrow> tracker_system \<Rightarrow> bool" where
  get_id: "GetNewCallbackId (tracker s) = (n, t) \<Longrightarrow>
    tracker_step s (s\<lparr>tracker := t, phases := (phases s)(n \<mapsto> Requested)\<rparr>)"
| schedule_ok: "phases s n = Some Requested \<Longrightarrow>
    tracker_step s (s\<lparr>phases := (phases s)(n \<mapsto> Submitted)\<rparr>)"
| schedule_failed: "phases s n = Some Requested \<Longrightarrow>
    tracker_step s (s\<lparr>tracker := IgnoreCallback n (tracker s), phases := (phases s)(n \<mapsto> Ignored)\<rparr>)"
| register: "phases s n = Some Submitted \<Longrightarrow>
    tracker_step s (s\<lparr>tracker := RegisterCallback n n (tracker s), phases := (phases s)(n \<mapsto> Registered)\<rparr>)"
| register_late: "phases s n = Some CompletedEarly \<Longrightarrow>
    tracker_step s (s\<lparr>tracker := RegisterCallback n n (tracker s), phases := (phases s)(n \<mapsto> Finished)\<rparr>)"
| run_early: "phases s n = Some Submitted \<Longrightarrow>
    tracker_step s (s\<lparr>tracker := RunCallback n (tracker s), phases := (phases s)(n \<mapsto> CompletedEarly)\<rparr>)"
| run: "phases s n = Some Registered \<Longrightarrow>
    tracker_step s (s\<lparr>tracker := RunCallback n (tracker s), phases := (phases s)(n \<mapsto> Finished)\<rparr>)"

definition tracker_start :: tracker_system where
  "tracker_start = \<lparr>tracker = new_tracker, phases = Map.empty\<rparr>"

definition is_completed :: "phase \<Rightarrow> bool" where
  "is_completed p \<longleftrightarrow> p \<in> {CompletedEarly, Finished, Ignored}"

definition completed_ids :: "(int \<rightharpoonup> phase) \<Rightarrow> int set" where
  "completed_ids ph = {n. \<exists>p. ph n = Some p \<and> is_completed p}"

definition tracker_inv :: "tracker_system \<Rightarrow> bool" where
  "tracker_inv s \<longleftrightarrow>
     dom (phases s) = {1..total_num_callbacks_scheduled (tracker s)} \<and>
     0 \<le> total_num_callbacks_scheduled (tracker s) \<and>
     total_num_callbacks_completed (tracker s) = int (card (completed_ids (phases s))) \<and>
     completed_early (tracker s) = {n. phases s n = Some CompletedEarly} \<and>
     (\<forall>n. callbacks (tracker s) n = (if phases s n = Some Registered then Some n else None))"

lemma tracker_inv_start: "tracker_inv tracker_start"
  by (simp add: tracker_inv_def tracker_start_def new_tracker_def completed_ids_def)

lemma completed_ids_upd:
  "completed_ids (ph(n \<mapsto> p)) =
     (if is_completed p then insert n (completed_ids ph) else completed_ids ph - {n})"
  by (auto simp: completed_ids_def)

lemma finite_completed_ids: "tracker_inv s \<Longrightarrow> finite (completed_ids (phases s))"
  by (rule finite_subset [of _ "dom (phases s)"]) (auto simp: completed_ids_def tracker_inv_def)

lemma completed_ids_iff:
  "phases s n = Some p \<Longrightarrow> n \<in> completed_ids (phases s) \<longleftrightarrow> is_completed p"
  by (simp add: completed_ids_def)

lemmas tracker_defs =
  GetNewCallbackId_def RegisterCallback_def IgnoreCallback_def RunCallback_def Let_def

lemma tracker_step_inv:
  assumes "tracker_step s s'" and inv: "tracker_inv s"
  shows "tracker_inv s'"
  using assms(1)
proof (cases rule: tracker_step.cases)
  case (get_id n t)
  have n: "n = total_num_callbacks_scheduled (tracker s) + 1"
    and t: "t = (tracker s)\<lparr>total_num_callbacks_scheduled := n\<rparr>"
    using get_id by (auto simp: tracker_defs)
  have "n \<notin> dom (phases s)" using inv n by (simp add: tracker_inv_def)
  then have none: "phases s n = None" by blast
  then have "n \<notin> completed_ids (phases s)" by (simp add: completed_ids_def)
  then show ?thesis
    using inv none unfolding get_id(1) t
    by (auto simp: tracker_inv_def completed_ids_upd is_completed_def n)
next
  case (schedule_ok n)
  then show ?thesis
    using inv completed_ids_iff [OF schedule_ok(2)]
    by (auto simp: tracker_inv_def completed_ids_upd is_completed_def)
next
  case (schedule_failed n)
  then show ?thesis
    using inv completed_ids_iff [OF schedule_failed(2)] finite_completed_ids [OF inv]
    by (auto simp: tracker_inv_def tracker_defs completed_ids_upd is_completed_def)
next
  case (register n)
  then show ?thesis
    using inv completed_ids_iff [OF register(2)]
    by (auto simp: tracker_inv_def tracker_defs completed_ids_upd is_completed_def)
next
  case (register_late n)
  then show ?thesis
    using inv completed_ids_iff [OF register_late(2)]
    by (auto simp: tracker_inv_def tracker_defs completed_ids_upd is_completed_def insert_absorb)
next
  case (run_early n)
  then show ?thesis
    using inv completed_ids_iff [OF run_early(2)] finite_completed_ids [OF inv]
    by (auto simp: tracker_inv_def tracker_defs completed_ids_upd is_completed_def)
next
  case (run n)
  then show ?thesis
    using inv completed_ids_iff [OF run(2)] finite_completed_ids [OF inv]
    by (auto simp: tracker_inv_def tracker_defs completed_ids_upd is_completed_def)
qed

lemma tracker_reachable_inv: "tracker_step\<^sup>*\<^sup>* tracker_start s \<Longrightarrow> tracker_inv s"
  by (induction rule: rtranclp_induct) (auto simp: tracker_inv_start intro: tracker_step_inv)


definition sample_tracked :: tracker_system where
  "sample_tracked = \<lparr>tracker = \<lparr>total_num_callbacks_scheduled = 1, total_num_callbacks_completed = 0,
     completed_early = {}, callbacks = [1 \<mapsto> 1]\<rparr>, phases = [1 \<mapsto> Registered]\<rparr>"


end
