(* ===== verification/Inline_Executor.thy ===== *)
theory Inline_Executor
  imports Inline_Intrinsics Concurrency
begin

text \<open>
  \<^verbatim>\<open>genc/cc/runtime/inline_executor.cc\<close>: the executor that runs inline intrinsics. Its
  values are futures; each operation schedules a job that waits for the futures it is
  given. The sub-state is the process.
\<close>

section \<open>The methods\<close>

type_synonym ValueFuture = "pvalue task"

definition Wait :: "ValueFuture \<Rightarrow> ('w process, pvalue) prog" where
  "Wait value_future = lift (Task_Get value_future)"

definition Inline_CreateExecutorValue ::
  "schedule \<Rightarrow> pvalue \<Rightarrow> ('w process, ValueFuture) prog" where
  "Inline_CreateExecutorValue sch val_pb = RunAsync sch (return val_pb)"

definition Inline_Materialize :: "ValueFuture \<Rightarrow> bool \<Rightarrow> ('w process, pvalue option) prog" where
  "Inline_Materialize value_future want =
     GENC_TRY (Wait value_future) (\<lambda>v. return (if want then Some v else None))"

text \<open>The body of the job of a call, once both values are there.\<close>

definition run_intrinsic ::
  "'w IntrinsicHandlerSet \<Rightarrow> 'c libs \<Rightarrow> pvalue \<Rightarrow> pvalue \<Rightarrow> ('w process, pvalue) prog" where
  "run_intrinsic hs lib fn arg =
     (if \<not> has_intrinsic fn
      then lift (InvalidArgumentError [Txt ''Unsupported function type: '', DebugString fn])
      else
        let intr_pb = intrinsic fn in
        GENC_TRY (lift (GetHandler hs (uri intr_pb))) (\<lambda>h.
        GENC_TRY (lift (CheckWellFormed h intr_pb)) (\<lambda>_.
        GENC_TRY (lift (GetInlineInterface h)) (\<lambda>interface.
        inline_ExecuteCall lib interface intr_pb arg empty_value))))"

definition Inline_CreateCall ::
  "'w IntrinsicHandlerSet \<Rightarrow> 'c libs \<Rightarrow> schedule \<Rightarrow> ValueFuture \<Rightarrow> ValueFuture option
     \<Rightarrow> ('w process, ValueFuture) prog" where
  "Inline_CreateCall hs lib sch func_future arg_future = (case arg_future of
      None \<Rightarrow> lift (InvalidArgumentError [Txt ''An argument is always required.''])
    | Some argument \<Rightarrow>
        RunAsync sch
          (GENC_TRY (Wait func_future) (\<lambda>fn.
           GENC_TRY (Wait argument) (\<lambda>arg. run_intrinsic hs lib fn arg))))"

definition Inline_CreateStruct ::
  "schedule \<Rightarrow> ValueFuture list \<Rightarrow> ('w process, ValueFuture) prog" where
  "Inline_CreateStruct sch member_futures =
     RunAsync sch (GENC_TRY (map_try Wait member_futures) (\<lambda>vals. return (plain (KStruct vals))))"

definition select_element :: "u32 \<Rightarrow> pvalue \<Rightarrow> pvalue outcome" where
  "select_element index v =
     (if \<not> has_struct v then InvalidArgumentError [Txt ''Not a struct: '', DebugString v]
      else if length (struct_elements v) \<le> unat index
      then Err (Status kOutOfRange [Txt ''Selection index out of bounds.''])
      else Ok (struct_elements v ! unat index))"

definition Inline_CreateSelection ::
  "schedule \<Rightarrow> ValueFuture \<Rightarrow> u32 \<Rightarrow> ('w process, ValueFuture) prog" where
  "Inline_CreateSelection sch value_future index =
     RunAsync sch (GENC_TRY (Wait value_future) (\<lambda>v. lift (select_element index v)))"

definition InlineExecutor ::
  "'w IntrinsicHandlerSet \<Rightarrow> 'c libs \<Rightarrow> schedule \<Rightarrow> (ValueFuture, 'w process) executor_impl" where
  "InlineExecutor hs lib sch = \<lparr>
     executor_name = ''InlineExecutor'',
     impl_create_value = Inline_CreateExecutorValue sch,
     impl_create_call = Inline_CreateCall hs lib sch,
     impl_create_struct = Inline_CreateStruct sch,
     impl_create_selection = Inline_CreateSelection sch,
     impl_materialize = Inline_Materialize\<rparr>"

definition CreateInlineExecutor ::
  "'w IntrinsicHandlerSet \<Rightarrow> 'c libs \<Rightarrow> schedule
     \<Rightarrow> (ValueId, (ValueFuture, 'w process) base_state) executor" where
  "CreateInlineExecutor hs lib sch = ExecutorBase (InlineExecutor hs lib sch)"

lemma InlineExecutor_sel [simp]:
  "executor_name (InlineExecutor hs lib sch) = ''InlineExecutor''"
  "impl_create_value (InlineExecutor hs lib sch) = Inline_CreateExecutorValue sch"
  "impl_create_call (InlineExecutor hs lib sch) = Inline_CreateCall hs lib sch"
  "impl_create_struct (InlineExecutor hs lib sch) = Inline_CreateStruct sch"
  "impl_create_selection (InlineExecutor hs lib sch) = Inline_CreateSelection sch"
  "impl_materialize (InlineExecutor hs lib sch) = Inline_Materialize"
  by (simp_all add: InlineExecutor_def)

section \<open>Values that do not depend on the process\<close>

definition stateless :: "('w process, 'a) prog \<Rightarrow> bool" where
  "stateless p \<longleftrightarrow> (\<forall>s t. fst (p s) = fst (p t))"

lemma statelessD: "stateless p \<Longrightarrow> fst (p s) = fst (p t)"
  by (simp add: stateless_def)

lemma stateless_return [simp, intro]: "stateless (return x)"
  by (simp add: stateless_def return_def)

lemma stateless_lift [simp, intro]: "stateless (lift r)"
  by (simp add: stateless_def lift_def)

lemma stateless_try [intro!]:
  assumes "stateless p" and "\<And>x. stateless (k x)"
  shows "stateless (GENC_TRY p k)"
proof -
  have "fst (GENC_TRY p k s) = fst (GENC_TRY p k t)" for s t
    using statelessD [OF assms(1), of s t] statelessD [OF assms(2)]
    by (auto simp: GENC_TRY_apply split: prod.splits outcome.splits)
  then show ?thesis by (simp add: stateless_def)
qed

lemma stateless_Pair [simp]: "stateless (Pair r)"
  by (simp add: stateless_def)

text \<open>
  The built-in handlers give the same value whatever the console shows. The functions of
  the application do when they keep no memory.
\<close>

fun stateless_handler :: "'w handler \<Rightarrow> bool" where
  "stateless_handler (CustomFunction m) = (\<forall>u f v. m u = Some f \<longrightarrow> stateless (f v))"
| "stateless_handler (ModelInference m) = (\<forall>u f v. m u = Some f \<longrightarrow> stateless (f v))"
| "stateless_handler (ModelInferenceWithConfig m) = (\<forall>u f i v. m u = Some f \<longrightarrow> stateless (f i v))"
| "stateless_handler (CustomInline u chk f) = (\<forall>i v r. stateless (f i v r))"
| "stateless_handler h = True"

definition stateless_handlers :: "'w IntrinsicHandlerSet \<Rightarrow> bool" where
  "stateless_handlers hs \<longleftrightarrow> (\<forall>u h. hs u = Some h \<longrightarrow> stateless_handler h)"

lemma inline_stateless:
  assumes "stateless_handler h"
  shows "stateless (inline_ExecuteCall lib h i arg result)"
proof (cases h)
  case Logger
  then show ?thesis by (simp add: stateless_def Logger_ExecuteCall_def Let_def)
next
  case (ConfidentialComputation c)
  then show ?thesis
    by (cases c) (auto simp: ConfidentialComputation_ExecuteCall_def Let_def split: prod.split)
qed (use assms in \<open>auto simp: LogicalNot_ExecuteCall_def RegexPartialMatch_ExecuteCall_def
      PromptTemplate_ExecuteCall_def PromptTemplateWithParameters_ExecuteCall_def
      CustomFunction_ExecuteCall_def ModelInference_ExecuteCall_def
      ModelInferenceWithConfig_ExecuteCall_def RestCall_ExecuteCall_def InjaTemplate_ExecuteCall_def
      WolframAlpha_ExecuteCall_def Let_def split: option.split prod.split\<close>)

lemma run_intrinsic_stateless:
  assumes "stateless_handlers hs"
  shows "stateless (run_intrinsic hs lib fn arg)"
proof (cases "has_intrinsic fn \<and> (\<exists>h. GetHandler hs (uri (intrinsic fn)) = Ok h)")
  case True
  then obtain h where h: "GetHandler hs (uri (intrinsic fn)) = Ok h" and fn: "has_intrinsic fn" by auto
  then have "stateless_handler h" using assms GetHandler_Ok [OF h] by (auto simp: stateless_handlers_def)
  then have "stateless_handler h'" if "GetInlineInterface h = Ok h'" for h'
    using that by (auto simp: GetInlineInterface_def split: if_splits)
  then show ?thesis
    unfolding run_intrinsic_def Let_def using h fn
    by (cases "GetInlineInterface h") (auto simp: lift_Ok intro: inline_stateless)
next
  case False
  then show ?thesis
    by (cases "GetHandler hs (uri (intrinsic fn))") (auto simp: run_intrinsic_def Let_def)
qed

section \<open>The jobs behind the futures\<close>

text \<open>
  A sequence of operations of the executor that refer to earlier futures by position, the
  job each operation schedules, and the run of the operations through the methods above.
\<close>

datatype inline_op =
    OpValue pvalue
  | OpCall nat nat
  | OpStruct "nat list"
  | OpSelection nat u32

primrec await_all :: "nat list \<Rightarrow> pvalue list \<Rightarrow> pvalue outcome job" where
  "await_all [] acc = Finish (Ok (plain (KStruct acc)))"
| "await_all (m # ms) acc =
     Await m (\<lambda>r. case r of Ok v \<Rightarrow> await_all ms (acc @ [v]) | _ \<Rightarrow> Finish r)"

fun op_job ::
  "'w process \<Rightarrow> 'w IntrinsicHandlerSet \<Rightarrow> 'c libs \<Rightarrow> inline_op \<Rightarrow> pvalue outcome job" where
  "op_job s hs lib (OpValue v) = Finish (Ok v)"
| "op_job s hs lib (OpCall f a) =
     Await f (\<lambda>rf. case rf of
        Ok fn \<Rightarrow> Await a (\<lambda>ra. Finish (try_value ra (\<lambda>arg. fst (run_intrinsic hs lib fn arg s))))
      | _ \<Rightarrow> Finish rf)"
| "op_job s hs lib (OpStruct ms) = await_all ms []"
| "op_job s hs lib (OpSelection f i) = Await f (\<lambda>r. Finish (try_value r (select_element i)))"

fun op_futures :: "inline_op \<Rightarrow> nat list" where
  "op_futures (OpValue v) = []"
| "op_futures (OpCall f a) = [f, a]"
| "op_futures (OpStruct ms) = ms"
| "op_futures (OpSelection s i) = [s]"

fun run_op ::
  "'w IntrinsicHandlerSet \<Rightarrow> 'c libs \<Rightarrow> ValueFuture list \<Rightarrow> inline_op \<Rightarrow> ('w process, ValueFuture) prog" where
  "run_op hs lib ts (OpValue v) = Inline_CreateExecutorValue thread_based v"
| "run_op hs lib ts (OpCall f a) = Inline_CreateCall hs lib thread_based (ts ! f) (Some (ts ! a))"
| "run_op hs lib ts (OpStruct ms) = Inline_CreateStruct thread_based (map (nth ts) ms)"
| "run_op hs lib ts (OpSelection s i) = Inline_CreateSelection thread_based (ts ! s) i"

fun run_ops ::
  "'w IntrinsicHandlerSet \<Rightarrow> 'c libs \<Rightarrow> ValueFuture list \<Rightarrow> inline_op list
     \<Rightarrow> ('w process, ValueFuture list) prog" where
  "run_ops hs lib ts [] = return ts"
| "run_ops hs lib ts (op # ops) =
     GENC_TRY (run_op hs lib ts op) (\<lambda>t. run_ops hs lib (ts @ [t]) ops)"

definition in_scope :: "nat \<Rightarrow> inline_op list \<Rightarrow> bool" where
  "in_scope n ops \<longleftrightarrow> (\<forall>i < length ops. \<forall>f \<in> set (op_futures (ops ! i)). f < n + i)"

lemma awaits_below_await_all: "\<forall>m \<in> set ms. m < n \<Longrightarrow> awaits_below n (await_all ms acc)"
  by (induction ms arbitrary: acc) (auto split: outcome.split)

lemma awaits_below_op_job: "\<forall>f \<in> set (op_futures op). f < n \<Longrightarrow> awaits_below n (op_job s hs lib op)"
  by (cases op) (auto simp: awaits_below_await_all split: outcome.split)

lemma well_scoped_ops: "in_scope 0 ops \<Longrightarrow> well_scoped (map (op_job s hs lib) ops)"
  by (auto simp: well_scoped_def in_scope_def intro: awaits_below_op_job)

lemma run_await_all:
  "\<forall>m \<in> set ms. m < length ts \<Longrightarrow>
   run_job (map Task_Get ts) (await_all ms acc) =
     fst (GENC_TRY (map_try Wait (map (nth ts) ms)) (\<lambda>vals. return (plain (KStruct (acc @ vals)))) out)"
proof (induction ms arbitrary: acc)
  case Nil
  then show ?case by (simp add: run_simps)
next
  case (Cons m ms)
  then show ?case
    by (cases "Task_Get (ts ! m)") (simp_all add: Wait_def GENC_TRY_assoc lift_apply)
qed

lemma run_op_job:
  assumes "stateless_handlers hs" and "\<forall>f \<in> set (op_futures op). f < length ts" and "run_op hs lib ts op out = (Ok t, out')"
  shows "Task_Get t = run_job (map Task_Get ts) (op_job s hs lib op)"
proof (cases op)
  case (OpValue v)
  then show ?thesis using assms(3) Task_Get_RunAsync
    by (fastforce simp: Inline_CreateExecutorValue_def return_apply)
next
  case (OpCall f a)
  have ind: "fst (run_intrinsic hs lib fn arg out) = fst (run_intrinsic hs lib fn arg s)" for fn arg
    by (rule statelessD [OF run_intrinsic_stateless [OF assms(1)]])
  have "RunAsync thread_based
      (GENC_TRY (Wait (ts ! f)) (\<lambda>fn. GENC_TRY (Wait (ts ! a)) (\<lambda>arg. run_intrinsic hs lib fn arg))) out
      = (Ok t, out')"
    using assms(3) OpCall by (simp add: Inline_CreateCall_def)
  from Task_Get_RunAsync [OF this] show ?thesis
    using OpCall assms(2) ind
    by (cases "Task_Get (ts ! f)"; cases "Task_Get (ts ! a)") (simp_all add: Wait_def lift_apply)
next
  case (OpStruct ms)
  have "RunAsync thread_based (GENC_TRY (map_try Wait (map (nth ts) ms))
      (\<lambda>vals. return (plain (KStruct vals)))) out = (Ok t, out')"
    using assms(3) OpStruct by (simp add: Inline_CreateStruct_def)
  from Task_Get_RunAsync [OF this] show ?thesis
    using OpStruct assms(2) run_await_all [of ms ts "[]" out] by simp
next
  case (OpSelection f i)
  have "RunAsync thread_based (GENC_TRY (Wait (ts ! f)) (\<lambda>v. lift (select_element i v))) out = (Ok t, out')"
    using assms(3) OpSelection by (simp add: Inline_CreateSelection_def)
  from Task_Get_RunAsync [OF this] show ?thesis
    using OpSelection assms(2) by (cases "Task_Get (ts ! f)") (simp_all add: Wait_def lift_apply)
qed

lemma run_ops_eager:
  assumes "stateless_handlers hs" and "in_scope (length ts) ops" and "run_ops hs lib ts ops out = (Ok us, out')"
  shows "map Task_Get us = eager_from (map Task_Get ts) (map (op_job s hs lib) ops)"
  using assms(2-)
proof (induction ops arbitrary: ts out)
  case Nil
  then show ?case by (simp add: return_apply)
next
  case (Cons op ops)
  obtain t out1 where t: "run_op hs lib ts op out = (Ok t, out1)"
    and rest: "run_ops hs lib (ts @ [t]) ops out1 = (Ok us, out')"
    using Cons.prems(2) by (auto simp: GENC_TRY_eq_Ok)
  have "\<forall>f \<in> set (op_futures op). f < length ts"
    using Cons.prems(1) by (fastforce simp: in_scope_def)
  note get = run_op_job [OF assms(1) this t]
  have "in_scope (length (ts @ [t])) ops"
    using Cons.prems(1) unfolding in_scope_def by (metis (no_types, lifting) Suc_less_eq
        add_Suc_right add_Suc_shift length_append_singleton length_Cons nth_Cons_Suc)
  from Cons.IH [OF this rest] get show ?case by simp
qed


definition sample_inline_ops :: "inline_op list" where
  "sample_inline_ops = [OpValue (plain (KBoolean True))]"


end
