(* ===== verification/Simulation.thy ===== *)
theory Simulation
  imports Fuel Inline_Executor
begin

text \<open>
  A relational logic between two runs of the same program: over the table of tracked
  values that \<open>ExecutorBase\<close> keeps, where handles are numbers, and over an executor whose
  handles are the values themselves. It carries the proof that the table is an
  implementation detail.
\<close>

section \<open>The executor without a table\<close>

text \<open>
  The state counts down the values that may still be created; when the budget is spent
  the run has no outcome.
\<close>

definition counted :: "('s, 'a) prog \<Rightarrow> (nat \<times> 's, 'a) prog" where
  "counted p = (\<lambda>(k, s). case p s of
      (Ok x, s') \<Rightarrow> if k = 0 then (Diverge, (k, s')) else (Ok x, (k - 1, s'))
    | (r, s') \<Rightarrow> (r, (k, s')))"

definition uncounted :: "('s, 'a) prog \<Rightarrow> (nat \<times> 's, 'a) prog" where
  "uncounted p = (\<lambda>(k, s). case p s of (r, s') \<Rightarrow> (r, (k, s')))"

definition direct :: "('v, 's) executor_impl \<Rightarrow> ('v, nat \<times> 's) executor" where
  "direct impl = \<lparr>
     create_value = (\<lambda>v. counted (impl_create_value impl v)),
     create_call = (\<lambda>f a. counted (impl_create_call impl f a)),
     create_struct = (\<lambda>ms. counted (impl_create_struct impl ms)),
     create_selection = (\<lambda>v i. counted (impl_create_selection impl v i)),
     materialize = (\<lambda>v want. uncounted (impl_materialize impl v want)),
     dispose = (\<lambda>v. return ())\<rparr>"

lemma direct_sel [simp]:
  "create_value (direct impl) v = counted (impl_create_value impl v)"
  "create_call (direct impl) f a = counted (impl_create_call impl f a)"
  "create_struct (direct impl) ms = counted (impl_create_struct impl ms)"
  "create_selection (direct impl) u i = counted (impl_create_selection impl u i)"
  "materialize (direct impl) u w = uncounted (impl_materialize impl u w)"
  "dispose (direct impl) u = return ()"
  by (simp_all add: direct_def)

section \<open>Related states and simulated programs\<close>

type_synonym 'v table = "ValueId \<rightharpoonup> 'v"

definition st_rel :: "('v, 's) base_state \<Rightarrow> nat \<times> 's \<Rightarrow> bool" where
  "st_rel b c \<longleftrightarrow> tracked_inv b \<and> unat (next_value_id b) + fst c < 2 ^ 64 \<and> sub_state b = snd c"

text \<open>
  Whenever the program without the table has an outcome, the program with the table has a
  related one, from every pair of related states whose table extends the given one.
\<close>

definition sim ::
  "'v table \<Rightarrow> ('v table \<Rightarrow> 'a \<Rightarrow> 'b \<Rightarrow> bool) \<Rightarrow> (('v, 's) base_state, 'a) prog \<Rightarrow> (nat \<times> 's, 'b) prog \<Rightarrow> bool" where
  "sim m R p q \<longleftrightarrow> (\<forall>b c. st_rel b c \<longrightarrow> m \<subseteq>\<^sub>m tracked_values b \<longrightarrow> fst (q c) \<noteq> Diverge \<longrightarrow>
     st_rel (snd (p b)) (snd (q c)) \<and> tracked_values b \<subseteq>\<^sub>m tracked_values (snd (p b)) \<and>
     rel_outcome (R (tracked_values (snd (p b)))) (fst (p b)) (fst (q c)))"

definition kripke :: "('v table \<Rightarrow> 'a \<Rightarrow> 'b \<Rightarrow> bool) \<Rightarrow> bool" where
  "kripke R \<longleftrightarrow> (\<forall>m m' x y. m \<subseteq>\<^sub>m m' \<longrightarrow> R m x y \<longrightarrow> R m' x y)"

lemma kripkeD: "kripke R \<Longrightarrow> m \<subseteq>\<^sub>m m' \<Longrightarrow> R m x y \<Longrightarrow> R m' x y"
  by (auto simp: kripke_def)

lemma kripke_eq [simp]: "kripke (\<lambda>m. (=))"
  by (simp add: kripke_def)

lemma kripke_list [simp]: "kripke R \<Longrightarrow> kripke (\<lambda>m. list_all2 (R m))"
  unfolding kripke_def by (metis (full_types) list_all2_mono)

lemma kripke_option [simp]: "kripke R \<Longrightarrow> kripke (\<lambda>m. rel_option (R m))"
  unfolding kripke_def by (metis (full_types) option.rel_mono_strong)

lemma simD:
  assumes "sim m R p q" and "st_rel b c" and "m \<subseteq>\<^sub>m tracked_values b" and "fst (q c) \<noteq> Diverge"
  obtains r b' r' c' where "p b = (r, b')" and "q c = (r', c')" and "st_rel b' c'"
    and "tracked_values b \<subseteq>\<^sub>m tracked_values b'" and "rel_outcome (R (tracked_values b')) r r'"
  using assms unfolding sim_def by (metis prod.collapse)

lemma sim_mono: "sim m R p q \<Longrightarrow> m \<subseteq>\<^sub>m m' \<Longrightarrow> sim m' R p q"
  unfolding sim_def by (meson map_le_trans)

lemma sim_weaken:
  "sim m R p q \<Longrightarrow> (\<And>m' x y. m \<subseteq>\<^sub>m m' \<Longrightarrow> R m' x y \<Longrightarrow> S m' x y) \<Longrightarrow> sim m S p q"
  unfolding sim_def by (blast intro: outcome.rel_mono_strong map_le_trans)

named_theorems sim_intros "rules of the simulation logic"

lemma sim_return [sim_intros]: "kripke R \<Longrightarrow> R m x y \<Longrightarrow> sim m R (return x) (return y)"
  by (auto simp: sim_def return_def intro: kripkeD)

lemma sim_lift_same [sim_intros]: "sim m (\<lambda>m. (=)) (lift r) (lift r)"
  by (auto simp: sim_def lift_def outcome.rel_eq)

lemma sim_lift_Err [sim_intros]: "sim m R (lift (Err e)) (lift (Err e))"
  and sim_lift_Crash [sim_intros]: "sim m R (lift (Crash c)) (lift (Crash c))"
  and sim_lift_Diverge [sim_intros]: "sim m R p (lift Diverge)"
  by (auto simp: sim_def lift_def)

lemma sim_try [sim_intros]:
  assumes p: "sim m R p q"
    and k: "\<And>m' x y. m \<subseteq>\<^sub>m m' \<Longrightarrow> R m' x y \<Longrightarrow> sim m' S (k x) (l y)"
  shows "sim m S (GENC_TRY p k) (GENC_TRY q l)"
  unfolding sim_def
proof (intro allI impI)
  fix b c
  assume st: "st_rel b c" and ext: "m \<subseteq>\<^sub>m tracked_values b" and nd: "fst (GENC_TRY q l c) \<noteq> Diverge"
  then have "fst (q c) \<noteq> Diverge" by (auto simp: GENC_TRY_apply split: prod.splits)
  with simD [OF p st ext] obtain r b' r' c' where pb: "p b = (r, b')" and qc: "q c = (r', c')"
    and st': "st_rel b' c'" and le: "tracked_values b \<subseteq>\<^sub>m tracked_values b'"
    and rel: "rel_outcome (R (tracked_values b')) r r'" by blast
  show "st_rel (snd (GENC_TRY p k b)) (snd (GENC_TRY q l c)) \<and>
      tracked_values b \<subseteq>\<^sub>m tracked_values (snd (GENC_TRY p k b)) \<and>
      rel_outcome (S (tracked_values (snd (GENC_TRY p k b)))) (fst (GENC_TRY p k b)) (fst (GENC_TRY q l c))"
  proof (cases r')
    case (Ok y)
    with rel obtain x where x: "r = Ok x" "R (tracked_values b') x y" by (cases r) auto
    have s: "sim (tracked_values b') S (k x) (l y)"
      using k [OF map_le_trans [OF ext le] x(2)] .
    have "fst (l y c') \<noteq> Diverge" using nd qc Ok by (simp add: GENC_TRY_apply)
    with simD [OF s st' map_le_refl] le show ?thesis
      using pb qc Ok x(1) by (simp add: GENC_TRY_apply) (metis fst_conv map_le_trans snd_conv)
  qed (use rel pb qc st' le nd in \<open>cases r; auto simp: GENC_TRY_apply\<close>)+
qed

lemma sim_map_try [sim_intros]:
  assumes "list_all2 (P m) xs ys" and "kripke P" and "kripke R"
    and "\<And>m' x y. m \<subseteq>\<^sub>m m' \<Longrightarrow> P m' x y \<Longrightarrow> sim m' R (f x) (g y)"
  shows "sim m (\<lambda>m. list_all2 (R m)) (map_try f xs) (map_try g ys)"
  using assms(1,4)
proof (induction xs arbitrary: m ys)
  case Nil
  then show ?case using assms(3) by (auto intro!: sim_return)
next
  case (Cons x xs)
  then obtain y ys' where ys: "ys = y # ys'" "P m x y" "list_all2 (P m) xs ys'"
    by (auto simp: list_all2_Cons1)
  have "sim m R (f x) (g y)" by (rule Cons.prems(2) [OF map_le_refl ys(2)])
  moreover have "sim m1 (\<lambda>m. list_all2 (R m)) (GENC_TRY (map_try f xs) (\<lambda>zs. return (u # zs)))
      (GENC_TRY (map_try g ys') (\<lambda>zs. return (w # zs)))" if "m \<subseteq>\<^sub>m m1" "R m1 u w" for m1 u w
  proof (rule sim_try)
    have "list_all2 (P m1) xs ys'"
      using ys(3) kripke_list [OF assms(2)] that(1) by (auto dest: kripkeD)
    then show "sim m1 (\<lambda>m. list_all2 (R m)) (map_try f xs) (map_try g ys')"
      using Cons.prems(2) that(1) by (intro Cons.IH) (meson map_le_trans)+
    fix m2 us ws
    assume "m1 \<subseteq>\<^sub>m m2" "list_all2 (R m2) us ws"
    then show "sim m2 (\<lambda>m. list_all2 (R m)) (return (u # us)) (return (w # ws))"
      using that(2) assms(3) kripke_list [OF assms(3)] by (intro sim_return) (auto dest: kripkeD)
  qed
  ultimately show ?case unfolding ys(1) map_try.simps by (rule sim_try)
qed

lemma sim_fold_try:
  assumes "list_all2 (P m) xs ys" and "kripke P" and "kripke R" and "R m u w"
    and "\<And>m' x y u w. m \<subseteq>\<^sub>m m' \<Longrightarrow> P m' x y \<Longrightarrow> R m' u w \<Longrightarrow> sim m' R (f x u) (g y w)"
  shows "sim m R (fold_try f xs u) (fold_try g ys w)"
  using assms(1,4,5)
proof (induction xs arbitrary: m ys u w)
  case Nil
  then show ?case using assms(3) by (auto intro!: sim_return)
next
  case (Cons x xs)
  then obtain y ys' where ys: "ys = y # ys'" "P m x y" "list_all2 (P m) xs ys'"
    by (auto simp: list_all2_Cons1)
  have "sim m R (f x u) (g y w)" by (rule Cons.prems(3) [OF map_le_refl ys(2) Cons.prems(2)])
  moreover have "sim m1 R (fold_try f xs u1) (fold_try g ys' w1)" if "m \<subseteq>\<^sub>m m1" "R m1 u1 w1" for m1 u1 w1
  proof (rule Cons.IH)
    show "list_all2 (P m1) xs ys'"
      using ys(3) kripke_list [OF assms(2)] that(1) by (auto dest: kripkeD)
  qed (use that Cons.prems(3) in \<open>blast intro: map_le_trans\<close>)+
  ultimately show ?case unfolding ys(1) fold_try.simps by (rule sim_try)
qed

lemma sim_with_suffix [sim_intros]: "sim m R p q \<Longrightarrow> sim m R (with_suffix t p) (with_suffix t q)"
  unfolding sim_def with_suffix_def
  by (fastforce split: prod.splits outcome.splits elim: outcome.rel_cases)

lemma sim_otherwise [sim_intros]:
  assumes p: "sim m R p q" and k: "\<And>m' e. m \<subseteq>\<^sub>m m' \<Longrightarrow> sim m' R (k e) (l e)"
  shows "sim m R (otherwise p k) (otherwise q l)"
  unfolding sim_def
proof (intro allI impI)
  fix b c
  assume st: "st_rel b c" and ext: "m \<subseteq>\<^sub>m tracked_values b" and nd: "fst (otherwise q l c) \<noteq> Diverge"
  then have "fst (q c) \<noteq> Diverge" by (auto simp: otherwise_def split: prod.splits)
  with simD [OF p st ext] obtain r b' r' c' where pb: "p b = (r, b')" and qc: "q c = (r', c')"
    and st': "st_rel b' c'" and le: "tracked_values b \<subseteq>\<^sub>m tracked_values b'"
    and rel: "rel_outcome (R (tracked_values b')) r r'" by blast
  show "st_rel (snd (otherwise p k b)) (snd (otherwise q l c)) \<and>
      tracked_values b \<subseteq>\<^sub>m tracked_values (snd (otherwise p k b)) \<and>
      rel_outcome (R (tracked_values (snd (otherwise p k b)))) (fst (otherwise p k b)) (fst (otherwise q l c))"
  proof (cases r')
    case (Err e)
    with rel have r: "r = Err e" by (cases r) auto
    have s: "sim (tracked_values b') R (k e) (l e)" using k [OF map_le_trans [OF ext le]] .
    have "fst (l e c') \<noteq> Diverge" using nd qc Err by (simp add: otherwise_def)
    with simD [OF s st' map_le_refl] le show ?thesis
      using pb qc Err r by (simp add: otherwise_def) (metis fst_conv map_le_trans snd_conv)
  qed (use rel pb qc st' le nd in \<open>cases r; auto simp: otherwise_def\<close>)+
qed

section \<open>The operations of the table\<close>

definition tracks :: "'v table \<Rightarrow> ValueId \<Rightarrow> 'v \<Rightarrow> bool" where
  "tracks m h v \<longleftrightarrow> m h = Some v"

lemma kripke_tracks [simp]: "kripke tracks"
  by (auto simp: kripke_def tracks_def intro: map_leD)

text \<open>Tracking after a step of the subclass: the new handle is fresh.\<close>

lemma track_counted:
  assumes "st_rel b c" and "fst (counted p c) \<noteq> Diverge"
  shows "st_rel (snd (GENC_TRY (in_sub p) TrackValue b)) (snd (counted p c)) \<and>
    tracked_values b \<subseteq>\<^sub>m tracked_values (snd (GENC_TRY (in_sub p) TrackValue b)) \<and>
    rel_outcome (\<lambda>h v. tracks (tracked_values (snd (GENC_TRY (in_sub p) TrackValue b))) h v
        \<and> tracked_values b h = None)
      (fst (GENC_TRY (in_sub p) TrackValue b)) (fst (counted p c))"
proof -
  obtain k s where c: "c = (k, s)" by (cases c)
  obtain r s' where r: "p s = (r, s')" by (cases "p s")
  have sub: "sub_state b = s" and inv: "tracked_inv b" and bound: "unat (next_value_id b) + k < 2 ^ 64"
    using assms(1) c by (simp_all add: st_rel_def)
  show ?thesis
  proof (cases r)
    case (Ok x)
    then have k: "0 < k" using assms(2) c r by (auto simp: counted_def split: if_splits)
    let ?b1 = "b\<lparr>sub_state := s'\<rparr>"
    have inv1: "tracked_inv ?b1" using inv by (simp add: tracked_inv_def)
    have "next_value_id b \<noteq> - 1"
    proof
      assume "next_value_id b = - 1"
      then have "unat (next_value_id b) = 2 ^ 64 - 1" by (simp add: unsigned_minus_1_eq_mask mask_eq_exp_minus_1)
      then show False using bound k by simp
    qed
    then have "room ?b1" and nx: "unat (next_value_id b + 1) = Suc (unat (next_value_id b))"
      by (simp_all add: room_def unat_plus_one)
    then have "tracked_inv (snd (TrackValue x ?b1))"
      using TrackValue_inv [OF inv1] by simp
    moreover have fresh: "tracked_values b (next_value_id b) = None"
      using tracked_inv_fresh [OF inv] .
    ultimately show ?thesis
      using Ok r c sub k bound nx
      by (auto simp: GENC_TRY_apply in_sub_def counted_def TrackValue_eq [OF inv1] st_rel_def tracks_def)
  qed (use assms r c sub inv bound in \<open>auto simp: GENC_TRY_apply in_sub_def counted_def st_rel_def tracked_inv_def\<close>)
qed

lemma sim_track: "sim m tracks (GENC_TRY (in_sub p) TrackValue) (counted p)"
  unfolding sim_def
  using track_counted by (blast intro: outcome.rel_mono_strong)

lemma sim_cong_left:
  assumes "\<And>b. m \<subseteq>\<^sub>m tracked_values b \<Longrightarrow> p b = p' b" and "sim m R p' q"
  shows "sim m R p q"
  using assms unfolding sim_def by simp

lemma GetTracked_tracks: "tracks m h v \<Longrightarrow> m \<subseteq>\<^sub>m tracked_values b \<Longrightarrow> GetTracked n h b = (Ok v, b)"
  by (simp add: GetTracked_Some map_leD tracks_def)

lemma map_try_GetTracked:
  "list_all2 (tracks m) hs vs \<Longrightarrow> m \<subseteq>\<^sub>m tracked_values b \<Longrightarrow>
   map_try (GetTracked n) hs b = (Ok vs, b)"
  by (induction hs arbitrary: vs)
     (auto simp: list_all2_Cons1 GENC_TRY_apply GetTracked_tracks return_apply)

lemma base_ops_tracked:
  assumes "m \<subseteq>\<^sub>m tracked_values b"
  shows "tracks m f fv \<Longrightarrow> rel_option (tracks m) a av \<Longrightarrow>
      base_create_call impl f a b = GENC_TRY (in_sub (impl_create_call impl fv av)) TrackValue b"
    and "list_all2 (tracks m) hs vs \<Longrightarrow>
      base_create_struct impl hs b = GENC_TRY (in_sub (impl_create_struct impl vs)) TrackValue b"
    and "tracks m f fv \<Longrightarrow>
      base_create_selection impl f i b = GENC_TRY (in_sub (impl_create_selection impl fv i)) TrackValue b"
    and "tracks m f fv \<Longrightarrow> base_materialize impl f w b = in_sub (impl_materialize impl fv w) b"
proof -
  note get = GetTracked_tracks [OF _ assms]
  show "tracks m f fv \<Longrightarrow> rel_option (tracks m) a av \<Longrightarrow>
      base_create_call impl f a b = GENC_TRY (in_sub (impl_create_call impl fv av)) TrackValue b"
    by (cases a; cases av)
       (simp_all add: base_create_call_def GENC_TRY_apply [of "GetTracked _ _"] get return_apply
         GENC_TRY_assoc)
  show "list_all2 (tracks m) hs vs \<Longrightarrow>
      base_create_struct impl hs b = GENC_TRY (in_sub (impl_create_struct impl vs)) TrackValue b"
    by (simp add: base_create_struct_def GENC_TRY_apply [of "map_try _ _"] map_try_GetTracked [OF _ assms])
  show "tracks m f fv \<Longrightarrow>
      base_create_selection impl f i b = GENC_TRY (in_sub (impl_create_selection impl fv i)) TrackValue b"
    by (simp add: base_create_selection_def GENC_TRY_apply [of "GetTracked _ _"] get)
  show "tracks m f fv \<Longrightarrow> base_materialize impl f w b = in_sub (impl_materialize impl fv w) b"
    by (simp add: base_materialize_def GENC_TRY_apply [of "GetTracked _ _"] get)
qed

lemma sim_in_sub: "sim m (\<lambda>m. (=)) (in_sub p) (uncounted p)"
  by (auto simp: sim_def in_sub_def uncounted_def st_rel_def tracked_inv_def outcome.rel_eq split: prod.splits)

lemma sim_base_ops:
  shows "sim m tracks (base_create_value impl v) (counted (impl_create_value impl v))"
    and "tracks m f fv \<Longrightarrow> rel_option (tracks m) a av \<Longrightarrow>
      sim m tracks (base_create_call impl f a) (counted (impl_create_call impl fv av))"
    and "list_all2 (tracks m) hs vs \<Longrightarrow>
      sim m tracks (base_create_struct impl hs) (counted (impl_create_struct impl vs))"
    and "tracks m f fv \<Longrightarrow>
      sim m tracks (base_create_selection impl f i) (counted (impl_create_selection impl fv i))"
    and "tracks m f fv \<Longrightarrow>
      sim m (\<lambda>m. (=)) (base_materialize impl f w) (uncounted (impl_materialize impl fv w))"
  using base_ops_tracked
  by (auto simp: base_create_value_def intro: sim_track sim_in_sub intro!: sim_cong_left [OF _ sim_track]
      sim_cong_left [OF _ sim_in_sub])

section \<open>Releasing temporary handles\<close>

lemma release_base:
  "tracked_values (release_handles (ExecutorBase impl) hs b) = tracked_values b |` (- set hs) \<and>
   next_value_id (release_handles (ExecutorBase impl) hs b) = next_value_id b \<and>
   sub_state (release_handles (ExecutorBase impl) hs b) = sub_state b"
proof (induction hs arbitrary: b)
  case (Cons h hs)
  have "tracked_values (snd (base_dispose impl h b)) = (tracked_values b)(h := None) \<and>
      next_value_id (snd (base_dispose impl h b)) = next_value_id b \<and>
      sub_state (snd (base_dispose impl h b)) = sub_state b"
    by (auto simp: base_dispose_def split: option.split)
  then show ?case
    using Cons.IH [of "snd (base_dispose impl h b)"]
    by (auto simp: release_handles_def restrict_map_def fun_eq_iff)
qed (simp add: release_handles_def restrict_map_def)

lemma release_direct: "release_handles (direct impl) hs c = c"
  by (induction hs) (simp_all add: release_handles_def return_apply)

lemma st_rel_release: "st_rel b c \<Longrightarrow> st_rel (release_handles (ExecutorBase impl) hs b) c"
  using release_base [of impl hs b]
  by (auto simp: st_rel_def tracked_inv_def restrict_map_def split: if_splits)

lemma restrict_extends:
  "m \<subseteq>\<^sub>m m' \<Longrightarrow> (\<And>h. h \<in> A \<Longrightarrow> m h = None) \<Longrightarrow> m \<subseteq>\<^sub>m m' |` (- A)"
  by (auto simp: map_le_def restrict_map_def dom_def)

end
