(* ===== verification/Refinement.thy ===== *)
theory Refinement
  imports Simulation Evaluator_Laws
begin

text \<open>
  The control flow executor over a table of handles simulates itself over bare values:
  every operation of the evaluator and of the control flow intrinsics preserves the
  relation, so the outcome of a computation does not depend on the table, on the numbers
  it hands out, or on the temporaries that are disposed of on the way.
\<close>

section \<open>Related values\<close>

definition value_rel :: "'v table \<Rightarrow> (ValueId, 'w) exec_value \<Rightarrow> ('v, 'w) exec_value \<Rightarrow> bool" where
  "value_rel m = rel_exec_value (tracks m)"

definition scope_rel :: "'v table \<Rightarrow> (ValueId, 'w) scope \<Rightarrow> ('v, 'w) scope \<Rightarrow> bool" where
  "scope_rel m = rel_scope (tracks m)"

lemma kripke_value_rel [simp]: "kripke value_rel"
  unfolding kripke_def value_rel_def
  by (intro allI impI, erule exec_value.rel_mono_strong) (rule kripkeD [OF kripke_tracks])

lemma kripke_scope_rel [simp]: "kripke scope_rel"
  unfolding kripke_def scope_rel_def
  by (intro allI impI, erule scope.rel_mono_strong) (rule kripkeD [OF kripke_tracks])

lemma value_rel_simps [simp]:
  "value_rel m (Embedded h) w \<longleftrightarrow> (\<exists>v. w = Embedded v \<and> tracks m h v)"
  "value_rel m (Structure vs) w \<longleftrightarrow> (\<exists>ws. w = Structure ws \<and> list_all2 (value_rel m) vs ws)"
  "value_rel m (LambdaV l sc) w \<longleftrightarrow> (\<exists>sc'. w = LambdaV l sc' \<and> scope_rel m sc sc')"
  "value_rel m (IntrinsicV i hdl sc) w \<longleftrightarrow> (\<exists>sc'. w = IntrinsicV i hdl sc' \<and> scope_rel m sc sc')"
  by (cases w; auto simp: value_rel_def scope_rel_def)+

lemma scope_rel_simps [simp]:
  "scope_rel m Root sc \<longleftrightarrow> sc = Root"
  "scope_rel m (Scope x v p) sc \<longleftrightarrow> (\<exists>v' p'. sc = Scope x v' p' \<and> value_rel m v v' \<and> scope_rel m p p')"
  by (cases sc; auto simp: value_rel_def scope_rel_def)+

lemma value_DebugString_rel: "value_rel m v w \<Longrightarrow> value_DebugString v = value_DebugString w"
  by (cases v) auto

lemma scope_DebugString_rel: "scope_rel m sc sc' \<Longrightarrow> scope_DebugString sc = scope_DebugString sc'"
  by (induction sc arbitrary: sc' rule: bindings.induct)
     (auto simp: value_DebugString_rel)

lemma Resolve_rel: "scope_rel m sc sc' \<Longrightarrow> rel_outcome (value_rel m) (Resolve sc nm) (Resolve sc' nm)"
  by (induction sc arbitrary: sc' rule: bindings.induct) auto

section \<open>Runs from related states\<close>

text \<open>
  Two finished runs that agree: the states are related, nothing of the table at the start
  is lost, and the results are related over the table at the end. A simulation says this
  of every run from related states.
\<close>

definition good_run ::
  "'v table \<Rightarrow> ('v table \<Rightarrow> 'a \<Rightarrow> 'b \<Rightarrow> bool) \<Rightarrow> 'a outcome \<times> ('v, 's) base_state
     \<Rightarrow> 'b outcome \<times> nat \<times> 's \<Rightarrow> bool" where
  "good_run m0 R r r' \<longleftrightarrow> st_rel (snd r) (snd r') \<and> m0 \<subseteq>\<^sub>m tracked_values (snd r) \<and>
     rel_outcome (R (tracked_values (snd r))) (fst r) (fst r')"

lemma sim_iff_good_run:
  "sim m R p q \<longleftrightarrow> (\<forall>b c. st_rel b c \<longrightarrow> m \<subseteq>\<^sub>m tracked_values b \<longrightarrow> fst (q c) \<noteq> Diverge \<longrightarrow>
     good_run (tracked_values b) R (p b) (q c))"
  by (simp add: sim_def good_run_def)

lemma good_run_Ok [simp]:
  "good_run m0 R (Ok x, b) (Ok y, c) \<longleftrightarrow>
     st_rel b c \<and> m0 \<subseteq>\<^sub>m tracked_values b \<and> R (tracked_values b) x y"
  by (simp add: good_run_def)

lemma good_runE:
  assumes "good_run m0 R r r'"
  obtains x y b c where "r = (Ok x, b)" and "r' = (Ok y, c)" and "st_rel b c"
      and "m0 \<subseteq>\<^sub>m tracked_values b" and "R (tracked_values b) x y"
    | e b c where "r = (Err e, b)" and "r' = (Err e, c)" and "st_rel b c" and "m0 \<subseteq>\<^sub>m tracked_values b"
    | e b c where "r = (Crash e, b)" and "r' = (Crash e, c)" and "st_rel b c" and "m0 \<subseteq>\<^sub>m tracked_values b"
    | b c where "r = (Diverge, b)" and "r' = (Diverge, c)" and "st_rel b c" and "m0 \<subseteq>\<^sub>m tracked_values b"
  using assms that by (cases r; cases r'; cases "fst r"; cases "fst r'") (auto simp: good_run_def)

lemma good_run_return [simp]:
  "good_run m0 R (return x b) (return y c) \<longleftrightarrow>
     st_rel b c \<and> m0 \<subseteq>\<^sub>m tracked_values b \<and> R (tracked_values b) x y"
  by (simp add: return_apply)

lemma good_run_below:
  "good_run m1 R r r' \<Longrightarrow> m0 \<subseteq>\<^sub>m m1 \<Longrightarrow> good_run m0 R r r'"
  by (auto simp: good_run_def intro: map_le_trans)

lemma good_run_try:
  assumes "good_run m1 R (p b) (q c)" and "m0 \<subseteq>\<^sub>m m1"
    and "\<And>x y b' c'. q c = (Ok y, c') \<Longrightarrow> st_rel b' c' \<Longrightarrow> m1 \<subseteq>\<^sub>m tracked_values b' \<Longrightarrow>
      R (tracked_values b') x y \<Longrightarrow> good_run m0 R' (f x b') (g y c')"
  shows "good_run m0 R' (GENC_TRY p f b) (GENC_TRY q g c)"
  using assms(1)
  by (rule good_runE)
     (use assms(2,3) in \<open>auto simp: GENC_TRY_apply good_run_def [of _ _ "(Err _, _)"]
        good_run_def [of _ _ "(Crash _, _)"] good_run_def [of _ _ "(Diverge, _)"] intro: map_le_trans\<close>)

text \<open>
  Handles that were not there at the start can be given back at the end, on every branch
  but a crash.
\<close>

lemma good_run_release:
  assumes "good_run m1 R (p b) (q c)" and "m0 \<subseteq>\<^sub>m m1" and "\<And>h. h \<in> set hs \<Longrightarrow> m0 h = None"
    and "\<And>m x y. R m x y \<Longrightarrow> R' (m |` (- set hs)) x y"
  shows "good_run m0 R' (finally_release (ExecutorBase impl) hs p b) (finally_release (direct impl) hs' q c)"
proof -
  have below: "m0 \<subseteq>\<^sub>m m' |` (- set hs)" if "m1 \<subseteq>\<^sub>m m'" for m'
    using map_le_trans [OF assms(2) that] assms(3) by (rule restrict_extends)
  show ?thesis
    using assms(1)
    by (rule good_runE)
       (use assms(2,4) below in \<open>auto simp: finally_release_def good_run_def release_direct release_base
          intro: st_rel_release map_le_trans\<close>)
qed

lemma good_run_try_or_release:
  assumes "good_run m1 R (p b) (q c)" and "m0 \<subseteq>\<^sub>m m1" and "\<And>h. h \<in> set hs \<Longrightarrow> m0 h = None"
    and "\<And>x y b' c'. q c = (Ok y, c') \<Longrightarrow> st_rel b' c' \<Longrightarrow> m1 \<subseteq>\<^sub>m tracked_values b' \<Longrightarrow>
      R (tracked_values b') x y \<Longrightarrow> good_run m0 R' (f x b') (g y c')"
  shows "good_run m0 R' (try_or_release (ExecutorBase impl) hs p f b)
    (try_or_release (direct impl) hs' q g c)"
proof -
  have below: "m0 \<subseteq>\<^sub>m m' |` (- set hs)" if "m1 \<subseteq>\<^sub>m m'" for m'
    using map_le_trans [OF assms(2) that] assms(3) by (rule restrict_extends)
  show ?thesis
    using assms(1)
    by (rule good_runE)
       (use assms(2,4) below in \<open>auto simp: try_or_release_def good_run_def [of _ _ "(Err _, _)"]
          good_run_def [of _ _ "(Crash _, _)"] good_run_def [of _ _ "(Diverge, _)"]
          release_direct release_base intro: st_rel_release map_le_trans\<close>)
qed

text \<open>A value that the implementation creates gets a handle that was not in the table.\<close>

definition fresh_tracks :: "'v table \<Rightarrow> 'v table \<Rightarrow> ValueId \<Rightarrow> 'v \<Rightarrow> bool" where
  "fresh_tracks m0 m h v \<longleftrightarrow> tracks m h v \<and> m0 h = None"

lemma fresh_tracks_restrict:
  "fresh_tracks m0 m h v \<Longrightarrow> A \<subseteq> dom m0 \<Longrightarrow> tracks (m |` (- A)) h v"
  by (auto simp: fresh_tracks_def tracks_def restrict_map_def)

lemma good_run_created:
  assumes "st_rel b c" and "fst (counted p c) \<noteq> Diverge"
  shows "good_run (tracked_values b) (fresh_tracks (tracked_values b))
    (GENC_TRY (in_sub p) TrackValue b) (counted p c)"
  using track_counted [OF assms]
  by (cases "fst (GENC_TRY (in_sub p) TrackValue b)"; cases "fst (counted p c)")
     (auto simp: good_run_def fresh_tracks_def)

section \<open>Embedding\<close>

text \<open>The slot of an embedded value is fresh with respect to the table at the start.\<close>

definition embedded_rel :: "'v table \<Rightarrow> 'v table \<Rightarrow> ValueId \<times> ValueId option \<Rightarrow> 'v \<times> 'v option \<Rightarrow> bool" where
  "embedded_rel m0 m r r' \<longleftrightarrow> tracks m (fst r) (fst r') \<and>
     (\<forall>h. snd r = Some h \<longrightarrow> h = fst r \<and> m0 h = None)"

lemma map_le_None: "m \<subseteq>\<^sub>m m' \<Longrightarrow> m' h = None \<Longrightarrow> m h = None"
  by (metis map_leD not_None_eq option.distinct(1))

lemma embedded_slot:
  assumes "embedded_rel m0 m (h, slot) r" and "g \<in> set (slot_list slot)"
  shows "m0 g = None" and "g \<in> dom m"
  using assms by (auto simp: embedded_rel_def slot_list_def tracks_def split: option.splits)

text \<open>The end of the fields, where the struct is made and the new handles are released.\<close>

lemma Embed_end_refines:
  fixes impl :: "('v, 's) executor_impl"
  assumes st: "st_rel b c" and le: "m0 \<subseteq>\<^sub>m tracked_values b" and ids: "list_all2 (tracks (tracked_values b)) ids fs"
    and slots: "\<And>h. h \<in> set slots \<Longrightarrow> m0 h = None \<and> h \<in> dom (tracked_values b)"
    and nd: "fst (Embed_fields (direct impl) [] fs slots' c) \<noteq> Diverge"
  shows "good_run m0 (embedded_rel m0) (Embed_fields (ExecutorBase impl) [] ids slots b) (Embed_fields (direct impl) [] fs slots' c)"
proof -
  have eq: "GENC_TRY (base_create_struct impl ids) k b =
      GENC_TRY (GENC_TRY (in_sub (impl_create_struct impl fs)) TrackValue) k b" for k
    using base_ops_tracked(2) [OF map_le_refl ids] by (simp add: GENC_TRY_apply)
  have "fst (counted (impl_create_struct impl fs) c) \<noteq> Diverge"
    using nd by (auto simp: finally_release_def GENC_TRY_apply split: prod.splits)
  note created = good_run_created [OF st this]
  have "good_run (tracked_values b) (\<lambda>m x y. x = (fst x, Some (fst x)) \<and> fresh_tracks (tracked_values b) m (fst x) (fst y))
      (GENC_TRY (base_create_struct impl ids) (\<lambda>h. return (h, Some h)) b)
      (GENC_TRY (counted (impl_create_struct impl fs)) (\<lambda>h. return (h, Some h)) c)"
    unfolding eq by (rule good_run_try, rule created) simp_all
  then show ?thesis
    unfolding Embed_fields.simps ExecutorBase_sel direct_sel
  proof (rule good_run_release)
    show "m0 \<subseteq>\<^sub>m tracked_values b" by (rule le)
  next
    fix m and x :: "ValueId \<times> ValueId option" and y :: "'v \<times> 'v option"
    assume "x = (fst x, Some (fst x)) \<and> fresh_tracks (tracked_values b) m (fst x) (fst y)"
    moreover have "set slots \<subseteq> dom (tracked_values b)" using slots by blast
    ultimately show "embedded_rel m0 (m |` (- set slots)) x y"
      using map_le_None [OF le]
      using fresh_tracks_restrict [of "tracked_values b" m "fst x" "fst y" "set slots"]
      by (cases x) (auto simp: embedded_rel_def fresh_tracks_def)
  qed (use slots in simp)
qed

lemma Embed_refines:
  fixes v :: "(ValueId, 'w) exec_value" and vs :: "(ValueId, 'w) exec_value list"
  shows "child = ExecutorBase impl \<Longrightarrow> value_rel m v w \<Longrightarrow> m \<subseteq>\<^sub>m tracked_values b \<Longrightarrow> st_rel b c \<Longrightarrow>
      fst (Embed (direct impl) w c) \<noteq> Diverge \<Longrightarrow>
      good_run (tracked_values b) (embedded_rel (tracked_values b)) (Embed child v b) (Embed (direct impl) w c)"
    and "child = ExecutorBase impl \<Longrightarrow> list_all2 (value_rel m) vs ws \<Longrightarrow> m \<subseteq>\<^sub>m tracked_values b \<Longrightarrow>
      st_rel b c \<Longrightarrow> m0 \<subseteq>\<^sub>m tracked_values b \<Longrightarrow> list_all2 (tracks (tracked_values b)) ids fs \<Longrightarrow>
      (\<And>h. h \<in> set slots \<Longrightarrow> m0 h = None \<and> h \<in> dom (tracked_values b)) \<Longrightarrow>
      fst (Embed_fields (direct impl) ws fs slots' c) \<noteq> Diverge \<Longrightarrow>
      good_run m0 (embedded_rel m0) (Embed_fields child vs ids slots b)
        (Embed_fields (direct impl) ws fs slots' c)"
proof (induction child v and child vs ids slots arbitrary: w b c and ws b c fs slots' m0
    rule: Embed_Embed_fields.induct)
  case (1 child h)
  then show ?case by (auto simp: embedded_rel_def dest: kripkeD [OF kripke_tracks])
next
  case (2 child vs)
  then obtain ws where w: "w = Structure ws" "list_all2 (value_rel m) vs ws" by auto
  with 2 show ?case by simp
next
  case (3 child l sc)
  then obtain sc' where w: "w = LambdaV l sc'" by auto
  have "fst (counted (impl_create_value impl (plain (KLambda l))) c) \<noteq> Diverge"
    using 3(5) by (auto simp: w GENC_TRY_apply split: prod.splits)
  note created = good_run_created [OF \<open>st_rel b c\<close> this]
  show ?case
    unfolding 3(1) w Embed.simps ExecutorBase_sel direct_sel base_create_value_def
    by (rule good_run_try, rule created) (simp_all add: embedded_rel_def fresh_tracks_def)
next
  case (4 child i hdl sc)
  then show ?case by (auto simp: lift_apply good_run_def)
next
  case (5 child ids slots)
  then show ?case using Embed_end_refines [OF 5(4-6) 5(7)] by simp
next
  case (6 child v vs ids slots)
  obtain w ws' where ws: "ws = w # ws'" "value_rel m v w" "list_all2 (value_rel m) vs ws'"
    using 6(4) by (auto simp: list_all2_Cons1)
  have nd: "fst (Embed (direct impl) w c) \<noteq> Diverge"
    using 6(10) by (auto simp: ws(1) try_or_release_def split: prod.splits)
  note head = 6(1) [OF 6(3) ws(2) 6(5,6) nd]
  show ?case
    unfolding 6(3) ws(1) Embed_fields.simps
  proof (rule good_run_try_or_release, rule head [unfolded 6(3)], rule 6(7))
    fix x y b' c'
    assume q: "Embed (direct impl) w c = (Ok y, c')" and st: "st_rel b' c'"
      and le: "tracked_values b \<subseteq>\<^sub>m tracked_values b'"
      and rel: "embedded_rel (tracked_values b) (tracked_values b') x y"
    obtain h slot where x: "x = (h, slot)" by (cases x)
    obtain f slot' where y: "y = (f, slot')" by (cases y)
    have ids: "list_all2 (tracks (tracked_values b')) (ids @ [h]) (fs @ [f])"
      using kripkeD [OF kripke_list [OF kripke_tracks] le 6(8)] rel
      by (intro list_all2_appendI) (simp_all add: embedded_rel_def x y)
    have slots: "m0 g = None \<and> g \<in> dom (tracked_values b')" if "g \<in> set (slots @ slot_list slot)" for g
      using that 6(9) [of g] embedded_slot [OF rel [unfolded x], of g] map_le_None [OF 6(7)] map_le_implies_dom_le [OF le]
      by auto
    have nd': "fst (Embed_fields (direct impl) ws' (fs @ [f]) (slots' @ slot_list slot') c') \<noteq> Diverge"
      using 6(10) q by (simp add: ws(1) y try_or_release_def)
    show "good_run m0 (embedded_rel m0)
        ((case x of (h, slot) \<Rightarrow>
            Embed_fields (ExecutorBase impl) vs (ids @ [h]) (slots @ slot_list slot)) b')
        ((case y of (f, slot') \<Rightarrow>
            Embed_fields (direct impl) ws' (fs @ [f]) (slots' @ slot_list slot')) c')"
      using 6(2) [OF 6(3) ws(3) map_le_trans [OF 6(5) le] st map_le_trans [OF 6(7) le] ids slots nd']
      by (simp add: x y 6(3))
  qed (use 6(9) in blast)
qed

section \<open>Materializing and calling through the child\<close>

text \<open>
  An embedded value is used and then given up: what is done with the handle in between may
  create handles, but its result must not rest on a handle that was there before.
\<close>

lemma sim_embedded:
  assumes "value_rel m v w"
    and "\<And>b c h f. st_rel b c \<Longrightarrow> m \<subseteq>\<^sub>m tracked_values b \<Longrightarrow> tracks (tracked_values b) h f \<Longrightarrow>
      fst (q f c) \<noteq> Diverge \<Longrightarrow> good_run (tracked_values b) (R' (tracked_values b)) (p h b) (q f c)"
    and "\<And>m0 m A x y. R' m0 m x y \<Longrightarrow> A \<subseteq> dom m0 \<Longrightarrow> R (m |` (- A)) x y"
  shows "sim m R
    (GENC_TRY (Embed (ExecutorBase impl) v) (\<lambda>(h, slot). finally_release (ExecutorBase impl) (slot_list slot) (p h)))
    (GENC_TRY (Embed (direct impl) w) (\<lambda>(f, slot). finally_release (direct impl) (slot_list slot) (q f)))"
  unfolding sim_iff_good_run
proof (intro allI impI)
  fix b c
  assume st: "st_rel b c" and ext: "m \<subseteq>\<^sub>m tracked_values b"
    and nd: "fst (GENC_TRY (Embed (direct impl) w)
      (\<lambda>(f, slot). finally_release (direct impl) (slot_list slot) (q f)) c) \<noteq> Diverge"
  have nd1: "fst (Embed (direct impl) w c) \<noteq> Diverge"
    using nd by (auto simp: GENC_TRY_apply split: prod.splits)
  show "good_run (tracked_values b) R
    (GENC_TRY (Embed (ExecutorBase impl) v) (\<lambda>(h, slot). finally_release (ExecutorBase impl) (slot_list slot) (p h)) b)
    (GENC_TRY (Embed (direct impl) w) (\<lambda>(f, slot). finally_release (direct impl) (slot_list slot) (q f)) c)"
  proof (rule good_run_try, rule Embed_refines(1) [OF refl assms(1) ext st nd1], rule map_le_refl)
    fix x y b' c'
    assume e: "Embed (direct impl) w c = (Ok y, c')" and st': "st_rel b' c'"
      and le: "tracked_values b \<subseteq>\<^sub>m tracked_values b'"
      and rel: "embedded_rel (tracked_values b) (tracked_values b') x y"
    obtain h slot where x: "x = (h, slot)" by (cases x)
    obtain f slot' where y: "y = (f, slot')" by (cases y)
    have nd': "fst (q f c') \<noteq> Diverge"
      using nd e by (auto simp: GENC_TRY_apply y finally_release_def split: prod.splits)
    have tr: "tracks (tracked_values b') h f" using rel by (simp add: embedded_rel_def x y)
    have slots: "set (slot_list slot) \<subseteq> dom (tracked_values b')"
      using embedded_slot(2) [OF rel [unfolded x]] by blast
    show "good_run (tracked_values b) R
      ((case x of (h, slot) \<Rightarrow> finally_release (ExecutorBase impl) (slot_list slot) (p h)) b')
      ((case y of (f, slot) \<Rightarrow> finally_release (direct impl) (slot_list slot) (q f)) c')"
      unfolding x y prod.case
      by (rule good_run_release, rule assms(2) [OF st' map_le_trans [OF ext le] tr nd'], rule le)
         (use embedded_slot(1) [OF rel [unfolded x]] assms(3) slots in blast)+
  qed
qed

lemma sim_Materialize:
  assumes "value_rel m v w"
  shows "sim m (\<lambda>m. (=)) (ConstMaterialize (ExecutorBase impl) v want) (ConstMaterialize (direct impl) w want)"
  unfolding ConstMaterialize_def ExecutorBase_sel direct_sel
proof (rule sim_embedded [OF assms])
  fix b c h f
  assume "st_rel b c" and "m \<subseteq>\<^sub>m tracked_values b" and "tracks (tracked_values b) h f" and "fst (uncounted (impl_materialize impl f want) c) \<noteq> Diverge"
  then show "good_run (tracked_values b) (\<lambda>m. (=)) (base_materialize impl h want b)
      (uncounted (impl_materialize impl f want) c)"
    using sim_base_ops(5) [of "tracked_values b" h f impl want]
    unfolding sim_iff_good_run by (metis map_le_refl)
qed

lemma sim_call_child:
  assumes "tracks m f fv" and "rel_option (value_rel m) a a'"
  shows "sim m value_rel (call_child (ExecutorBase impl) f a) (call_child (direct impl) fv a')"
proof (cases a)
  case None
  then have "sim m tracks (base_create_call impl f None) (counted (impl_create_call impl fv None))"
    using assms(1) by (intro sim_base_ops) auto
  then show ?thesis
    using None assms(2)
    by (auto simp: call_child_def intro!: sim_try sim_return)
next
  case (Some v)
  then obtain w where a': "a' = Some w" and vw: "value_rel m v w" using assms(2) by (cases a') auto
  show ?thesis
    unfolding Some a' call_child_def option.case ExecutorBase_sel direct_sel
  proof (rule sim_embedded [OF vw, where R' = "\<lambda>m0 m x y. \<exists>h v. x = Embedded h \<and> y = Embedded v \<and> fresh_tracks m0 m h v"])
    fix b c h g
    let ?call = "impl_create_call impl fv (Some g)"
    assume st: "st_rel b c" and ext: "m \<subseteq>\<^sub>m tracked_values b" and tr: "tracks (tracked_values b) h g"
      and nd: "fst (GENC_TRY (counted ?call) (\<lambda>h. return (Embedded h)) c) \<noteq> Diverge"
    have eq: "GENC_TRY (base_create_call impl f (Some h)) k b = GENC_TRY (GENC_TRY (in_sub ?call) TrackValue) k b" for k
      using base_ops_tracked(1) [OF map_le_refl kripkeD [OF kripke_tracks ext assms(1)], of "Some h" "Some g"] tr
      by (simp add: GENC_TRY_apply)
    have "fst (counted ?call c) \<noteq> Diverge" using nd by (auto simp: GENC_TRY_apply split: prod.splits)
    note created = good_run_created [OF st this]
    show "good_run (tracked_values b)
        (\<lambda>m x y. \<exists>h v. x = Embedded h \<and> y = Embedded v \<and> fresh_tracks (tracked_values b) m h v)
        (GENC_TRY (base_create_call impl f (Some h)) (\<lambda>h. return (Embedded h)) b)
        (GENC_TRY (counted ?call) (\<lambda>h. return (Embedded h)) c)"
      unfolding eq by (rule good_run_try, rule created) auto
  qed (use fresh_tracks_restrict in fastforce)
qed

section \<open>Related contexts\<close>

definition ctx_sim ::
  "'v table \<Rightarrow> ((ValueId, 'w) exec_value, ('v, 's) base_state) executor
     \<Rightarrow> (('v, 'w) exec_value, nat \<times> 's) executor \<Rightarrow> bool" where
  "ctx_sim m C D \<longleftrightarrow>
     (\<forall>m' pb. m \<subseteq>\<^sub>m m' \<longrightarrow> sim m' value_rel (create_value C pb) (create_value D pb)) \<and>
     (\<forall>m' f g a a'. m \<subseteq>\<^sub>m m' \<longrightarrow> value_rel m' f g \<longrightarrow> rel_option (value_rel m') a a' \<longrightarrow>
        sim m' value_rel (create_call C f a) (create_call D g a')) \<and>
     (\<forall>m' vs ws. m \<subseteq>\<^sub>m m' \<longrightarrow> list_all2 (value_rel m') vs ws \<longrightarrow>
        sim m' value_rel (create_struct C vs) (create_struct D ws)) \<and>
     (\<forall>m' v w want. m \<subseteq>\<^sub>m m' \<longrightarrow> value_rel m' v w \<longrightarrow>
        sim m' (\<lambda>m. (=)) (materialize C v want) (materialize D w want))"

lemma ctx_sim_mono: "ctx_sim m C D \<Longrightarrow> m \<subseteq>\<^sub>m m' \<Longrightarrow> ctx_sim m' C D"
  unfolding ctx_sim_def by (meson map_le_trans)

lemma value_rel_mono: "value_rel m v w \<Longrightarrow> m \<subseteq>\<^sub>m m' \<Longrightarrow> value_rel m' v w"
  using kripkeD [OF kripke_value_rel] by blast

lemma values_rel_mono: "list_all2 (value_rel m) vs ws \<Longrightarrow> m \<subseteq>\<^sub>m m' \<Longrightarrow> list_all2 (value_rel m') vs ws"
  using kripkeD [OF kripke_list [OF kripke_value_rel]] by blast

lemma option_rel_mono: "rel_option (value_rel m) a a' \<Longrightarrow> m \<subseteq>\<^sub>m m' \<Longrightarrow> rel_option (value_rel m') a a'"
  using kripkeD [OF kripke_option [OF kripke_value_rel]] by blast

lemmas rel_monos = ctx_sim_mono value_rel_mono values_rel_mono option_rel_mono

lemma ctx_ops:
  assumes "ctx_sim m C D"
  shows "sim m value_rel (create_value C pb) (create_value D pb)"
    and "value_rel m f g \<Longrightarrow> rel_option (value_rel m) a a' \<Longrightarrow>
      sim m value_rel (create_call C f a) (create_call D g a')"
    and "list_all2 (value_rel m) vs ws \<Longrightarrow> sim m value_rel (create_struct C vs) (create_struct D ws)"
    and "value_rel m v w \<Longrightarrow> sim m (\<lambda>m. (=)) (materialize C v want) (materialize D w want)"
  using assms unfolding ctx_sim_def by (meson map_le_refl)+

text \<open>Sequencing that carries a fact about the table along.\<close>

lemma sim_then:
  assumes "Q m" and "\<And>m m'. m \<subseteq>\<^sub>m m' \<Longrightarrow> Q m \<Longrightarrow> Q m'" and "sim m R p q"
    and "\<And>m' x y. Q m' \<Longrightarrow> R m' x y \<Longrightarrow> sim m' S (k x) (l y)"
  shows "sim m S (GENC_TRY p k) (GENC_TRY q l)"
  using assms by (blast intro: sim_try)

lemma sim_Materialize_pb:
  "ctx_sim m C D \<Longrightarrow> value_rel m v w \<Longrightarrow> sim m (\<lambda>m. (=)) (Materialize_pb C v) (Materialize_pb D w)"
  unfolding Materialize_pb_def
  by (rule sim_try, erule (1) ctx_ops) (auto intro: sim_return)

lemma sim_arg_value:
  "rel_option (value_rel m) a a' \<Longrightarrow> sim m value_rel (lift (arg_value a)) (lift (arg_value a'))"
  by (cases a; cases a') (auto simp: arg_value_def lift_Ok intro: sim_return sim_lift_Crash)

section \<open>The control flow intrinsics preserve the relation\<close>

lemma sim_Conditional:
  assumes "ctx_sim m C D" and "rel_option (value_rel m) a a'"
  shows "sim m value_rel (Conditional_ExecuteCall i a C) (Conditional_ExecuteCall i a' D)"
proof (cases a)
  case None
  then show ?thesis using assms(2) by (simp add: Conditional_ExecuteCall_def sim_lift_Err)
next
  case (Some v)
  then obtain w where a': "a' = Some w" "value_rel m v w" using assms(2) by (cases a') auto
  have "sim m' value_rel
      (GENC_TRY (lift (element (params i) j)) (create_value C))
      (GENC_TRY (lift (element (params i) j)) (create_value D))" if "ctx_sim m' C D" for m' j
    by (rule sim_then [where Q = "\<lambda>m. ctx_sim m C D", OF that ctx_sim_mono sim_lift_same])
       (auto intro: ctx_ops)
  then show ?thesis
    unfolding Conditional_ExecuteCall_def Some a'
    by (simp, intro sim_then [where Q = "\<lambda>m. ctx_sim m C D", OF assms(1) ctx_sim_mono
          sim_Materialize_pb [OF assms(1) a'(2)]]) (auto intro: sim_lift_Err)
qed

lemma sim_attempt:
  fixes C :: "((ValueId, 'w) exec_value, ('v, 's) base_state) executor"
  assumes "ctx_sim m C D" and "rel_option (value_rel m) a a'"
  shows "sim m value_rel (attempt_candidate a C fn) (attempt_candidate a' D fn)"
  unfolding attempt_candidate_def
proof (rule sim_then [where Q = "\<lambda>m. ctx_sim m C D \<and> rel_option (value_rel m) a a'"])
  show "sim m value_rel (create_value C fn) (create_value D fn)" by (rule ctx_ops [OF assms(1)])
  fix m1 f g
  assume 1: "ctx_sim m1 C D \<and> rel_option (value_rel m1) a a'" "value_rel m1 (f :: (ValueId, 'w) exec_value) g"
  show "sim m1 value_rel
      (GENC_TRY (create_call C f a) (\<lambda>r. GENC_TRY (materialize C r False) (\<lambda>_. return r)))
      (GENC_TRY (create_call D g a') (\<lambda>r. GENC_TRY (materialize D r False) (\<lambda>_. return r)))"
  proof (rule sim_then [where Q = "\<lambda>m. ctx_sim m C D"])
    fix m2 r r'
    assume 2: "ctx_sim m2 C D" "value_rel m2 (r :: (ValueId, 'w) exec_value) r'"
    show "sim m2 value_rel (GENC_TRY (materialize C r False) (\<lambda>_. return r))
        (GENC_TRY (materialize D r' False) (\<lambda>_. return r'))"
      by (rule sim_then [where Q = "\<lambda>m. value_rel m r r'", OF 2(2) value_rel_mono ctx_ops(4) [OF 2]])
         (auto intro: sim_return)
  qed (use 1 in \<open>auto intro: ctx_ops ctx_sim_mono\<close>)
qed (use assms in \<open>auto intro: rel_monos\<close>)

lemma sim_Fallback:
  assumes "ctx_sim m C D" and "rel_option (value_rel m) a a'"
  shows "sim m value_rel (Fallback_ExecuteCall i a C) (Fallback_ExecuteCall i a' D)"
proof -
  have "sim m value_rel (Fallback_loop a C fns e) (Fallback_loop a' D fns e)" for fns e
    using assms
  proof (induction fns arbitrary: m e)
    case (Cons fn fns)
    then show ?case by (auto intro!: sim_otherwise sim_attempt intro: rel_monos)
  qed (simp add: sim_lift_Err)
  then show ?thesis by (simp add: Fallback_ExecuteCall_def)
qed

lemma sim_chain_step:
  assumes "ctx_sim m C D" and "value_rel m st st'"
  shows "sim m value_rel (chain_step C fn st) (chain_step D fn st')"
  unfolding chain_step_def
  by (rule sim_then [where Q = "\<lambda>m. ctx_sim m C D \<and> value_rel m st st'" and R = value_rel])
     (use assms in \<open>auto intro: ctx_ops rel_monos\<close>)

lemma sim_SerialChain:
  assumes "ctx_sim m C D" and "rel_option (value_rel m) a a'"
  shows "sim m value_rel (SerialChain_ExecuteCall i a C) (SerialChain_ExecuteCall i a' D)"
proof -
  have "sim m value_rel (fold_try (chain_step C) fns st) (fold_try (chain_step D) fns st')"
    if "ctx_sim m C D" "value_rel m st st'" for m fns st st'
    by (rule sim_fold_try [where P = "\<lambda>m. (=)"])
       (use that in \<open>auto intro: sim_chain_step rel_monos simp: list.rel_eq\<close>)
  then show ?thesis
    unfolding SerialChain_ExecuteCall_def
    by (intro sim_then [where Q = "\<lambda>m. ctx_sim m C D", OF assms(1) ctx_sim_mono sim_arg_value [OF assms(2)]])
qed

lemma sim_BreakableChain:
  fixes C :: "((ValueId, 'w) exec_value, ('v, 's) base_state) executor"
  assumes "ctx_sim m C D" and "rel_option (value_rel m) a a'"
  shows "sim m value_rel (BreakableChain_ExecuteCall i a C) (BreakableChain_ExecuteCall i a' D)"
proof -
  have "sim m value_rel (BreakableChain_loop C fns st) (BreakableChain_loop D fns st')"
    if "ctx_sim m C D" "value_rel m st st'" for m fns st st'
    using that
  proof (induction fns arbitrary: m st st')
    case (Cons fn fns)
    let ?Q = "\<lambda>m. ctx_sim m C D \<and> value_rel m st st'"
    show ?case
      unfolding BreakableChain_loop.simps
    proof (rule sim_then [where Q = ?Q and R = value_rel])
      fix m1 f g assume 1: "?Q m1" "value_rel m1 (f :: (ValueId, 'w) exec_value) g"
      show "sim m1 value_rel
         (GENC_TRY (create_call C f (Some st)) (\<lambda>nxt. GENC_TRY (Materialize_pb C nxt) (\<lambda>pb.
            if \<not> has_boolean pb then BreakableChain_loop C fns nxt
            else if boolean pb then return st else BreakableChain_loop C fns st)))
         (GENC_TRY (create_call D g (Some st')) (\<lambda>nxt. GENC_TRY (Materialize_pb D nxt) (\<lambda>pb.
            if \<not> has_boolean pb then BreakableChain_loop D fns nxt
            else if boolean pb then return st' else BreakableChain_loop D fns st')))"
      proof (rule sim_then [where Q = ?Q and R = value_rel])
        fix m2 x y assume 2: "?Q m2" "value_rel m2 (x :: (ValueId, 'w) exec_value) y"
        show "sim m2 value_rel (GENC_TRY (Materialize_pb C x) (\<lambda>pb.
              if \<not> has_boolean pb then BreakableChain_loop C fns x
              else if boolean pb then return st else BreakableChain_loop C fns st))
            (GENC_TRY (Materialize_pb D y) (\<lambda>pb.
              if \<not> has_boolean pb then BreakableChain_loop D fns y
              else if boolean pb then return st' else BreakableChain_loop D fns st'))"
          by (rule sim_then [where Q = "\<lambda>m. ?Q m \<and> value_rel m x y" and R = "\<lambda>m. (=)"])
             (use 2 Cons.IH in \<open>auto intro: sim_Materialize_pb sim_return rel_monos\<close>)
      qed (use 1 in \<open>auto intro: ctx_ops rel_monos\<close>)
    qed (use Cons.prems in \<open>auto intro: ctx_ops rel_monos\<close>)
  qed (auto intro: sim_return)
  then show ?thesis
    unfolding BreakableChain_ExecuteCall_def
    by (intro sim_then [where Q = "\<lambda>m. ctx_sim m C D", OF assms(1) ctx_sim_mono sim_arg_value [OF assms(2)]])
qed

lemma sim_element_then:
  assumes "Q m" and "\<And>m m'. m \<subseteq>\<^sub>m m' \<Longrightarrow> Q m \<Longrightarrow> Q m'"
    and "\<And>m' x. Q m' \<Longrightarrow> sim m' S (k x) (l x)"
  shows "sim m S (GENC_TRY (lift r) k) (GENC_TRY (lift r) l)"
  by (rule sim_then [where Q = Q, OF assms(1,2) sim_lift_same]) (auto intro: assms(3))

lemma sim_repeat_try:
  assumes "ctx_sim m C D" and "value_rel m f g" and "value_rel m st st'"
  shows "sim m value_rel (repeat_try n (\<lambda>st. create_call C f (Some st)) st)
    (repeat_try n (\<lambda>st. create_call D g (Some st)) st')"
  using assms
proof (induction n arbitrary: m st st')
  case (Suc n)
  then show ?case
    unfolding repeat_try.simps
    by (intro sim_then [where Q = "\<lambda>m. ctx_sim m C D \<and> value_rel m f g" and R = value_rel])
       (auto intro: ctx_ops rel_monos)
qed (auto intro: sim_return)

lemma sim_Repeat:
  fixes C :: "((ValueId, 'w) exec_value, ('v, 's) base_state) executor"
  assumes "ctx_sim m C D" and "rel_option (value_rel m) a a'"
  shows "sim m value_rel (Repeat_ExecuteCall i a C) (Repeat_ExecuteCall i a' D)"
  unfolding Repeat_ExecuteCall_def
proof (intro sim_element_then [where Q = "\<lambda>m. ctx_sim m C D \<and> rel_option (value_rel m) a a'"])
  fix m1 count m2 body
  let ?n = "nat (sint (int_32 count))"
  assume 2: "ctx_sim m2 C D \<and> rel_option (value_rel m2) a a'"
  show "sim m2 value_rel
      (GENC_TRY (create_value C body) (\<lambda>f. GENC_TRY (lift (arg_value a)) (\<lambda>st.
        repeat_try ?n (\<lambda>st. create_call C f (Some st)) st)))
      (GENC_TRY (create_value D body) (\<lambda>f. GENC_TRY (lift (arg_value a')) (\<lambda>st.
        repeat_try ?n (\<lambda>st. create_call D f (Some st)) st)))"
  proof (rule sim_then [where Q = "\<lambda>m. ctx_sim m C D \<and> rel_option (value_rel m) a a'" and R = value_rel])
    fix m3 f g assume 3: "ctx_sim m3 C D \<and> rel_option (value_rel m3) a a'" "value_rel m3 (f :: (ValueId, 'w) exec_value) g"
    show "sim m3 value_rel
        (GENC_TRY (lift (arg_value a)) (\<lambda>st. repeat_try ?n (\<lambda>st. create_call C f (Some st)) st))
        (GENC_TRY (lift (arg_value a')) (\<lambda>st. repeat_try ?n (\<lambda>st. create_call D g (Some st)) st))"
      by (rule sim_then [where Q = "\<lambda>m. ctx_sim m C D \<and> value_rel m f g" and R = value_rel])
         (use 3 in \<open>auto intro: sim_arg_value sim_repeat_try rel_monos\<close>)
  qed (use 2 in \<open>auto intro: ctx_ops rel_monos\<close>)
qed (use assms in \<open>auto intro: rel_monos\<close>)

lemma sim_map_create:
  "ctx_sim m C D \<Longrightarrow> sim m (\<lambda>m. list_all2 (value_rel m)) (map_try (create_value C) es) (map_try (create_value D) es)"
  by (rule sim_map_try [where P = "\<lambda>m. (=)"])
     (auto intro: ctx_ops ctx_sim_mono simp: list.rel_eq)

definition pass_rel :: "'v table \<Rightarrow> (ValueId, 'w) exec_value \<times> bool \<Rightarrow> ('v, 'w) exec_value \<times> bool \<Rightarrow> bool" where
  "pass_rel m r r' \<longleftrightarrow> value_rel m (fst r) (fst r') \<and> snd r = snd r'"

lemma kripke_pass_rel [simp]: "kripke pass_rel"
  by (auto simp: kripke_def pass_rel_def intro: value_rel_mono)

lemma pass_rel_Pair [simp]: "pass_rel m (v, x) (w, y) \<longleftrightarrow> value_rel m v w \<and> x = y"
  by (simp add: pass_rel_def)

lemma sim_pass:
  fixes C :: "((ValueId, 'w) exec_value, ('v, 's) base_state) executor"
  assumes "ctx_sim m C D" and "list_all2 (value_rel m) fs gs" and "value_rel m st st'"
  shows "sim m pass_rel (conditional_chain_pass C fs st) (conditional_chain_pass D gs st')"
  using assms
proof (induction fs arbitrary: m gs st st')
  case Nil
  then show ?case by (auto intro!: sim_return)
next
  case (Cons f fs)
  then obtain g gs' where gs: "gs = g # gs'" "value_rel m f g" "list_all2 (value_rel m) fs gs'"
    by (auto simp: list_all2_Cons1)
  let ?Q = "\<lambda>m. ctx_sim m C D \<and> value_rel m st st' \<and> list_all2 (value_rel m) fs gs'"
  show ?case
    unfolding gs(1) conditional_chain_pass.simps
  proof (rule sim_then [where Q = ?Q and R = value_rel])
    fix m1 x y assume 1: "?Q m1" "value_rel m1 (x :: (ValueId, 'w) exec_value) y"
    have made: "sim m2 pass_rel (GENC_TRY (create_value C pb) (conditional_chain_pass C fs))
        (GENC_TRY (create_value D pb) (conditional_chain_pass D gs'))" if "?Q m2" for m2 pb
      by (rule sim_then [where Q = ?Q and R = value_rel])
         (use that Cons.IH in \<open>auto intro: ctx_ops rel_monos\<close>)
    show "sim m1 pass_rel (GENC_TRY (Materialize_pb C x) (\<lambda>pb.
          if \<not> has_boolean pb then GENC_TRY (create_value C pb) (conditional_chain_pass C fs)
          else if boolean pb then return (st, True) else conditional_chain_pass C fs st))
        (GENC_TRY (Materialize_pb D y) (\<lambda>pb.
          if \<not> has_boolean pb then GENC_TRY (create_value D pb) (conditional_chain_pass D gs')
          else if boolean pb then return (st', True) else conditional_chain_pass D gs' st'))"
      by (rule sim_then [where Q = ?Q and R = "\<lambda>m. (=)"])
         (use 1 Cons.IH made in \<open>auto intro: sim_Materialize_pb sim_return rel_monos\<close>)
  qed (use Cons.prems gs in \<open>auto intro: ctx_ops rel_monos\<close>)
qed

lemma sim_conditional_chain_loop:
  assumes "ctx_sim m C D" and "list_all2 (value_rel m) fs gs" and "value_rel m st st'"
  shows "sim m value_rel (conditional_chain_loop n C fs st) (conditional_chain_loop n D gs st')"
  using assms
proof (induction n arbitrary: m st st')
  case (Suc n)
  let ?Q = "\<lambda>m. ctx_sim m C D \<and> list_all2 (value_rel m) fs gs"
  show ?case
    unfolding conditional_chain_loop.simps
    by (rule sim_then [where Q = ?Q and R = pass_rel])
       (use Suc in \<open>auto intro: sim_pass sim_return rel_monos split: prod.split\<close>)
qed (auto intro: sim_return)

lemma sim_RepeatedConditionalChain:
  fixes C :: "((ValueId, 'w) exec_value, ('v, 's) base_state) executor"
  assumes "ctx_sim m C D" and "rel_option (value_rel m) a a'"
  shows "sim m value_rel (RepeatedConditionalChain_ExecuteCall i a C) (RepeatedConditionalChain_ExecuteCall i a' D)"
  unfolding RepeatedConditionalChain_ExecuteCall_def
proof (intro sim_element_then [where Q = "\<lambda>m. ctx_sim m C D \<and> rel_option (value_rel m) a a'"])
  fix m1 count
  let ?n = "nat (sint (int_32 count))"
  assume 1: "ctx_sim m1 C D \<and> rel_option (value_rel m1) a a'"
  show "sim m1 value_rel
      (GENC_TRY (map_try (create_value C) (tl (params i))) (\<lambda>fs. GENC_TRY (lift (arg_value a)) (\<lambda>st.
        conditional_chain_loop ?n C fs st)))
      (GENC_TRY (map_try (create_value D) (tl (params i))) (\<lambda>fs. GENC_TRY (lift (arg_value a')) (\<lambda>st.
        conditional_chain_loop ?n D fs st)))"
  proof (rule sim_then [where Q = "\<lambda>m. ctx_sim m C D \<and> rel_option (value_rel m) a a'"
        and R = "\<lambda>m. list_all2 (value_rel m)"])
    fix m3 fs gs assume 3: "ctx_sim m3 C D \<and> rel_option (value_rel m3) a a'" "list_all2 (value_rel m3) (fs :: (ValueId, 'w) exec_value list) gs"
    show "sim m3 value_rel
        (GENC_TRY (lift (arg_value a)) (\<lambda>st. conditional_chain_loop ?n C fs st))
        (GENC_TRY (lift (arg_value a')) (\<lambda>st. conditional_chain_loop ?n D gs st))"
      by (rule sim_then [where Q = "\<lambda>m. ctx_sim m C D \<and> list_all2 (value_rel m) fs gs" and R = value_rel])
         (use 3 in \<open>auto intro: sim_arg_value sim_conditional_chain_loop rel_monos\<close>)
  qed (use 1 in \<open>auto intro: sim_map_create rel_monos\<close>)
qed (use assms in \<open>auto intro: rel_monos\<close>)

lemma sim_While_loop:
  fixes C :: "((ValueId, 'w) exec_value, ('v, 's) base_state) executor"
  assumes "ctx_sim m C D" and "value_rel m cf cg" and "value_rel m f g" and "value_rel m st st'"
  shows "sim m value_rel (While_loop n C cf f st) (While_loop n D cg g st')"
  using assms
proof (induction n arbitrary: m st st')
  case (Suc n)
  let ?Q = "\<lambda>m. ctx_sim m C D \<and> value_rel m cf cg \<and> value_rel m f g \<and> value_rel m st st'"
  show ?case
    unfolding While_loop.simps
  proof (rule sim_then [where Q = ?Q and R = value_rel])
    fix m1 x y assume 1: "?Q m1" "value_rel m1 (x :: (ValueId, 'w) exec_value) y"
    have body: "sim m2 value_rel (GENC_TRY (create_call C f (Some st)) (While_loop n C cf f))
        (GENC_TRY (create_call D g (Some st')) (While_loop n D cg g))" if "?Q m2" for m2
      by (rule sim_then [where Q = ?Q and R = value_rel])
         (use that Suc.IH in \<open>auto intro: ctx_ops rel_monos\<close>)
    show "sim m1 value_rel (GENC_TRY (Materialize_pb C x) (\<lambda>pb.
          if \<not> has_boolean pb
          then lift (InvalidArgumentError [Txt ''Condition does not have boolean: '', DebugString pb])
          else if \<not> boolean pb then return st
          else GENC_TRY (create_call C f (Some st)) (While_loop n C cf f)))
        (GENC_TRY (Materialize_pb D y) (\<lambda>pb.
          if \<not> has_boolean pb
          then lift (InvalidArgumentError [Txt ''Condition does not have boolean: '', DebugString pb])
          else if \<not> boolean pb then return st'
          else GENC_TRY (create_call D g (Some st')) (While_loop n D cg g)))"
      by (rule sim_then [where Q = ?Q and R = "\<lambda>m. (=)"])
         (use 1 body in \<open>auto intro: sim_Materialize_pb sim_return sim_lift_Err rel_monos\<close>)
  qed (use Suc.prems in \<open>auto intro: ctx_ops rel_monos\<close>)
qed (simp add: sim_lift_Diverge)

lemma sim_While:
  fixes C :: "((ValueId, 'w) exec_value, ('v, 's) base_state) executor"
  assumes "ctx_sim m C D" and "rel_option (value_rel m) a a'"
  shows "sim m value_rel (While_ExecuteCall n i a C) (While_ExecuteCall n i a' D)"
  unfolding While_ExecuteCall_def
proof (rule sim_element_then [where Q = "\<lambda>m. ctx_sim m C D \<and> rel_option (value_rel m) a a'"])
  fix m1 cond_pb
  let ?Q = "\<lambda>m. ctx_sim m C D \<and> rel_option (value_rel m) a a'"
  assume 1: "?Q m1"
  show "sim m1 value_rel
      (GENC_TRY (create_value C cond_pb) (\<lambda>cf. GENC_TRY (lift (element (params i) 1)) (\<lambda>body_pb.
        GENC_TRY (create_value C body_pb) (\<lambda>f. GENC_TRY (lift (arg_value a)) (While_loop n C cf f)))))
      (GENC_TRY (create_value D cond_pb) (\<lambda>cf. GENC_TRY (lift (element (params i) 1)) (\<lambda>body_pb.
        GENC_TRY (create_value D body_pb) (\<lambda>f. GENC_TRY (lift (arg_value a')) (While_loop n D cf f)))))"
  proof (rule sim_then [where Q = ?Q and R = value_rel])
    fix m2 cf cg assume 2: "?Q m2" "value_rel m2 (cf :: (ValueId, 'w) exec_value) cg"
    let ?Q2 = "\<lambda>m. ?Q m \<and> value_rel m cf cg"
    show "sim m2 value_rel
        (GENC_TRY (lift (element (params i) 1)) (\<lambda>body_pb.
          GENC_TRY (create_value C body_pb) (\<lambda>f. GENC_TRY (lift (arg_value a)) (While_loop n C cf f))))
        (GENC_TRY (lift (element (params i) 1)) (\<lambda>body_pb.
          GENC_TRY (create_value D body_pb) (\<lambda>f. GENC_TRY (lift (arg_value a')) (While_loop n D cg f))))"
    proof (rule sim_element_then [where Q = ?Q2])
      fix m3 body_pb assume 3: "?Q2 m3"
      show "sim m3 value_rel
          (GENC_TRY (create_value C body_pb) (\<lambda>f. GENC_TRY (lift (arg_value a)) (While_loop n C cf f)))
          (GENC_TRY (create_value D body_pb) (\<lambda>f. GENC_TRY (lift (arg_value a')) (While_loop n D cg f)))"
      proof (rule sim_then [where Q = ?Q2 and R = value_rel])
        fix m4 f g assume 4: "?Q2 m4" "value_rel m4 (f :: (ValueId, 'w) exec_value) g"
        show "sim m4 value_rel (GENC_TRY (lift (arg_value a)) (While_loop n C cf f))
            (GENC_TRY (lift (arg_value a')) (While_loop n D cg g))"
          by (rule sim_then [where Q = "\<lambda>m. ?Q2 m \<and> value_rel m f g" and R = value_rel])
             (use 4 in \<open>auto intro: sim_arg_value sim_While_loop rel_monos\<close>)
      qed (use 3 in \<open>auto intro: ctx_ops rel_monos\<close>)
    qed (use 2 in \<open>auto intro: rel_monos\<close>)
  qed (use 1 in \<open>auto intro: ctx_ops rel_monos\<close>)
qed (use assms in \<open>auto intro: rel_monos\<close>)

lemma sim_map_element:
  assumes "ctx_sim m C D" and "value_rel m f g"
  shows "sim m value_rel (map_element C f e) (map_element D g e)"
  unfolding map_element_def
  by (rule sim_then [where Q = "\<lambda>m. ctx_sim m C D \<and> value_rel m f g" and R = value_rel])
     (use assms in \<open>auto intro: ctx_ops rel_monos\<close>)

lemma sim_ParallelMap:
  fixes C :: "((ValueId, 'w) exec_value, ('v, 's) base_state) executor"
  assumes "ctx_sim m C D" and "rel_option (value_rel m) a a'"
  shows "sim m value_rel (ParallelMap_ExecuteCall i a C) (ParallelMap_ExecuteCall i a' D)"
  unfolding ParallelMap_ExecuteCall_def
proof (rule sim_then [where Q = "\<lambda>m. ctx_sim m C D" and R = value_rel])
  fix m1 v w assume 1: "ctx_sim m1 C D" "value_rel m1 (v :: (ValueId, 'w) exec_value) w"
  let ?tail = "\<lambda>E pb. GENC_TRY (create_value E (static_parameter i)) (\<lambda>f.
      GENC_TRY (map_try (map_element E f) (struct_elements pb)) (\<lambda>rs. create_struct E rs))"
  have tail: "sim m2 value_rel
      (GENC_TRY (create_value C (static_parameter i)) (\<lambda>f.
        GENC_TRY (map_try (map_element C f) es) (\<lambda>rs. create_struct C rs)))
      (GENC_TRY (create_value D (static_parameter i)) (\<lambda>f.
        GENC_TRY (map_try (map_element D f) es) (\<lambda>rs. create_struct D rs)))"
    if "ctx_sim m2 C D" for m2 es
  proof (rule sim_then [where Q = "\<lambda>m. ctx_sim m C D" and R = value_rel])
    fix m3 f g assume 3: "ctx_sim m3 C D" "value_rel m3 (f :: (ValueId, 'w) exec_value) g"
    have "sim m3 (\<lambda>m. list_all2 (value_rel m)) (map_try (map_element C f) es) (map_try (map_element D g) es)"
      by (rule sim_map_try [where P = "\<lambda>m. (=)"])
         (use 3 in \<open>auto intro: sim_map_element rel_monos simp: list.rel_eq\<close>)
    then show "sim m3 value_rel (GENC_TRY (map_try (map_element C f) es) (\<lambda>rs. create_struct C rs))
        (GENC_TRY (map_try (map_element D g) es) (\<lambda>rs. create_struct D rs))"
      by (intro sim_then [where Q = "\<lambda>m. ctx_sim m C D" and R = "\<lambda>m. list_all2 (value_rel m)"])
         (use 3 in \<open>auto intro: ctx_ops rel_monos\<close>)
  qed (use that in \<open>auto intro: ctx_ops rel_monos\<close>)
  show "sim m1 value_rel
      (GENC_TRY (Materialize_pb C v) (\<lambda>pb. GENC_TRY (create_value C (static_parameter i)) (\<lambda>f.
        GENC_TRY (map_try (map_element C f) (struct_elements pb)) (\<lambda>rs. create_struct C rs))))
      (GENC_TRY (Materialize_pb D w) (\<lambda>pb. GENC_TRY (create_value D (static_parameter i)) (\<lambda>f.
        GENC_TRY (map_try (map_element D f) (struct_elements pb)) (\<lambda>rs. create_struct D rs))))"
    by (rule sim_then [where Q = "\<lambda>m. ctx_sim m C D" and R = "\<lambda>m. (=)"])
       (use 1 tail in \<open>auto intro: sim_Materialize_pb rel_monos\<close>)
qed (use assms in \<open>auto intro: sim_arg_value rel_monos\<close>)

lemma sim_Delegate:
  assumes "ctx_sim m C D" and "rel_option (value_rel m) a a'"
  shows "sim m value_rel (Delegate_ExecuteCall r i a C) (Delegate_ExecuteCall r i a' D)"
proof -
  let ?Q = "\<lambda>m. ctx_sim m C D \<and> rel_option (value_rel m) a a'"
  let ?arg = "\<lambda>E a. (case a of None \<Rightarrow> return None
      | Some v \<Rightarrow> GENC_TRY (Materialize_pb E v) (\<lambda>arg_pb. lift (Crash BadOptionalAccess)))"
  have arg: "sim m1 (\<lambda>m. (=)) (?arg C a) (?arg D a' :: _ \<Rightarrow> pvalue option outcome \<times> _)" if q: "?Q m1" for m1
  proof (cases a)
    case (Some v)
    then obtain w where "a' = Some w" "value_rel m1 v w" using q by (cases a') auto
    then show ?thesis using Some q
      by (auto intro!: sim_then [where Q = "\<lambda>m. True" and R = "\<lambda>m. (=)"] sim_Materialize_pb sim_lift_Crash)
  qed (use q in \<open>auto intro: sim_return\<close>)
  have run: "sim m1 value_rel
      (GENC_TRY (?arg C a) (\<lambda>o1. GENC_TRY (lift (fn fpb o1)) (create_value C)))
      (GENC_TRY (?arg D a') (\<lambda>o1. GENC_TRY (lift (fn fpb o1)) (create_value D)))"
    if "?Q m1" for m1 and fn :: RunnerFn and fpb
    by (rule sim_then [where Q = ?Q and R = "\<lambda>m. (=)"])
       (use that arg in \<open>auto intro: ctx_ops rel_monos intro!: sim_element_then [where Q = "\<lambda>m. ctx_sim m C D"]\<close>)
  show ?thesis
    unfolding Delegate_ExecuteCall_def
    by (rule sim_element_then [where Q = ?Q])
       (use assms run in \<open>auto intro: ctx_ops rel_monos sim_lift_Err intro!: sim_element_then [where Q = ?Q]
          split: option.split\<close>)
qed

lemma sim_control_flow:
  assumes "ctx_sim m C D" and "rel_option (value_rel m) a a'"
  shows "sim m value_rel (control_flow_ExecuteCall n h i a C) (control_flow_ExecuteCall n h i a' D)"
  using assms
  by (cases h) (simp_all add: sim_Conditional sim_Fallback sim_SerialChain sim_BreakableChain sim_Repeat
      sim_RepeatedConditionalChain sim_While sim_ParallelMap sim_Delegate sim_lift_Crash)

section \<open>The evaluator preserves the relation\<close>

definition ev_sim ::
  "(ValueId, 'w, ('v, 's) base_state) evaluate_fn \<Rightarrow> ('v, 'w, nat \<times> 's) evaluate_fn \<Rightarrow> bool" where
  "ev_sim ev ev' \<longleftrightarrow> (\<forall>m pb sc sc'. scope_rel m sc sc' \<longrightarrow> sim m value_rel (ev pb sc) (ev' pb sc'))"

definition cl_sim ::
  "(ValueId, 'w, ('v, 's) base_state) call_fn \<Rightarrow> ('v, 'w, nat \<times> 's) call_fn \<Rightarrow> bool" where
  "cl_sim cl cl' \<longleftrightarrow> (\<forall>m f g a a'. value_rel m f g \<longrightarrow> rel_option (value_rel m) a a' \<longrightarrow>
     sim m value_rel (cl f a) (cl' g a'))"

lemma ev_simD: "ev_sim ev ev' \<Longrightarrow> scope_rel m sc sc' \<Longrightarrow> sim m value_rel (ev pb sc) (ev' pb sc')"
  by (simp add: ev_sim_def)

lemma cl_simD: "cl_sim cl cl' \<Longrightarrow> value_rel m f g \<Longrightarrow> rel_option (value_rel m) a a' \<Longrightarrow>
   sim m value_rel (cl f a) (cl' g a')"
  by (simp add: cl_sim_def)

lemma scope_rel_mono: "scope_rel m sc sc' \<Longrightarrow> m \<subseteq>\<^sub>m m' \<Longrightarrow> scope_rel m' sc sc'"
  using kripkeD [OF kripke_scope_rel] by blast

lemma sim_embed_in_child: "sim m value_rel (embed_in_child (ExecutorBase impl) v) (embed_in_child (direct impl) v)"
  unfolding embed_in_child_def
  by (rule sim_try [where R = tracks]) (auto intro: sim_base_ops sim_return)

lemma sim_CreateSelectionInternal:
  assumes "value_rel m v w"
  shows "sim m value_rel (CreateSelectionInternal (ExecutorBase impl) v i) (CreateSelectionInternal (direct impl) w i)"
proof (cases v)
  case (Embedded h)
  then show ?thesis using assms
    by (auto simp: CreateSelectionInternal_def intro!: sim_try [where R = tracks] sim_base_ops sim_return)
next
  case (Structure vs)
  then obtain ws where ws: "w = Structure ws" "list_all2 (value_rel m) vs ws" using assms by auto
  then have "length vs = length ws" by (simp add: list_all2_lengthD)
  moreover have "value_rel m (vs ! unat i) (ws ! unat i)" if "unat i < length vs"
    using list_all2_nthD [OF ws(2) that] .
  ultimately show ?thesis using Structure ws(1)
    by (simp add: CreateSelectionInternal_def sim_lift_Err sim_return [OF kripke_value_rel])
qed (use assms in \<open>auto simp: CreateSelectionInternal_def intro: sim_lift_Err\<close>)

lemma sim_EvaluateIntrinsic:
  assumes "scope_rel m sc sc'"
  shows "sim m value_rel (EvaluateIntrinsic hs (ExecutorBase impl) v i sc) (EvaluateIntrinsic hs (direct impl) v i sc')"
  unfolding EvaluateIntrinsic_def
  by (intro sim_element_then [where Q = "\<lambda>m. scope_rel m sc sc'"])
     (use assms in \<open>auto intro: scope_rel_mono sim_return sim_embed_in_child
        intro!: sim_element_then [where Q = "\<lambda>m. scope_rel m sc sc'"]\<close>)

lemma sim_evaluate_local:
  assumes "ev_sim ev ev'" and "scope_rel m sc sc'"
  shows "sim m scope_rel (evaluate_local ev ls l sc) (evaluate_local ev' ls l sc')"
  unfolding evaluate_local_def
  by (rule sim_then [where Q = "\<lambda>m. scope_rel m sc sc'" and R = value_rel])
     (use assms in \<open>auto intro: ev_simD scope_rel_mono sim_with_suffix sim_return value_rel_mono\<close>)

lemma sim_EvaluateBlock:
  assumes "ev_sim ev ev'" and "scope_rel m sc sc'"
  shows "sim m value_rel (EvaluateBlock ev ls r sc) (EvaluateBlock ev' ls r sc')"
proof -
  have "sim m scope_rel (fold_try (evaluate_local ev ls) ls sc) (fold_try (evaluate_local ev' ls) ls sc')"
    by (rule sim_fold_try [where P = "\<lambda>m. (=)"])
       (use assms in \<open>auto intro: sim_evaluate_local simp: list.rel_eq\<close>)
  then show ?thesis
    unfolding EvaluateBlock_def
    by (rule sim_try) (use assms(1) in \<open>auto intro: ev_simD\<close>)
qed

lemma sim_EvaluateReference:
  assumes "scope_rel m sc sc'"
  shows "sim m value_rel (EvaluateReference nm sc) (EvaluateReference nm sc')"
proof -
  have "sim m value_rel (lift (Resolve sc nm)) (lift (Resolve sc' nm))"
    using Resolve_rel [OF assms, of nm]
    by (cases "Resolve sc nm"; cases "Resolve sc' nm")
       (auto simp: lift_Ok intro: sim_return sim_lift_Err sim_lift_Crash sim_lift_Diverge)
  then show ?thesis
    unfolding EvaluateReference_def scope_DebugString_rel [OF assms] by (rule sim_with_suffix)
qed

lemma sim_EvaluateCall:
  fixes ev :: "(ValueId, 'w, ('v, 's) base_state) evaluate_fn"
  assumes "ev_sim ev ev'" and "cl_sim cl cl'" and "scope_rel m sc sc'"
  shows "sim m value_rel (EvaluateCall ev cl f a sc) (EvaluateCall ev' cl' f a sc')"
  unfolding EvaluateCall_def
proof (rule sim_then [where Q = "\<lambda>m. scope_rel m sc sc'" and R = value_rel])
  fix m1 fn gn assume 1: "scope_rel m1 sc sc'" "value_rel m1 (fn :: (ValueId, 'w) exec_value) gn"
  have "sim m1 (\<lambda>m. rel_option (value_rel m))
      (case a of None \<Rightarrow> return None | Some a \<Rightarrow> GENC_TRY (ev a sc) (\<lambda>v. return (Some v)))
      (case a of None \<Rightarrow> return None | Some a \<Rightarrow> GENC_TRY (ev' a sc') (\<lambda>v. return (Some v)))"
    using assms(1) 1
    by (auto simp: ev_sim_def intro!: sim_return sim_try [where R = value_rel] split: option.split)
  then show "sim m1 value_rel
      (GENC_TRY (case a of None \<Rightarrow> return None | Some a \<Rightarrow> GENC_TRY (ev a sc) (\<lambda>v. return (Some v))) (cl fn))
      (GENC_TRY (case a of None \<Rightarrow> return None | Some a \<Rightarrow> GENC_TRY (ev' a sc') (\<lambda>v. return (Some v))) (cl' gn))"
    by (intro sim_then [where Q = "\<lambda>m. value_rel m fn gn" and R = "\<lambda>m. rel_option (value_rel m)"])
       (use 1 assms(2) in \<open>auto intro: cl_simD value_rel_mono\<close>)
qed (use assms in \<open>auto intro: ev_simD scope_rel_mono\<close>)

lemma sim_EvaluateStruct:
  assumes "ev_sim ev ev'" and "scope_rel m sc sc'"
  shows "sim m value_rel (EvaluateStruct ev es sc) (EvaluateStruct ev' es sc')"
proof -
  have "sim m (\<lambda>m. list_all2 (value_rel m)) (map_try (\<lambda>e. ev e sc) es) (map_try (\<lambda>e. ev' e sc') es)"
    by (rule sim_map_try [where P = "\<lambda>m. (=)"])
       (use assms in \<open>auto simp: list.rel_eq intro: ev_simD scope_rel_mono\<close>)
  then show ?thesis unfolding EvaluateStruct_def by (rule sim_try) (auto intro: sim_return)
qed

lemma sim_Evaluate_F:
  assumes "ev_sim ev ev'" and "cl_sim cl cl'" and "scope_rel m sc sc'"
  shows "sim m value_rel (Evaluate_F hs (ExecutorBase impl) ev cl v sc) (Evaluate_F hs (direct impl) ev' cl' v sc')"
proof (cases "value_case v")
  case (KSelection s i)
  have "sim m value_rel (EvaluateSelection (ExecutorBase impl) ev (or_default s) i sc)
      (EvaluateSelection (direct impl) ev' (or_default s) i sc')"
    unfolding EvaluateSelection_def
    by (rule sim_try [where R = value_rel])
       (use assms in \<open>auto simp: ev_sim_def intro: sim_CreateSelectionInternal\<close>)
  then show ?thesis using KSelection by (simp add: Evaluate_F_def)
qed (use assms in \<open>auto simp: Evaluate_F_def EvaluateLambda_def intro: sim_EvaluateBlock sim_EvaluateReference
       sim_EvaluateCall sim_EvaluateStruct sim_EvaluateIntrinsic sim_embed_in_child sim_return\<close>)

lemma sim_ConstCreateExecutorValue:
  assumes "ev_sim ev ev'"
  shows "sim m value_rel (ConstCreateExecutorValue (ExecutorBase impl) ev v) (ConstCreateExecutorValue (direct impl) ev' v)"
  using assms
  by (cases "value_case v")
     (auto simp: ConstCreateExecutorValue_def ev_sim_def intro: sim_lift_Err sim_embed_in_child)

lemma ctx_sim_impl:
  assumes "ev_sim ev ev'" and "cl_sim cl cl'" and "scope_rel m sc sc'"
  shows "ctx_sim m (ControlFlowIntrinsicCallContextImpl (ExecutorBase impl) ev cl sc)
    (ControlFlowIntrinsicCallContextImpl (direct impl) ev' cl' sc')"
proof -
  have "sim m' value_rel (context_CreateValue (ExecutorBase impl) ev sc pb) (context_CreateValue (direct impl) ev' sc' pb)"
    if "m \<subseteq>\<^sub>m m'" for m' pb
    using assms(1) scope_rel_mono [OF assms(3) that] sim_ConstCreateExecutorValue [OF assms(1)]
    by (auto simp: context_CreateValue_def ev_sim_def)
  then show ?thesis
    using assms(2)
    by (auto simp: ctx_sim_def ControlFlowIntrinsicCallContextImpl_def cl_sim_def
        intro: sim_return sim_Materialize)
qed

lemma sim_ConstCreateCall_F:
  assumes "ev_sim ev ev'" and "cl_sim cl cl'" and "value_rel m f g" and "rel_option (value_rel m) a a'"
  shows "sim m value_rel (ConstCreateCall_F n (ExecutorBase impl) ev cl f a)
    (ConstCreateCall_F n (direct impl) ev' cl' g a')"
proof (cases f)
  case (LambdaV l sc)
  then obtain sc' where "g = LambdaV l sc'" "scope_rel m sc sc'" using assms(3) by auto
  then show ?thesis using LambdaV assms(1,4)
    by (cases a; cases a') (auto simp: ConstCreateCall_F_def ScopedLambda_Call_def ev_sim_def)
next
  case (IntrinsicV i h sc)
  then obtain sc' where g: "g = IntrinsicV i h sc'" "scope_rel m sc sc'" using assms(3) by auto
  let ?C = "ControlFlowIntrinsicCallContextImpl (ExecutorBase impl) ev cl sc"
  let ?D = "ControlFlowIntrinsicCallContextImpl (direct impl) ev' cl' sc'"
  have "sim m value_rel (ScopedIntrinsic_Call n (ExecutorBase impl) ev cl i h sc a)
      (ScopedIntrinsic_Call n (direct impl) ev' cl' i h sc' a')"
    unfolding ScopedIntrinsic_Call_def
    by (rule sim_element_then [where Q = "\<lambda>m. ctx_sim m ?C ?D \<and> rel_option (value_rel m) a a'"])
       (use assms(4) ctx_sim_impl [OF assms(1,2) g(2)] in \<open>auto intro: rel_monos sim_control_flow\<close>)
  then show ?thesis using IntrinsicV g by (simp add: ConstCreateCall_F_def)
qed (use assms in \<open>auto simp: ConstCreateCall_F_def intro: sim_call_child sim_lift_Err\<close>)

lemma interp_sim:
  "ev_sim (Evaluate n hs (ExecutorBase impl)) (Evaluate n hs (direct impl)) \<and>
   cl_sim (ConstCreateCall n hs (ExecutorBase impl)) (ConstCreateCall n hs (direct impl))"
proof (induction n)
  case 0
  then show ?case by (simp add: ev_sim_def cl_sim_def sim_lift_Diverge)
next
  case (Suc n)
  then show ?case
    unfolding Evaluate_Suc ConstCreateCall_Suc
    by (auto simp: ev_sim_def [of "Evaluate_F _ _ _ _"] cl_sim_def [of "ConstCreateCall_F _ _ _ _"]
        intro: sim_Evaluate_F sim_ConstCreateCall_F)
qed

section \<open>The theorem\<close>

text \<open>A computation as the runner submits it: create the value, then materialize it.\<close>

definition create_and_materialize ::
  "nat \<Rightarrow> 'w IntrinsicHandlerSet \<Rightarrow> ('h, 's) executor \<Rightarrow> pvalue \<Rightarrow> ('s, pvalue option) prog" where
  "create_and_materialize n hs child v =
     GENC_TRY (ConstCreateExecutorValue child (Evaluate n hs child) v) (\<lambda>r.
     ConstMaterialize child r True)"

lemma sim_create_and_materialize:
  "sim m (\<lambda>m. (=)) (create_and_materialize n hs (ExecutorBase impl) v)
    (create_and_materialize n hs (direct impl) v)"
  unfolding create_and_materialize_def
  by (rule sim_try [where R = value_rel])
     (use interp_sim in \<open>auto intro: sim_ConstCreateExecutorValue sim_Materialize\<close>)

text \<open>
  C3: running a computation on the control flow executor over a child that keeps its
  values in the table of \<open>ExecutorBase\<close> gives the same value, error or crash and leaves
  the same child state as running it over a child whose handles are the values
  themselves, from any well-formed table with room for the values created, and keeps the
  table well-formed: handle numbers, lookups and disposed temporaries are never visible.
\<close>

theorem handles_are_invisible:
  assumes "tracked_inv b" and "unat (next_value_id b) + budget < 2 ^ 64"
    and "create_and_materialize n hs (direct impl) v (budget, sub_state b) = (r, (budget', s'))"
    and "r \<noteq> Diverge"
  shows "\<exists>b'. create_and_materialize n hs (ExecutorBase impl) v b = (r, b') \<and>
    sub_state b' = s' \<and> tracked_inv b' \<and> tracked_values b \<subseteq>\<^sub>m tracked_values b'"
proof -
  have "st_rel b (budget, sub_state b)" using assms(1,2) by (simp add: st_rel_def)
  from simD [OF sim_create_and_materialize this map_le_refl, of n hs impl v] assms(3,4)
  obtain r1 b' r2 c' where "create_and_materialize n hs (ExecutorBase impl) v b = (r1, b')"
    "create_and_materialize n hs (direct impl) v (budget, sub_state b) = (r2, c')"
    "st_rel b' c'" "tracked_values b \<subseteq>\<^sub>m tracked_values b'" "rel_outcome (=) r1 r2"
    by auto
  then show ?thesis using assms(3) by (auto simp: outcome.rel_eq st_rel_def)
qed

text \<open>A small stack: logical negation below, a block and a call above.\<close>

definition sample_handlers :: "unit IntrinsicHandlerSet" where
  "sample_handlers = fold AddHandler [LogicalNot, Conditional, Fallback, SerialChain] Map.empty"

definition sample_stack :: "(ValueFuture, unit process) executor_impl" where
  "sample_stack = InlineExecutor sample_handlers sample_libs thread_based"

definition not_computation :: pvalue where
  "not_computation = plain (KBlock [LocalPb ''x'' (Some (plain (KBoolean True)))]
     (Some (plain (KCall (Some (plain (KIntrinsic (IntrinsicPb kLogicalNot None))))
                         (Some (plain (KReference ''x'')))))))"

lemma not_computation_direct:
  "create_and_materialize 10 sample_handlers (direct sample_stack) not_computation (9, new_process) =
     (Ok (Some (plain (KBoolean False))), (6, new_process))"
  by code_simp

lemma handles_are_invisible_witness:
  "\<exists>b'. create_and_materialize 10 sample_handlers (ExecutorBase sample_stack) not_computation
       (initial_state new_process) = (Ok (Some (plain (KBoolean False))), b') \<and> sub_state b' = new_process"
proof -
  let ?b = "initial_state new_process :: (ValueFuture, unit process) base_state"
  have d: "create_and_materialize 10 sample_handlers (direct sample_stack) not_computation (9, sub_state ?b) =
      (Ok (Some (plain (KBoolean False))), (6, new_process))"
    by (simp add: initial_state_def not_computation_direct)
  have room: "unat (next_value_id ?b) + 9 < 2 ^ 64"
    by (simp add: initial_state_def)
  show ?thesis
    using handles_are_invisible [OF tracked_inv_initial room d] by auto
qed

end
