(* ===== verification/Runner.thy ===== *)
theory Runner
  imports Control_Flow_Executor Inline_Executor
begin

text \<open>
  \<^verbatim>\<open>genc/cc/runtime/runner.cc\<close> and \<^verbatim>\<open>executor_stacks.cc\<close>: the entry point that runs a
  computation on an executor, and the local stack of a control flow executor over an
  inline executor. The three owned handles of a run are released when it returns.
\<close>

section \<open>The local executor stack\<close>

type_synonym 'w inline_state = "(ValueFuture, 'w process) base_state"
type_synonym 'w local_state = "((ValueId, 'w) exec_value, 'w inline_state) base_state"

definition CreateLocalExecutor ::
  "nat \<Rightarrow> 'w IntrinsicHandlerSet \<Rightarrow> 'c libs \<Rightarrow> schedule option \<Rightarrow> (ValueId, 'w local_state) executor" where
  "CreateLocalExecutor n hs lib concurrency_interface =
     (let ci = (case concurrency_interface of None \<Rightarrow> thread_based | Some c \<Rightarrow> c)
      in CreateControlFlowExecutor n hs (CreateInlineExecutor hs lib ci))"

definition default_config :: "'w HandlerSetConfig" where
  "default_config = \<lparr>delegate_map = Map.empty, model_inference_map = Map.empty,
     model_inference_with_config_map = Map.empty, custom_function_map = Map.empty,
     custom_intrinsics_list = [], http_client_interface = Ok ()\<rparr>"

definition CreateDefaultLocalExecutor :: "nat \<Rightarrow> 'c libs \<Rightarrow> (ValueId, 'w local_state) executor" where
  "CreateDefaultLocalExecutor n lib =
     CreateLocalExecutor n (CreateCompleteHandlerSet default_config) lib None"

definition initial_local_state :: "'w process \<Rightarrow> 'w local_state" where
  "initial_local_state p = initial_state (initial_state p)"

section \<open>The runner\<close>

record ('h, 's) runner =
  computation_or_null :: "pvalue option"
  runner_executor :: "('h, 's) executor"

definition Runner_Create :: "('h, 's) executor option \<Rightarrow> ('h, 's) runner outcome" where
  "Runner_Create ex = (case ex of
      None \<Rightarrow> InvalidArgumentError [Txt ''Executor must not be null.'']
    | Some e \<Rightarrow> Ok \<lparr>computation_or_null = None, runner_executor = e\<rparr>)"

definition Runner_Create_with :: "pvalue \<Rightarrow> ('h, 's) executor option \<Rightarrow> ('h, 's) runner outcome" where
  "Runner_Create_with computation ex = (case ex of
      None \<Rightarrow> InvalidArgumentError [Txt ''Executor must not be null.'']
    | Some e \<Rightarrow> Ok \<lparr>computation_or_null = Some computation, runner_executor = e\<rparr>)"

text \<open>The result variable is the empty message until it is materialized into.\<close>

definition RunInternal :: "('h, 's) executor \<Rightarrow> pvalue \<Rightarrow> pvalue \<Rightarrow> ('s, pvalue) prog" where
  "RunInternal ex computation arg =
     GENC_TRY (create_value ex computation) (\<lambda>comp_val. finally_release ex [comp_val]
       (GENC_TRY (create_value ex arg) (\<lambda>arg_val. finally_release ex [arg_val]
         (GENC_TRY (create_call ex comp_val (Some arg_val)) (\<lambda>result_val. finally_release ex [result_val]
           (Materialize_pb ex result_val))))))"

definition Run_arg :: "('h, 's) runner \<Rightarrow> pvalue \<Rightarrow> ('s, pvalue) prog" where
  "Run_arg r arg = (case computation_or_null r of
      None \<Rightarrow> lift (InvalidArgumentError [Txt ''A computation was not provided in the constructor.''])
    | Some computation \<Rightarrow> RunInternal (runner_executor r) computation arg)"

definition Run_computation :: "('h, 's) runner \<Rightarrow> pvalue \<Rightarrow> pvalue \<Rightarrow> ('s, pvalue) prog" where
  "Run_computation r computation arg = (case computation_or_null r of
      Some c \<Rightarrow> lift (InvalidArgumentError [Txt ''A computation was already provided in the constructor.''])
    | None \<Rightarrow> RunInternal (runner_executor r) computation arg)"

section \<open>A run leaves no trace in the table\<close>

text \<open>The same steps on the values of the subclass, without handles.\<close>

definition run_values :: "('v, 's) executor_impl \<Rightarrow> pvalue \<Rightarrow> pvalue \<Rightarrow> ('s, pvalue) prog" where
  "run_values impl computation arg =
     GENC_TRY (impl_create_value impl computation) (\<lambda>f.
     GENC_TRY (impl_create_value impl arg) (\<lambda>a.
     GENC_TRY (impl_create_call impl f (Some a)) (\<lambda>r.
     GENC_TRY (impl_materialize impl r True) (\<lambda>v. return (case v of None \<Rightarrow> empty_value | Some p \<Rightarrow> p)))))"

text \<open>Room for a number of further values.\<close>

definition room_for :: "nat \<Rightarrow> ('v, 's) base_state \<Rightarrow> bool" where
  "room_for k b \<longleftrightarrow> tracked_inv b \<and> unat (next_value_id b) + k < 2 ^ 64"

lemma room_for_Suc: "room_for (Suc k) b \<Longrightarrow> room b \<and> unat (next_value_id b + 1) = Suc (unat (next_value_id b))"
proof -
  assume r: "room_for (Suc k) b"
  have "next_value_id b \<noteq> - 1"
  proof
    assume "next_value_id b = - 1"
    then have "unat (next_value_id b) = 2 ^ 64 - 1" by (simp add: unsigned_minus_1_eq_mask mask_eq_exp_minus_1)
    then show False using r by (simp add: room_for_def)
  qed
  then show ?thesis by (simp add: room_def unat_plus_one)
qed

lemma room_for_TrackValue:
  "room_for (Suc k) b \<Longrightarrow> room_for k (snd (TrackValue v b))"
  using room_for_Suc [of k b] TrackValue_inv [of b v]
  by (auto simp: room_for_def TrackValue_eq)

lemma room_for_sub: "room_for k (b\<lparr>sub_state := s\<rparr>) = room_for k b"
  by (simp add: room_for_def tracked_inv_def)

text \<open>
  One owned handle: the value is tracked, the rest runs with the handle, and the release
  takes the handle out of the table again.
\<close>

definition restores :: "('v, 's) base_state \<Rightarrow> 'a outcome \<times> ('v, 's) base_state \<Rightarrow> 'a outcome \<times> 's \<Rightarrow> bool" where
  "restores b r r' \<longleftrightarrow> fst r = fst r' \<and> sub_state (snd r) = snd r' \<and>
     (case fst r of Crash c \<Rightarrow> True | Diverge \<Rightarrow> True
      | _ \<Rightarrow> tracked_values (snd r) = tracked_values b \<and> tracked_inv (snd r))"

lemma owned_step:
  assumes "room_for (Suc k) b"
    and make: "\<And>b1. tracked_values b1 = tracked_values b \<Longrightarrow> p b1 = GENC_TRY (in_sub q) TrackValue b1"
    and rest: "\<And>h v b1. room_for k b1 \<Longrightarrow> tracked_values b1 = (tracked_values b)(h \<mapsto> v) \<Longrightarrow>
      tracked_values b h = None \<Longrightarrow> restores b1 (k1 h b1) (k2 v (sub_state b1))"
  shows "restores b (GENC_TRY p (\<lambda>h. finally_release (ExecutorBase impl) [h] (k1 h)) b)
    (GENC_TRY q k2 (sub_state b))"
proof -
  obtain x s' where q: "q (sub_state b) = (x, s')" by (cases "q (sub_state b)")
  let ?b1 = "b\<lparr>sub_state := s'\<rparr>"
  have inv: "tracked_inv ?b1" "tracked_inv b"
    using assms(1) by (simp_all add: room_for_def tracked_inv_def)
  have pb: "p b = (case x of Ok v \<Rightarrow> TrackValue v ?b1 | Err e \<Rightarrow> (Err e, ?b1)
      | Crash c \<Rightarrow> (Crash c, ?b1) | Diverge \<Rightarrow> (Diverge, ?b1))"
    using make [of b] q by (simp add: GENC_TRY_apply in_sub_def split: outcome.split)
  show ?thesis
  proof (cases x)
    case (Ok v)
    let ?h = "next_value_id b"
    obtain b2 where b2: "TrackValue v ?b1 = (Ok ?h, b2)"
      and vals: "tracked_values b2 = (tracked_values b)(?h \<mapsto> v)" and sub: "sub_state b2 = s'"
      by (simp add: TrackValue_eq [OF inv(1)])
    have "room_for k b2"
      using room_for_TrackValue [of k ?b1 v] assms(1) b2 by (simp add: room_for_sub)
    from rest [OF this vals tracked_inv_fresh [OF inv(2)]]
    have r: "restores b2 (k1 ?h b2) (k2 v s')" by (simp add: sub)
    obtain y b3 where y: "k1 ?h b2 = (y, b3)" by (cases "k1 ?h b2")
    obtain z t where z: "k2 v s' = (z, t)" by (cases "k2 v s'")
    have fresh: "tracked_values b ?h = None" using tracked_inv_fresh [OF inv(2)] .
    have drop: "snd (base_dispose impl ?h b3) = b3\<lparr>tracked_values := (tracked_values b3)(?h := None)\<rparr>"
      if "tracked_values b3 = tracked_values b2"
      using that by (simp add: base_dispose_def vals)
    have same: "((tracked_values b)(?h \<mapsto> v))(?h := None) = tracked_values b"
      using fresh by (simp add: fun_upd_idem)
    show ?thesis
      using r y z pb Ok b2 q drop vals same
      by (cases y) (auto simp: GENC_TRY_apply finally_release_def release_handles_def restores_def
          tracked_inv_def)
  qed (use pb q inv in \<open>auto simp: GENC_TRY_apply restores_def\<close>)
qed

lemma Materialize_pb_base:
  assumes "tracked_values b h = Some v" and "tracked_inv b"
  shows "restores b (Materialize_pb (ExecutorBase impl) h b)
    (GENC_TRY (impl_materialize impl v True) (\<lambda>v. return (case v of None \<Rightarrow> empty_value | Some p \<Rightarrow> p)) (sub_state b))"
proof -
  obtain x s' where x: "impl_materialize impl v True (sub_state b) = (x, s')"
    by (cases "impl_materialize impl v True (sub_state b)")
  then show ?thesis
    using assms
    by (cases x) (simp_all add: Materialize_pb_def GENC_TRY_apply base_materialize_def GetTracked_Some
        in_sub_def return_apply restores_def tracked_inv_def)
qed

text \<open>The run over the table and the four steps on values have the same outcome and effects.\<close>

lemma RunInternal_restores:
  fixes b :: "('v, 's) base_state"
  assumes "room_for 3 b"
  shows "restores b (RunInternal (ExecutorBase impl) computation arg b)
    (run_values impl computation arg (sub_state b))"
proof -
  have r3: "room_for (Suc 2) b" using assms by (simp add: numeral_3_eq_3 numeral_2_eq_2)
  show ?thesis
    unfolding RunInternal_def run_values_def
  proof (rule owned_step [OF r3])
    fix f fv and b1 :: "('v, 's) base_state"
    assume b1: "room_for 2 b1" "tracked_values b1 = (tracked_values b)(f \<mapsto> fv)" "tracked_values b f = None"
    then have r2: "room_for (Suc 1) b1" by (simp add: numeral_2_eq_2)
    show "restores b1 (GENC_TRY (create_value (ExecutorBase impl) arg) (\<lambda>a. finally_release (ExecutorBase impl) [a]
          (GENC_TRY (create_call (ExecutorBase impl) f (Some a)) (\<lambda>r. finally_release (ExecutorBase impl) [r]
            (Materialize_pb (ExecutorBase impl) r)))) b1)
        (GENC_TRY (impl_create_value impl arg) (\<lambda>a. GENC_TRY (impl_create_call impl fv (Some a)) (\<lambda>r.
          GENC_TRY (impl_materialize impl r True) (\<lambda>v. return (case v of None \<Rightarrow> empty_value | Some p \<Rightarrow> p))))
          (sub_state b1))"
    proof (rule owned_step [OF r2])
      fix a av and b2 :: "('v, 's) base_state"
      assume b2: "room_for 1 b2" "tracked_values b2 = (tracked_values b1)(a \<mapsto> av)" "tracked_values b1 a = None"
      then have r1: "room_for (Suc 0) b2" by simp
      have fa: "tracked_values b2 f = Some fv" "tracked_values b2 a = Some av"
        using b1 b2 by auto
      show "restores b2 (GENC_TRY (create_call (ExecutorBase impl) f (Some a)) (\<lambda>r.
            finally_release (ExecutorBase impl) [r] (Materialize_pb (ExecutorBase impl) r)) b2)
          (GENC_TRY (impl_create_call impl fv (Some av)) (\<lambda>r. GENC_TRY (impl_materialize impl r True)
            (\<lambda>v. return (case v of None \<Rightarrow> empty_value | Some p \<Rightarrow> p))) (sub_state b2))"
      proof (rule owned_step [OF r1])
        fix b3 :: "('v, 's) base_state"
        assume "tracked_values b3 = tracked_values b2"
        then show "create_call (ExecutorBase impl) f (Some a) b3 =
            GENC_TRY (in_sub (impl_create_call impl fv (Some av))) TrackValue b3"
          using fa by (simp add: base_create_call_def GENC_TRY_apply [of "GetTracked _ _"] GetTracked_Some
              return_apply GENC_TRY_assoc)
      next
        fix r rv and b3 :: "('v, 's) base_state"
        assume "room_for 0 b3" "tracked_values b3 = (tracked_values b2)(r \<mapsto> rv)"
        then show "restores b3 (Materialize_pb (ExecutorBase impl) r b3)
            (GENC_TRY (impl_materialize impl rv True)
              (\<lambda>v. return (case v of None \<Rightarrow> empty_value | Some p \<Rightarrow> p)) (sub_state b3))"
          by (intro Materialize_pb_base) (simp_all add: room_for_def)
      qed
    qed (simp add: base_create_value_def)
  qed (simp add: base_create_value_def)
qed

text \<open>
  C4: running a computation gives the outcome of its four steps on the executor's own
  values, and when it returns, with a value or an error, the executor's table is as it
  was: the handles of the computation, of the argument and of the result are all gone.
\<close>

theorem RunInternal_leaves_no_handles:
  assumes "tracked_inv b" and "unat (next_value_id b) + 3 < 2 ^ 64"
    and "RunInternal (ExecutorBase impl) computation arg b = (r, b')"
  shows "r = fst (run_values impl computation arg (sub_state b)) \<and>
    sub_state b' = snd (run_values impl computation arg (sub_state b)) \<and>
    ((\<exists>v. r = Ok v) \<or> (\<exists>e. r = Err e) \<longrightarrow> tracked_values b' = tracked_values b \<and> tracked_inv b')"
  using RunInternal_restores [of b impl computation arg] assms
  by (auto simp: room_for_def restores_def split: outcome.splits)

definition negation_stack :: "(ValueFuture, unit process) executor_impl" where
  "negation_stack = InlineExecutor [kLogicalNot \<mapsto> LogicalNot] sample_libs thread_based"

lemma run_negation:
  "run_values negation_stack (plain (KIntrinsic (IntrinsicPb kLogicalNot None))) (plain (KBoolean True)) new_process
   = (Ok (plain (KBoolean False)), new_process)"
  by code_simp

lemma RunInternal_leaves_no_handles_witness:
  "\<exists>b'. RunInternal (ExecutorBase negation_stack) (plain (KIntrinsic (IntrinsicPb kLogicalNot None)))
     (plain (KBoolean True)) (initial_state new_process) = (Ok (plain (KBoolean False)), b') \<and>
     tracked_values b' = Map.empty"
proof -
  let ?b = "initial_state new_process :: unit inline_state"
  let ?run = "RunInternal (ExecutorBase negation_stack) (plain (KIntrinsic (IntrinsicPb kLogicalNot None)))
     (plain (KBoolean True)) ?b"
  obtain r b' where rb: "?run = (r, b')" by (cases ?run)
  have room: "unat (next_value_id ?b) + 3 < 2 ^ 64" by (simp add: initial_state_def)
  have sub: "sub_state ?b = new_process" "tracked_values ?b = Map.empty" by (simp_all add: initial_state_def)
  from RunInternal_leaves_no_handles [OF tracked_inv_initial room rb]
  show ?thesis using rb run_negation by (simp add: sub)
qed

text \<open>
  A runner is created only with an executor, runs its own computation when it was
  given one and refuses another, and otherwise needs one with the call.
\<close>

lemma Runner_modes:
  "Runner_Create None = InvalidArgumentError [Txt ''Executor must not be null.''] \<and>
   Runner_Create_with c None = InvalidArgumentError [Txt ''Executor must not be null.''] \<and>
   try_value (Runner_Create_with c (Some ex)) (\<lambda>r. Ok (Run_arg r a s)) = Ok (RunInternal ex c a s) \<and>
   try_value (Runner_Create (Some ex)) (\<lambda>r. Ok (Run_computation r c a s)) = Ok (RunInternal ex c a s) \<and>
   try_value (Runner_Create (Some ex)) (\<lambda>r. Ok (fst (Run_arg r a s))) =
     Ok (InvalidArgumentError [Txt ''A computation was not provided in the constructor.'']) \<and>
   try_value (Runner_Create_with c (Some ex)) (\<lambda>r. Ok (fst (Run_computation r c' a s))) =
     Ok (InvalidArgumentError [Txt ''A computation was already provided in the constructor.''])"
  by (simp add: Runner_Create_def Runner_Create_with_def Run_arg_def Run_computation_def lift_apply)

end
