(* ===== verification/Remote.thy ===== *)
theory Remote
  imports Runner Ownership
begin

text \<open>
  \<^verbatim>\<open>genc/cc/runtime/executor_service.cc\<close> and \<^verbatim>\<open>remote_executor.cc\<close>: the gRPC service that
  puts an executor on the network, and the executor that is its client. A value of the
  server is named by the decimal text of its identifier; the client holds it in a future
  and disposes of it when the future's value is destroyed. The theorems show that a run
  through the two gives what a run on the server gives and leaves no handle on either
  side.
\<close>

section \<open>References to values\<close>

text \<open>
  The number printer and parser of the string library are parameters; what the service
  relies on is the contract \<open>number_codec\<close>.
\<close>

record atoi_lib =
  StrCat_id :: "ValueId \<Rightarrow> string"
  SimpleAtoi_id :: "string \<Rightarrow> ValueId option"

definition ValueIdToRef :: "atoi_lib \<Rightarrow> ValueId \<Rightarrow> string" where
  "ValueIdToRef A vid = StrCat_id A vid"

definition RefToValueId :: "atoi_lib \<Rightarrow> string \<Rightarrow> ValueId outcome" where
  "RefToValueId A ref = (case SimpleAtoi_id A ref of
      Some vid \<Rightarrow> Ok vid
    | None \<Rightarrow> InvalidArgumentError [Txt ''Invalid value reference: '', Txt ref])"

section \<open>The service\<close>

text \<open>
  A method returns a gRPC status and fills in a response, which is what it was initially,
  \<open>r0\<close>, when the method returns early. \<open>or_reply\<close> is the early return of the status of a
  step that failed.
\<close>

type_synonym ('s, 'r) rpc = "('s, grpc_status \<times> 'r) prog"

definition or_reply ::
  "'r \<Rightarrow> ('s, 'a) prog \<Rightarrow> ('a \<Rightarrow> ('s, 'r) rpc) \<Rightarrow> ('s, 'r) rpc" where
  "or_reply r0 p k = (\<lambda>s. case p s of
      (Ok x, s') \<Rightarrow> k x s'
    | (Err e, s') \<Rightarrow> (Ok (AbslToGrpcStatus (Some e), r0), s')
    | (Crash c, s') \<Rightarrow> (Crash c, s')
    | (Diverge, s') \<Rightarrow> (Diverge, s'))"

text \<open>The reply with the reference of a new value, whose owned handle is then forgotten.\<close>

definition reply_ref :: "atoi_lib \<Rightarrow> ValueId \<Rightarrow> ('s, string) rpc" where
  "reply_ref A vid =
     GENC_TRY (lift (owned_ref \<lparr>owned_exec = True, owned_id = vid\<rparr>))
       (\<lambda>i. return (grpc_ok, ValueIdToRef A i))"

definition Service_CreateValue ::
  "atoi_lib \<Rightarrow> (ValueId, 's) executor \<Rightarrow> pvalue \<Rightarrow> ('s, string) rpc" where
  "Service_CreateValue A ex val = or_reply [] (create_value ex val) (reply_ref A)"

definition Service_CreateCall ::
  "atoi_lib \<Rightarrow> (ValueId, 's) executor \<Rightarrow> string \<Rightarrow> string option \<Rightarrow> ('s, string) rpc" where
  "Service_CreateCall A ex function_ref argument_ref =
     or_reply [] (lift (RefToValueId A function_ref)) (\<lambda>func.
     or_reply [] (case argument_ref of
                    None \<Rightarrow> return None
                  | Some a \<Rightarrow> GENC_TRY (lift (RefToValueId A a)) (\<lambda>v. return (Some v))) (\<lambda>optional_arg.
     or_reply [] (create_call ex func optional_arg) (reply_ref A)))"

definition Service_CreateStruct ::
  "atoi_lib \<Rightarrow> (ValueId, 's) executor \<Rightarrow> string list \<Rightarrow> ('s, string) rpc" where
  "Service_CreateStruct A ex element_refs =
     or_reply [] (map_try (\<lambda>r. lift (RefToValueId A r)) element_refs) (\<lambda>elements.
     or_reply [] (create_struct ex elements) (reply_ref A))"

definition Service_CreateSelection ::
  "atoi_lib \<Rightarrow> (ValueId, 's) executor \<Rightarrow> string \<Rightarrow> u32 \<Rightarrow> ('s, string) rpc" where
  "Service_CreateSelection A ex source_ref index =
     or_reply [] (lift (RefToValueId A source_ref)) (\<lambda>source.
     or_reply [] (create_selection ex source index) (reply_ref A))"

definition Service_Materialize ::
  "atoi_lib \<Rightarrow> (ValueId, 's) executor \<Rightarrow> string \<Rightarrow> ('s, pvalue) rpc" where
  "Service_Materialize A ex value_ref =
     or_reply empty_value (lift (RefToValueId A value_ref)) (\<lambda>val.
     or_reply empty_value (Materialize_pb ex val) (\<lambda>v. return (AbslToGrpcStatus None, v)))"

text \<open>Disposing of several values goes on after an error and reports all of them.\<close>

definition dispose_ref ::
  "atoi_lib \<Rightarrow> (ValueId, 's) executor \<Rightarrow> string \<Rightarrow> ('s, unit) prog" where
  "dispose_ref A ex r = GENC_TRY (lift (RefToValueId A r)) (dispose ex)"

fun dispose_refs ::
  "atoi_lib \<Rightarrow> (ValueId, 's) executor \<Rightarrow> string list \<Rightarrow> status list \<Rightarrow> ('s, status list) prog" where
  "dispose_refs A ex [] error_strings = return error_strings"
| "dispose_refs A ex (r # rs) error_strings = (\<lambda>s. case dispose_ref A ex r s of
      (Ok _, s') \<Rightarrow> dispose_refs A ex rs error_strings s'
    | (Err e, s') \<Rightarrow> dispose_refs A ex rs (error_strings @ [e]) s'
    | (Crash c, s') \<Rightarrow> (Crash c, s')
    | (Diverge, s') \<Rightarrow> (Diverge, s'))"

fun StrJoin_lines :: "status list \<Rightarrow> message" where
  "StrJoin_lines [] = []"
| "StrJoin_lines [e] = [StatusText (code e) (msg e)]"
| "StrJoin_lines (e # es) = StatusText (code e) (msg e) # Txt ''\<newline>'' # StrJoin_lines es"

definition Service_Dispose ::
  "atoi_lib \<Rightarrow> (ValueId, 's) executor \<Rightarrow> string list \<Rightarrow> ('s, unit) rpc" where
  "Service_Dispose A ex value_refs =
     GENC_TRY (dispose_refs A ex value_refs []) (\<lambda>error_strings.
     if error_strings \<noteq> []
     then return (AbslToGrpcStatus (Some (Status kInternal (StrJoin_lines error_strings))), ())
     else return (grpc_ok, ()))"

text \<open>
  The stub a client holds. A unary call of gRPC that reaches the server gives the client
  the status and the response of the method; this is the stub of a service in reach.
\<close>

record 's stub =
  rpc_CreateValue :: "pvalue \<Rightarrow> ('s, string) rpc"
  rpc_CreateCall :: "string \<Rightarrow> string option \<Rightarrow> ('s, string) rpc"
  rpc_CreateStruct :: "string list \<Rightarrow> ('s, string) rpc"
  rpc_CreateSelection :: "string \<Rightarrow> u32 \<Rightarrow> ('s, string) rpc"
  rpc_Materialize :: "string \<Rightarrow> ('s, pvalue) rpc"
  rpc_Dispose :: "string list \<Rightarrow> ('s, unit) rpc"

definition CreateExecutorService :: "atoi_lib \<Rightarrow> (ValueId, 's) executor \<Rightarrow> 's stub" where
  "CreateExecutorService A ex = \<lparr>
     rpc_CreateValue = Service_CreateValue A ex,
     rpc_CreateCall = Service_CreateCall A ex,
     rpc_CreateStruct = Service_CreateStruct A ex,
     rpc_CreateSelection = Service_CreateSelection A ex,
     rpc_Materialize = Service_Materialize A ex,
     rpc_Dispose = Service_Dispose A ex\<rparr>"

section \<open>The remote executor\<close>

text \<open>
  A value of the remote executor is a future of a reference. The state below the table
  of handles is the state of the server.
\<close>

type_synonym RemoteValue = "string task"

definition status_or :: "('s, 'r) rpc \<Rightarrow> ('s, 'r) prog" where
  "status_or call =
     GENC_TRY call (\<lambda>(status, response). case GrpcToAbslStatus status of
        None \<Rightarrow> return response
      | Some e \<Rightarrow> lift (Err e))"

definition Remote_CreateExecutorValue ::
  "'s stub \<Rightarrow> schedule \<Rightarrow> pvalue \<Rightarrow> ('s, RemoteValue) prog" where
  "Remote_CreateExecutorValue st sch val_pb = RunAsync sch (status_or (rpc_CreateValue st val_pb))"

text \<open>The response is moved to the output pointer whatever the status and the pointer are.\<close>

definition Remote_Materialize ::
  "'s stub \<Rightarrow> RemoteValue \<Rightarrow> bool \<Rightarrow> ('s, pvalue option) prog" where
  "Remote_Materialize st value_future want =
     GENC_TRY (lift (Task_Get value_future)) (\<lambda>value_ref.
     GENC_TRY (rpc_Materialize st value_ref) (\<lambda>(status, response).
     if \<not> want then lift (Crash NullDereference)
     else case GrpcToAbslStatus status of
         None \<Rightarrow> return (Some response)
       | Some e \<Rightarrow> lift (Err e)))"

definition Remote_CreateCall ::
  "'s stub \<Rightarrow> schedule \<Rightarrow> RemoteValue \<Rightarrow> RemoteValue option \<Rightarrow> ('s, RemoteValue) prog" where
  "Remote_CreateCall st sch func arg =
     RunAsync sch
       (GENC_TRY (lift (Task_Get func)) (\<lambda>func_value.
        GENC_TRY (case arg of
                    None \<Rightarrow> return None
                  | Some a \<Rightarrow> GENC_TRY (lift (Task_Get a)) (\<lambda>r. return (Some r))) (\<lambda>arg_value.
        status_or (rpc_CreateCall st func_value arg_value))))"

definition Remote_CreateStruct ::
  "'s stub \<Rightarrow> schedule \<Rightarrow> RemoteValue list \<Rightarrow> ('s, RemoteValue) prog" where
  "Remote_CreateStruct st sch elements =
     RunAsync sch
       (GENC_TRY (map_try (\<lambda>e. lift (Task_Get e)) elements) (\<lambda>refs.
        status_or (rpc_CreateStruct st refs)))"

definition Remote_CreateSelection ::
  "'s stub \<Rightarrow> schedule \<Rightarrow> RemoteValue \<Rightarrow> u32 \<Rightarrow> ('s, RemoteValue) prog" where
  "Remote_CreateSelection st sch source index =
     RunAsync sch
       (GENC_TRY (lift (Task_Get source)) (\<lambda>source_value.
        status_or (rpc_CreateSelection st source_value index)))"

definition RemoteExecutor :: "'s stub \<Rightarrow> schedule \<Rightarrow> (RemoteValue, 's) executor_impl" where
  "RemoteExecutor st sch = \<lparr>
     executor_name = ''RemoteExecutor'',
     impl_create_value = Remote_CreateExecutorValue st sch,
     impl_create_call = Remote_CreateCall st sch,
     impl_create_struct = Remote_CreateStruct st sch,
     impl_create_selection = Remote_CreateSelection st sch,
     impl_materialize = Remote_Materialize st\<rparr>"

text \<open>
  The destructor of a value, which runs when the table drops the only future that holds
  it: a job that disposes of the value on the server and ignores the status. A future
  that holds an error has no value to destroy.
\<close>

definition destroy_value :: "'s stub \<Rightarrow> schedule \<Rightarrow> RemoteValue \<Rightarrow> ('s, unit) prog" where
  "destroy_value st sch future = (case task_result future of
      Ok ref \<Rightarrow> GENC_TRY (RunAsync sch (rpc_Dispose st [ref])) (\<lambda>_. return ())
    | _ \<Rightarrow> return ())"

definition remote_dispose ::
  "'s stub \<Rightarrow> schedule \<Rightarrow> ValueId \<Rightarrow> ((RemoteValue, 's) base_state, unit) prog" where
  "remote_dispose st sch vid = (\<lambda>b.
     GENC_TRY (base_dispose (RemoteExecutor st sch) vid)
       (\<lambda>_. case tracked_values b vid of
          Some future \<Rightarrow> in_sub (destroy_value st sch future)
        | None \<Rightarrow> return ()) b)"

definition CreateRemoteExecutor ::
  "'s stub \<Rightarrow> schedule \<Rightarrow> (ValueId, (RemoteValue, 's) base_state) executor" where
  "CreateRemoteExecutor st sch =
     (ExecutorBase (RemoteExecutor st sch))\<lparr>dispose := remote_dispose st sch\<rparr>"

lemma CreateExecutorService_sel [simp]:
  "rpc_CreateValue (CreateExecutorService A ex) = Service_CreateValue A ex"
  "rpc_CreateCall (CreateExecutorService A ex) = Service_CreateCall A ex"
  "rpc_CreateStruct (CreateExecutorService A ex) = Service_CreateStruct A ex"
  "rpc_CreateSelection (CreateExecutorService A ex) = Service_CreateSelection A ex"
  "rpc_Materialize (CreateExecutorService A ex) = Service_Materialize A ex"
  "rpc_Dispose (CreateExecutorService A ex) = Service_Dispose A ex"
  by (simp_all add: CreateExecutorService_def)

lemma CreateRemoteExecutor_sel [simp]:
  "create_value (CreateRemoteExecutor st sch) = base_create_value (RemoteExecutor st sch)"
  "create_call (CreateRemoteExecutor st sch) = base_create_call (RemoteExecutor st sch)"
  "materialize (CreateRemoteExecutor st sch) = base_materialize (RemoteExecutor st sch)"
  "dispose (CreateRemoteExecutor st sch) = remote_dispose st sch"
  by (simp_all add: CreateRemoteExecutor_def)

lemma RemoteExecutor_sel [simp]:
  "executor_name (RemoteExecutor st sch) = ''RemoteExecutor''"
  "impl_create_value (RemoteExecutor st sch) = Remote_CreateExecutorValue st sch"
  "impl_create_call (RemoteExecutor st sch) = Remote_CreateCall st sch"
  "impl_materialize (RemoteExecutor st sch) = Remote_Materialize st"
  by (simp_all add: RemoteExecutor_def)

section \<open>A remote run\<close>

text \<open>The same steps on values of the server, each held in a future.\<close>

definition future :: "('s, 'a) prog \<Rightarrow> ('s, 'a outcome) prog" where
  "future q = (\<lambda>s. case q s of (Crash c, s') \<Rightarrow> (Crash c, s') | (r, s') \<Rightarrow> (Ok r, s'))"

definition future_run :: "('v, 's) executor_impl \<Rightarrow> pvalue \<Rightarrow> pvalue \<Rightarrow> ('s, pvalue) prog" where
  "future_run impl computation arg =
     GENC_TRY (future (impl_create_value impl computation)) (\<lambda>f.
     GENC_TRY (future (impl_create_value impl arg)) (\<lambda>a.
     GENC_TRY (future (GENC_TRY (lift f) (\<lambda>fv. GENC_TRY (lift a) (\<lambda>av. impl_create_call impl fv (Some av)))))
       (\<lambda>r.
     GENC_TRY (lift r) (\<lambda>rv.
     GENC_TRY (impl_materialize impl rv True) (\<lambda>v. return (or_default v))))))"

text \<open>A job that makes a value on the server, or fails before or while making it.\<close>

definition served ::
  "atoi_lib \<Rightarrow> ('s, 'v) prog \<Rightarrow> (('v, 's) base_state, string) prog \<Rightarrow> ('v, 's) base_state \<Rightarrow> bool" where
  "served A q job sb \<longleftrightarrow> job sb = (case q (sub_state sb) of
      (Ok v, s') \<Rightarrow> (Ok (StrCat_id A (next_value_id sb)), snd (TrackValue v (sb\<lparr>sub_state := s'\<rparr>)))
    | (Err e, s') \<Rightarrow> (Err e, sb\<lparr>sub_state := s'\<rparr>)
    | (Crash c, s') \<Rightarrow> (Crash c, sb\<lparr>sub_state := s'\<rparr>)
    | (Diverge, s') \<Rightarrow> (Diverge, sb\<lparr>sub_state := s'\<rparr>))"

lemma or_reply_Ok [simp]: "or_reply r0 (return x) k = k x" "or_reply r0 (lift (Ok x)) k = k x"
  by (simp_all add: or_reply_def return_def lift_def)

lemma RefToValueId_ref:
  assumes "number_codec (StrCat_id A) (SimpleAtoi_id A)"
  shows "RefToValueId A (StrCat_id A i) = Ok i"
  using number_codec.parse_print [OF assms, of i] by (simp add: RefToValueId_def)

lemma served_reply:
  assumes "p sb = GENC_TRY (in_sub q) TrackValue sb" and "next_value_id sb \<noteq> - 1"
  shows "served A q (status_or (or_reply [] p (reply_ref A))) sb"
  using assms
  by (auto simp: served_def status_or_def or_reply_def reply_ref_def GENC_TRY_apply in_sub_def
      TrackValue_def Let_def owned_ref_def INVALID_ID_def lift_apply return_apply
      AbslToGrpcStatus_def GrpcToAbslStatus_def grpc_ok_def ValueIdToRef_def
      split: prod.splits outcome.splits)

lemma served_stop:
  "served A (lift (Err e)) (lift (Err e)) sb" "served A (lift Diverge) (lift Diverge) sb"
  by (simp_all add: served_def lift_apply)

text \<open>Both tables are as they were, unless the process crashed or the run goes on for ever.\<close>

type_synonym ('v, 's) remote_state = "(RemoteValue, ('v, 's) base_state) base_state"

definition restores_both ::
  "('v, 's) remote_state \<Rightarrow> 'a outcome \<times> ('v, 's) remote_state \<Rightarrow> 'a outcome \<times> 's \<Rightarrow> bool" where
  "restores_both b r r' \<longleftrightarrow> fst r = fst r' \<and> sub_state (sub_state (snd r)) = snd r' \<and>
     (case fst r of Crash c \<Rightarrow> True | Diverge \<Rightarrow> True
      | _ \<Rightarrow> tracked_values (snd r) = tracked_values b \<and>
             tracked_values (sub_state (snd r)) = tracked_values (sub_state b))"

definition room_both :: "nat \<Rightarrow> ('v, 's) remote_state \<Rightarrow> bool" where
  "room_both k b \<longleftrightarrow> room_for k b \<and> room_for k (sub_state b)"

definition holds_value ::
  "atoi_lib \<Rightarrow> ('v, 's) base_state \<Rightarrow> ('v, 's) base_state \<Rightarrow> RemoteValue \<Rightarrow> 'v outcome \<Rightarrow> bool" where
  "holds_value A sb sb1 fut x \<longleftrightarrow> waitable fut = thread_based \<and>
     (case x of
        Ok v \<Rightarrow> \<exists>i. task_result fut = Ok (StrCat_id A i) \<and> tracked_values sb i = None \<and>
                  tracked_values sb1 = (tracked_values sb)(i \<mapsto> v)
      | Err e \<Rightarrow> task_result fut = Err e \<and> tracked_values sb1 = tracked_values sb
      | Crash c \<Rightarrow> False
      | Diverge \<Rightarrow> task_result fut = Diverge \<and> tracked_values sb1 = tracked_values sb)"

definition server :: "atoi_lib \<Rightarrow> ('v, 's) executor_impl \<Rightarrow> ('v, 's) base_state stub" where
  "server A impl = CreateExecutorService A (ExecutorBase impl)"

definition client ::
  "atoi_lib \<Rightarrow> ('v, 's) executor_impl \<Rightarrow> (ValueId, ('v, 's) remote_state) executor" where
  "client A impl = CreateRemoteExecutor (server A impl) thread_based"

lemma room_for_table: "room_for k (b\<lparr>tracked_values := t\<rparr>) \<Longrightarrow> t' \<subseteq>\<^sub>m t \<Longrightarrow> room_for k (b\<lparr>tracked_values := t'\<rparr>)"
  by (fastforce simp: room_for_def tracked_inv_def map_le_def dom_def)

text \<open>Field selection, stated once for tables whose sub-state is a table again.\<close>

lemma table_fields [simp]:
  fixes b :: "('v, 's) base_state"
  shows "sub_state (b\<lparr>tracked_values := t\<rparr>) = sub_state b"
    "sub_state (b\<lparr>next_value_id := n\<rparr>) = sub_state b"
    "tracked_values (b\<lparr>sub_state := s\<rparr>) = tracked_values b"
    "tracked_values (b\<lparr>next_value_id := n\<rparr>) = tracked_values b"
    "next_value_id (b\<lparr>sub_state := s\<rparr>) = next_value_id b"
    "next_value_id (b\<lparr>tracked_values := t\<rparr>) = next_value_id b"
  by (cases b; simp)+

lemma destroy_held_value:
  assumes "number_codec (StrCat_id A) (SimpleAtoi_id A)"
    and "task_result fut = Ok (StrCat_id A i)" and "tracked_values sb i = Some v"
  shows "destroy_value (server A impl) thread_based fut sb =
    (Ok (), sb\<lparr>tracked_values := (tracked_values sb)(i := None)\<rparr>)"
  using assms(2-)
  by (simp add: server_def GENC_TRY_apply base_dispose_def
      destroy_value_def RunAsync_def thread_based_def Service_Dispose_def dispose_ref_def
      RefToValueId_ref [OF assms(1)] lift_apply return_apply)

lemma remote_dispose_value:
  assumes "number_codec (StrCat_id A) (SimpleAtoi_id A)"
    and "tracked_values b h = Some fut" and "task_result fut = Ok (StrCat_id A i)"
    and "tracked_values (sub_state b) i = Some v"
  shows "snd (dispose (client A impl) h b) =
    b\<lparr>tracked_values := (tracked_values b)(h := None),
      sub_state := (sub_state b)\<lparr>tracked_values := (tracked_values (sub_state b))(i := None)\<rparr>\<rparr>"
  using assms(2) destroy_held_value [OF assms(1,3,4)]
  by (simp add: client_def remote_dispose_def GENC_TRY_apply base_dispose_def in_sub_def)

lemma remote_dispose_nothing:
  assumes "tracked_values b h = Some fut" and "\<nexists>r. task_result fut = Ok r"
  shows "snd (dispose (client A impl) h b) = b\<lparr>tracked_values := (tracked_values b)(h := None)\<rparr>"
proof -
  have "destroy_value (server A impl) thread_based fut = return ()"
    using assms(2) by (cases "task_result fut") (simp_all add: destroy_value_def)
  with assms(1) show ?thesis
    by (simp add: client_def remote_dispose_def GENC_TRY_apply base_dispose_def in_sub_def return_apply)
qed

lemma served_room:
  assumes "room_for (Suc k) sb" and "served A q job sb" and "q (sub_state sb) = (x, s')" and "job sb = (r, sb')"
    and "\<nexists>c. x = Crash c"
  shows "room_for k sb'"
proof -
  have s1: "room_for (Suc k) (sb\<lparr>sub_state := s'\<rparr>)" using assms(1) by (simp add: room_for_sub)
  show ?thesis
  proof (cases x)
    case (Ok v)
    then show ?thesis
      using room_for_TrackValue [OF s1, of v] assms(2-4) by (simp add: served_def)
  qed (use s1 assms(2-5) in \<open>auto simp: served_def room_for_def\<close>)
qed

lemma remote_make:
  assumes inv: "tracked_inv b" and served: "served A q job (sub_state b)"
    and inv2: "tracked_inv (sub_state b)"
  shows "(\<exists>x fut b1 h. GENC_TRY (in_sub (RunAsync thread_based job)) TrackValue b = (Ok h, b1) \<and>
      future q (sub_state (sub_state b)) = (Ok x, sub_state (sub_state b1)) \<and>
      tracked_values b h = None \<and> tracked_values b1 = (tracked_values b)(h \<mapsto> fut) \<and>
      holds_value A (sub_state b) (sub_state b1) fut x \<and>
      (\<forall>k. room_both (Suc k) b \<longrightarrow> room_both k b1)) \<or>
    (\<exists>c b1. GENC_TRY (in_sub (RunAsync thread_based job)) TrackValue b = (Crash c, b1) \<and>
      future q (sub_state (sub_state b)) = (Crash c, sub_state (sub_state b1)))"
proof -
  obtain x s' where q: "q (sub_state (sub_state b)) = (x, s')" by (cases "q (sub_state (sub_state b))")
  obtain r sb' where job: "job (sub_state b) = (r, sb')" by (cases "job (sub_state b)")
  have sub': "sub_state sb' = s'"
    using served q job by (cases x) (auto simp: served_def TrackValue_def Let_def)
  show ?thesis
  proof (cases "\<exists>c. x = Crash c")
    case True
    then show ?thesis
      using served q job by (auto simp: served_def GENC_TRY_apply in_sub_def RunAsync_def thread_based_def future_def)
  next
    case False
    let ?fut = "\<lparr>waitable = thread_based, task_result = r\<rparr>"
    let ?b' = "b\<lparr>sub_state := sb'\<rparr>"
    have not_crash: "\<nexists>c. r = Crash c"
      using False served q job by (cases x) (auto simp: served_def)
    have run: "GENC_TRY (in_sub (RunAsync thread_based job)) TrackValue b = TrackValue ?fut ?b'"
      using not_crash job by (cases r) (simp_all add: GENC_TRY_apply in_sub_def RunAsync_def thread_based_def)
    have inv': "tracked_inv ?b'" using inv by (simp add: tracked_inv_def)
    have track: "TrackValue ?fut ?b' = (Ok (next_value_id b),
        ?b'\<lparr>next_value_id := next_value_id b + 1, tracked_values := (tracked_values b)(next_value_id b \<mapsto> ?fut)\<rparr>)"
      by (simp add: TrackValue_eq [OF inv'])
    let ?b1 = "snd (TrackValue ?fut ?b')"
    have sb1: "sub_state ?b1 = sb'" by (simp add: track)
    have holds: "holds_value A (sub_state b) sb' ?fut x"
      using served q job False tracked_inv_fresh [OF inv2]
      by (cases x) (auto simp: served_def holds_value_def TrackValue_def Let_def)
    have room: "room_both k ?b1" if "room_both (Suc k) b" for k
    proof -
      have "room_for (Suc k) ?b'" using that by (simp add: room_both_def room_for_sub)
      then have c: "room_for k ?b1" by (rule room_for_TrackValue)
      have "room_for k sb'"
        by (rule served_room [OF _ served q job False]) (use that in \<open>simp add: room_both_def\<close>)
      then show ?thesis using c by (simp add: room_both_def sb1)
    qed
    have "future q (sub_state (sub_state b)) = (Ok x, sub_state (sub_state ?b1))"
      using q False sub' by (cases x) (simp_all add: future_def sb1)
    then show ?thesis
      using run track holds room tracked_inv_fresh [OF inv] sb1
      by (intro disjI1 exI [of _ x] exI [of _ ?fut] exI [of _ ?b1] exI [of _ "next_value_id b"])
        (auto simp:)
  qed
qed

text \<open>Releasing the handle of a value that was made leaves the tables as they were before.\<close>

lemma remote_release:
  assumes codec: "number_codec (StrCat_id A) (SimpleAtoi_id A)"
    and h: "tracked_values b h = None" "tracked_values b2 = (tracked_values b)(h \<mapsto> fut)"
    and holds: "holds_value A (sub_state b) sb1 fut x" and t: "tracked_values (sub_state b2) = tracked_values sb1"
  shows "tracked_values (snd (dispose (client A impl) h b2)) = tracked_values b \<and>
    tracked_values (sub_state (snd (dispose (client A impl) h b2))) = tracked_values (sub_state b) \<and>
    sub_state (sub_state (snd (dispose (client A impl) h b2))) = sub_state (sub_state b2)"
proof (cases "\<exists>v. x = Ok v")
  case True
  then obtain v i where f: "task_result fut = Ok (StrCat_id A i)" "tracked_values (sub_state b) i = None"
      "tracked_values sb1 = (tracked_values (sub_state b))(i \<mapsto> v)"
    using holds by (auto simp: holds_value_def)
  show ?thesis
    using remote_dispose_value [OF codec _ f(1), of b2 h v impl] f t h by (simp add: fun_upd_idem)
next
  case False
  then have f: "\<nexists>r. task_result fut = Ok r" "tracked_values sb1 = tracked_values (sub_state b)"
    using holds by (auto simp: holds_value_def split: outcome.splits)
  show ?thesis
    using remote_dispose_nothing [OF _ f(1), of b2 h A impl] f t h by (simp add: fun_upd_idem)
qed

lemma remote_step:
  assumes codec: "number_codec (StrCat_id A) (SimpleAtoi_id A)" and room: "room_both (Suc k) b"
    and make: "p b = GENC_TRY (in_sub (RunAsync thread_based job)) TrackValue b"
    and served: "served A q job (sub_state b)"
    and rest: "\<And>h fut x b1. room_both k b1 \<Longrightarrow> tracked_values b h = None \<Longrightarrow>
      tracked_values b1 = (tracked_values b)(h \<mapsto> fut) \<Longrightarrow> holds_value A (sub_state b) (sub_state b1) fut x \<Longrightarrow>
      restores_both b1 (k1 h b1) (k2 x (sub_state (sub_state b1)))"
  shows "restores_both b (GENC_TRY p (\<lambda>h. finally_release (client A impl) [h] (k1 h)) b)
    (GENC_TRY (future q) k2 (sub_state (sub_state b)))"
proof -
  have inv: "tracked_inv b" "tracked_inv (sub_state b)"
    using room by (simp_all add: room_both_def room_for_def)
  from remote_make [OF inv(1) served inv(2)] show ?thesis
  proof (elim disjE exE conjE)
    fix c b1
    assume "GENC_TRY (in_sub (RunAsync thread_based job)) TrackValue b = (Crash c, b1)"
      and "future q (sub_state (sub_state b)) = (Crash c, sub_state (sub_state b1))"
    then show ?thesis by (simp add: make GENC_TRY_apply [of p] GENC_TRY_apply [of "future q"] restores_both_def)
  next
    fix x fut b1 h
    assume p: "GENC_TRY (in_sub (RunAsync thread_based job)) TrackValue b = (Ok h, b1)"
      and q: "future q (sub_state (sub_state b)) = (Ok x, sub_state (sub_state b1))"
      and h: "tracked_values b h = None" "tracked_values b1 = (tracked_values b)(h \<mapsto> fut)"
      and holds: "holds_value A (sub_state b) (sub_state b1) fut x"
      and "\<forall>k. room_both (Suc k) b \<longrightarrow> room_both k b1"
    then have r: "restores_both b1 (k1 h b1) (k2 x (sub_state (sub_state b1)))"
      using rest [OF _ h holds] room by simp
    obtain y b2 where y: "k1 h b1 = (y, b2)" by (cases "k1 h b1")
    obtain z t1 where z: "k2 x (sub_state (sub_state b1)) = (z, t1)" by (cases "k2 x (sub_state (sub_state b1))")
    show ?thesis
    proof (cases "(\<exists>v. y = Ok v) \<or> (\<exists>e. y = Err e)")
      case True
      then have t: "tracked_values b2 = tracked_values b1"
          "tracked_values (sub_state b2) = tracked_values (sub_state b1)"
        using r y by (auto simp: restores_both_def)
      have "tracked_values (snd (dispose (client A impl) h b2)) = tracked_values b \<and>
          tracked_values (sub_state (snd (dispose (client A impl) h b2))) = tracked_values (sub_state b) \<and>
          sub_state (sub_state (snd (dispose (client A impl) h b2))) = sub_state (sub_state b2)"
        by (rule remote_release [OF codec h(1) _ holds]) (use t h(2) in simp_all)
      then show ?thesis
        using True r y z p q
        by (cases y) (auto simp: make GENC_TRY_apply [of p] GENC_TRY_apply [of "future q"] finally_release_def
            release_handles_def restores_both_def)
    next
      case False
      then show ?thesis
        using r y z p q
        by (cases y) (auto simp: make GENC_TRY_apply [of p] GENC_TRY_apply [of "future q"] finally_release_def
            restores_both_def)
    qed
  qed
qed

text \<open>A future whose value is in the table of the server, whatever else is.\<close>

definition held :: "atoi_lib \<Rightarrow> ('v, 's) base_state \<Rightarrow> RemoteValue \<Rightarrow> 'v outcome \<Rightarrow> bool" where
  "held A sb fut x \<longleftrightarrow> waitable fut = thread_based \<and>
     (case x of
        Ok v \<Rightarrow> \<exists>i. task_result fut = Ok (StrCat_id A i) \<and> tracked_values sb i = Some v
      | Err e \<Rightarrow> task_result fut = Err e
      | Crash c \<Rightarrow> False
      | Diverge \<Rightarrow> task_result fut = Diverge)"

lemma holds_value_held: "holds_value A sb sb1 fut x \<Longrightarrow> held A sb1 fut x"
  by (cases x) (auto simp: holds_value_def held_def)

lemma holds_value_le: "holds_value A sb sb1 fut x \<Longrightarrow> tracked_values sb \<subseteq>\<^sub>m tracked_values sb1"
  by (cases x) (auto simp: holds_value_def)

lemma held_mono: "held A sb fut x \<Longrightarrow> tracked_values sb \<subseteq>\<^sub>m tracked_values sb1 \<Longrightarrow> held A sb1 fut x"
  by (cases x) (auto simp: held_def dest: map_leD)

lemma held_cases:
  assumes "held A sb fut x"
  obtains v i where "x = Ok v" "Task_Get fut = Ok (StrCat_id A i)" "tracked_values sb i = Some v"
    | e where "x = Err e" "Task_Get fut = Err e"
    | "x = Diverge" "Task_Get fut = Diverge"
  using assms by (cases x) (auto simp: held_def Task_Get_def thread_based_def)

lemma served_call:
  assumes codec: "number_codec (StrCat_id A) (SimpleAtoi_id A)"
    and "held A sb f xf" and "held A sb a xa" and "next_value_id sb \<noteq> - 1"
  shows "served A (GENC_TRY (lift xf) (\<lambda>fv. GENC_TRY (lift xa) (\<lambda>av. impl_create_call impl fv (Some av))))
    (GENC_TRY (lift (Task_Get f)) (\<lambda>fr.
     GENC_TRY (GENC_TRY (lift (Task_Get a)) (\<lambda>r. return (Some r))) (\<lambda>ar.
     status_or (rpc_CreateCall (server A impl) fr ar)))) sb"
  using assms(2)
proof (cases rule: held_cases)
  case f: (1 fv i)
  from assms(3) show ?thesis
  proof (cases rule: held_cases)
    case a: (1 av j)
    have "create_call (ExecutorBase impl) i (Some j) sb =
        GENC_TRY (in_sub (impl_create_call impl fv (Some av))) TrackValue sb"
      using f a by (simp add: base_create_call_def GENC_TRY_apply GetTracked_def return_apply)
    then have "served A (impl_create_call impl fv (Some av))
        (status_or (or_reply [] (create_call (ExecutorBase impl) i (Some j)) (reply_ref A))) sb"
      by (rule served_reply) (rule assms(4))
    then show ?thesis
      using f a by (simp add: server_def Service_CreateCall_def RefToValueId_ref [OF codec])
  qed (use f in \<open>simp_all add: served_stop\<close>)
qed (simp_all add: served_stop)

lemma served_create_value:
  assumes "next_value_id sb \<noteq> - 1"
  shows "served A (impl_create_value impl v) (status_or (rpc_CreateValue (server A impl) v)) sb"
  using served_reply [of "create_value (ExecutorBase impl) v" sb "impl_create_value impl v" A] assms
  by (simp add: server_def Service_CreateValue_def base_create_value_def)

lemma room_both_id: "room_both (Suc k) b \<Longrightarrow> next_value_id (sub_state b) \<noteq> - 1"
  using room_for_Suc [of k "sub_state b"] by (simp add: room_both_def room_def)

lemma remote_materialize:
  assumes codec: "number_codec (StrCat_id A) (SimpleAtoi_id A)"
    and "tracked_values b h = Some fut" and "held A (sub_state b) fut x"
  shows "restores_both b (Materialize_pb (client A impl) h b)
    (GENC_TRY (lift x) (\<lambda>rv. GENC_TRY (impl_materialize impl rv True) (\<lambda>v. return (or_default v)))
      (sub_state (sub_state b)))"
  using assms(3)
proof (cases rule: held_cases)
  case (1 v i)
  obtain y s' where y: "impl_materialize impl v True (sub_state (sub_state b)) = (y, s')"
    by (cases "impl_materialize impl v True (sub_state (sub_state b))")
  let ?sb = "(sub_state b)\<lparr>sub_state := s'\<rparr>"
  have pb: "Materialize_pb (ExecutorBase impl) i (sub_state b) =
      (case y of Ok w \<Rightarrow> (Ok (or_default w), ?sb) | Err e \<Rightarrow> (Err e, ?sb)
       | Crash c \<Rightarrow> (Crash c, ?sb) | Diverge \<Rightarrow> (Diverge, ?sb))"
    using 1 y by (simp add: Materialize_pb_def GENC_TRY_apply base_materialize_def GetTracked_def in_sub_def
        return_apply or_default_def split: outcome.split option.split)
  have "Remote_Materialize (server A impl) fut True (sub_state b) =
      (case y of Ok w \<Rightarrow> (Ok (Some (or_default w)), ?sb) | Err e \<Rightarrow> (Err e, ?sb)
       | Crash c \<Rightarrow> (Crash c, ?sb) | Diverge \<Rightarrow> (Diverge, ?sb))"
    using 1 pb
    by (simp add: Remote_Materialize_def server_def Service_Materialize_def RefToValueId_ref [OF codec]
        or_reply_def GENC_TRY_apply return_apply lift_apply AbslToGrpcStatus_def GrpcToAbslStatus_def
        grpc_ok_def split: outcome.splits)
  then show ?thesis
    using 1 assms(2) y
    by (cases y) (simp_all add: Materialize_pb_def client_def GENC_TRY_apply base_materialize_def GetTracked_def
        in_sub_def return_apply restores_both_def or_default_def)
qed (use assms(2) in \<open>simp_all add: Materialize_pb_def client_def GENC_TRY_apply base_materialize_def
    GetTracked_def in_sub_def return_apply restores_both_def Remote_Materialize_def lift_apply\<close>)

text \<open>The last step of a run, the call and the reading of its result.\<close>

lemma remote_call_future:
  fixes b2 :: "('v, 's) remote_state"
  assumes codec: "number_codec (StrCat_id A) (SimpleAtoi_id A)" and room: "room_both (Suc 0) b2"
    and fa: "tracked_values b2 f = Some ff" "tracked_values b2 a = Some af"
    and held: "held A (sub_state b2) ff xf" "held A (sub_state b2) af xa"
  shows "restores_both b2 (GENC_TRY (create_call (client A impl) f (Some a)) (\<lambda>r.
        finally_release (client A impl) [r] (Materialize_pb (client A impl) r)) b2)
      (GENC_TRY (future (GENC_TRY (lift xf) (\<lambda>fv. GENC_TRY (lift xa) (\<lambda>av. impl_create_call impl fv (Some av)))))
        (\<lambda>r. GENC_TRY (lift r) (\<lambda>rv. GENC_TRY (impl_materialize impl rv True) (\<lambda>v. return (or_default v))))
      (sub_state (sub_state b2)))"
proof (rule remote_step [OF codec room _ served_call [OF codec held room_both_id [OF room]]])
  show "create_call (client A impl) f (Some a) b2 = GENC_TRY (in_sub (RunAsync thread_based
      (GENC_TRY (lift (Task_Get ff)) (\<lambda>fr.
       GENC_TRY (GENC_TRY (lift (Task_Get af)) (\<lambda>r. return (Some r))) (\<lambda>ar.
       status_or (rpc_CreateCall (server A impl) fr ar)))))) TrackValue b2"
    using fa by (simp add: client_def base_create_call_def GENC_TRY_apply [of "GetTracked _ _"]
        GetTracked_Some return_apply GENC_TRY_assoc Remote_CreateCall_def)
next
  fix r rf xr and b3 :: "('v, 's) remote_state"
  assume "tracked_values b3 = (tracked_values b2)(r \<mapsto> rf)"
    and "holds_value A (sub_state b2) (sub_state b3) rf xr"
  then show "restores_both b3 (Materialize_pb (client A impl) r b3)
      (GENC_TRY (lift xr) (\<lambda>rv. GENC_TRY (impl_materialize impl rv True) (\<lambda>v. return (or_default v)))
        (sub_state (sub_state b3)))"
    by (intro remote_materialize [OF codec, of _ _ rf]) (auto dest: holds_value_held)
qed

text \<open>A step that creates a value.\<close>

lemma remote_value_step:
  fixes b :: "('v, 's) remote_state"
  assumes codec: "number_codec (StrCat_id A) (SimpleAtoi_id A)" and room: "room_both (Suc k) b"
    and rest: "\<And>h fut x b1. room_both k b1 \<Longrightarrow> tracked_values b h = None \<Longrightarrow>
      tracked_values b1 = (tracked_values b)(h \<mapsto> fut) \<Longrightarrow> holds_value A (sub_state b) (sub_state b1) fut x \<Longrightarrow>
      restores_both b1 (k1 h b1) (k2 x (sub_state (sub_state b1)))"
  shows "restores_both b (GENC_TRY (create_value (client A impl) v) (\<lambda>h. finally_release (client A impl) [h] (k1 h)) b)
    (GENC_TRY (future (impl_create_value impl v)) k2 (sub_state (sub_state b)))"
proof (rule remote_step [OF codec room])
  show "create_value (client A impl) v b = GENC_TRY (in_sub (RunAsync thread_based
      (status_or (rpc_CreateValue (server A impl) v)))) TrackValue b"
    by (simp add: client_def base_create_value_def Remote_CreateExecutorValue_def)
  show "served A (impl_create_value impl v) (status_or (rpc_CreateValue (server A impl) v)) (sub_state b)"
    by (rule served_create_value) (rule room_both_id [OF room])
qed (rule rest)

lemma remote_run_future:
  assumes codec: "number_codec (StrCat_id A) (SimpleAtoi_id A)" and "room_both 3 b"
  shows "restores_both b (RunInternal (client A impl) computation arg b)
    (future_run impl computation arg (sub_state (sub_state b)))"
  unfolding RunInternal_def future_run_def
proof (rule remote_value_step [OF codec])
  show "room_both (Suc 2) b" using assms(2) by (simp add: numeral_3_eq_3 numeral_2_eq_2)
next
  fix f ff xf and b1 :: "('a, 'b) remote_state"
  assume b1: "room_both 2 b1" "tracked_values b f = None" "tracked_values b1 = (tracked_values b)(f \<mapsto> ff)"
    "holds_value A (sub_state b) (sub_state b1) ff xf"
  show "restores_both b1 (GENC_TRY (create_value (client A impl) arg) (\<lambda>a. finally_release (client A impl) [a]
        (GENC_TRY (create_call (client A impl) f (Some a)) (\<lambda>r. finally_release (client A impl) [r]
          (Materialize_pb (client A impl) r)))) b1)
      (GENC_TRY (future (impl_create_value impl arg)) (\<lambda>a.
        GENC_TRY (future (GENC_TRY (lift xf) (\<lambda>fv. GENC_TRY (lift a) (\<lambda>av. impl_create_call impl fv (Some av)))))
          (\<lambda>r. GENC_TRY (lift r) (\<lambda>rv. GENC_TRY (impl_materialize impl rv True) (\<lambda>v. return (or_default v)))))
        (sub_state (sub_state b1)))"
  proof (rule remote_value_step [OF codec])
    show "room_both (Suc 1) b1" using b1(1) by (simp add: numeral_2_eq_2)
  next
    fix a af xa and b2 :: "('a, 'b) remote_state"
    assume b2: "room_both 1 b2" "tracked_values b1 a = None" "tracked_values b2 = (tracked_values b1)(a \<mapsto> af)"
      "holds_value A (sub_state b1) (sub_state b2) af xa"
    show "restores_both b2 (GENC_TRY (create_call (client A impl) f (Some a)) (\<lambda>r.
          finally_release (client A impl) [r] (Materialize_pb (client A impl) r)) b2)
        (GENC_TRY (future (GENC_TRY (lift xf) (\<lambda>fv. GENC_TRY (lift xa) (\<lambda>av. impl_create_call impl fv (Some av)))))
          (\<lambda>r. GENC_TRY (lift r) (\<lambda>rv. GENC_TRY (impl_materialize impl rv True) (\<lambda>v. return (or_default v))))
        (sub_state (sub_state b2)))"
      by (rule remote_call_future [OF codec, where ff = ff and af = af])
         (use b1 b2 held_mono [OF holds_value_held [OF b1(4)] holds_value_le [OF b2(4)]] holds_value_held [OF b2(4)] in auto)
  qed
qed

lemma future_Ok: "q s = (Ok v, s') \<Longrightarrow> future q s = (Ok (Ok v), s')"
  by (simp add: future_def)

lemma future_run_Ok:
  assumes "run_values impl computation arg s = (Ok v, s')"
  shows "future_run impl computation arg s = (Ok v, s')"
proof -
  from assms obtain f s1 a s2 r s3 w where run: "impl_create_value impl computation s = (Ok f, s1)"
      "impl_create_value impl arg s1 = (Ok a, s2)" "impl_create_call impl f (Some a) s2 = (Ok r, s3)"
      "impl_materialize impl r True s3 = (Ok w, s')" "v = or_default w"
    by (auto simp: run_values_def GENC_TRY_eq_Ok return_apply or_default_def)
  show ?thesis
    unfolding future_run_def
    by (simp add: GENC_TRY_apply future_Ok [where q = "impl_create_value impl computation", OF run(1)]
        future_Ok [where q = "impl_create_value impl arg", OF run(2)]
        future_Ok [where q = "impl_create_call impl f (Some a)", OF run(3)] run(4,5) return_apply lift_Ok
        del: Pair_inject)
qed

lemma future_run_Err:
  assumes "run_values impl computation arg s = (Err e, s')"
    and "\<And>s c. fst (impl_create_value impl arg s) \<noteq> Crash c"
  shows "fst (future_run impl computation arg s) = Err e"
proof -
  obtain f s1 where f: "impl_create_value impl computation s = (f, s1)"
    by (cases "impl_create_value impl computation s")
  obtain a s2 where a: "impl_create_value impl arg s1 = (a, s2)"
    by (cases "impl_create_value impl arg s1")
  have "a \<noteq> Crash c" for c using assms(2) [of s1 c] a by simp
  then show ?thesis
    using assms(1) f a
    by (cases f; cases a)
      (auto simp: run_values_def future_run_def GENC_TRY_apply future_def or_default_def return_apply lift_apply
        split: prod.splits outcome.splits)
qed


definition decimal_atoi :: atoi_lib where
  "decimal_atoi = \<lparr>StrCat_id = decimal_u64, SimpleAtoi_id = read_u64\<rparr>"


text \<open>
  The interface lets a caller materialize a value for its status alone, with a null
  output pointer, and a fallback does so with each candidate; the remote executor writes
  the response through that pointer, whatever the status of the call is.
\<close>

lemma remote_materialize_null:
  assumes "Task_Get fut = Ok ref" and "rpc_Materialize st ref s = (Ok (status, response), s')"
  shows "impl_materialize (RemoteExecutor st sch) fut False s = (Crash NullDereference, s') \<and>
    (tracked_values b fn = Some fut \<and> sub_state b = s \<longrightarrow>
      base_materialize (RemoteExecutor st sch) fn False b = (Crash NullDereference, b\<lparr>sub_state := s'\<rparr>))"
  using assms
  by (simp add: Remote_Materialize_def GENC_TRY_apply lift_apply base_materialize_def GetTracked_def in_sub_def)

lemma remote_materialize_null_witness:
  "impl_materialize (RemoteExecutor (server decimal_atoi negation_stack) thread_based)
     \<lparr>waitable = thread_based, task_result = Ok ''7''\<rparr> False (initial_state new_process) =
   (Crash NullDereference, initial_state new_process)"
proof -
  have g: "Task_Get \<lparr>waitable = thread_based, task_result = Ok ''7''\<rparr> = Ok ''7''"
    by (simp add: Task_Get_def thread_based_def)
  have seven: "read_u64 ''7'' = Some 7"
    by (simp add: read_u64_def char_digit_def of_char_def)
  have m: "rpc_Materialize (server decimal_atoi negation_stack) ''7'' (initial_state new_process) =
      (Ok (AbslToGrpcStatus (Some (Status kNotFound
         [Txt ''InlineExecutor'', Txt '' value not found: '', Num 7])), empty_value), initial_state new_process)"
    by (simp add: server_def Service_Materialize_def or_reply_def RefToValueId_def decimal_atoi_def seven
        Materialize_pb_def GENC_TRY_apply base_materialize_def GetTracked_def initial_state_def lift_apply
        return_apply negation_stack_def)
  from remote_materialize_null [OF g m] show ?thesis by blast
qed

end
