(* ===== verification/Types.thy ===== *)
theory Types
  imports Status
begin

text \<open>
  \<^verbatim>\<open>genc/cc/types/checking.cc\<close> and \<^verbatim>\<open>inference.cc\<close>: equality of types with an error message,
  and the inference that fills in the types of literals, structures and selections in
  place. A value that already carries a type is checked against the inferred one.
\<close>

section \<open>Equality of types\<close>

definition CheckScalarEqual :: "ScalarType \<Rightarrow> ScalarType \<Rightarrow> unit outcome" where
  "CheckScalarEqual x y =
     (if x = y then Ok ()
      else InvalidArgumentError [Txt ''Scalar '', ScalarName x, Txt '' vs. a different scalar '',
             ScalarName y, Txt ''.''])"

definition prefixed :: "message \<Rightarrow> unit outcome \<Rightarrow> unit outcome \<Rightarrow> unit outcome" where
  "prefixed m r k = (case r of
      Ok _ \<Rightarrow> k
    | Err e \<Rightarrow> InvalidArgumentError (m @ msg e)
    | Crash c \<Rightarrow> Crash c
    | Diverge \<Rightarrow> Diverge)"

text \<open>
  The getter of an absent parameter or result gives the empty type, for which equality is
  not implemented, as it is not for sequences and tensors.
\<close>

fun CheckEqual :: "ptype \<Rightarrow> ptype \<Rightarrow> unit outcome"
and CheckStructElements :: "nat \<Rightarrow> ptype list \<Rightarrow> ptype list \<Rightarrow> unit outcome"
and CheckField :: "ptype option \<Rightarrow> ptype option \<Rightarrow> unit outcome" where
  "CheckEqual (TypeScalar a) y = (case y of
      TypeScalar b \<Rightarrow> CheckScalarEqual a b
    | _ \<Rightarrow> InvalidArgumentError [Txt ''Scalar '', ScalarName a, Txt '' vs. non-scalar '',
             TypeDebugString y, Txt ''.''])"
| "CheckEqual (TypeStruct xs) y = (case y of
      TypeStruct ys \<Rightarrow>
        (if length xs \<noteq> length ys
         then InvalidArgumentError [Txt ''Inequal number of struct elements '', Num (int (length xs)),
                Txt '' vs. '', Num (int (length ys)), Txt ''.'']
         else CheckStructElements 0 xs ys)
    | _ \<Rightarrow> InvalidArgumentError [Txt ''Struct '', TypeDebugString (TypeStruct xs),
             Txt '' vs. non-struct '', TypeDebugString y, Txt ''.''])"
| "CheckEqual (TypeFunction p r) y = (case y of
      TypeFunction p' r' \<Rightarrow>
        prefixed [Txt ''Function parameter type mismatch: ''] (CheckField p p')
          (prefixed [Txt ''Function result type mismatch: ''] (CheckField r r') (Ok ()))
    | _ \<Rightarrow> InvalidArgumentError [Txt ''Function '', TypeDebugString (TypeFunction p r),
             Txt '' vs. non-function '', TypeDebugString y, Txt ''.''])"
| "CheckEqual (TypeSequence e) y = UnimplementedError [Txt ''Not implemented.'']"
| "CheckEqual (TypeTensor s ds u) y = UnimplementedError [Txt ''Not implemented.'']"
| "CheckEqual TypeNotSet y = UnimplementedError [Txt ''Not implemented.'']"
| "CheckStructElements i (x # xs) (y # ys) =
     prefixed [Txt ''Type mismatch at struct element '', Num (int i), Txt '': '']
       (CheckEqual x y) (CheckStructElements (Suc i) xs ys)"
| "CheckStructElements i xs ys = Ok ()"
| "CheckField None y = UnimplementedError [Txt ''Not implemented.'']"
| "CheckField (Some x) y = CheckEqual x (type_or_default y)"

text \<open>The types that equality is implemented for: scalars, structures, complete functions.\<close>

fun checkable :: "ptype \<Rightarrow> bool" where
  "checkable (TypeScalar s) = True"
| "checkable (TypeStruct ts) = (\<forall>t \<in> set ts. checkable t)"
| "checkable (TypeFunction p r) = (case (p, r) of (Some p, Some r) \<Rightarrow> checkable p \<and> checkable r | _ \<Rightarrow> False)"
| "checkable _ = False"

lemma prefixed_Ok: "prefixed m r k = Ok u \<longleftrightarrow> (\<exists>v. r = Ok v) \<and> k = Ok u"
  by (cases r) (auto simp: prefixed_def)

lemma CheckEqual_checkable: "CheckEqual x y = Ok () \<longleftrightarrow> checkable x \<and> x = y"
  and "length xs = length ys \<Longrightarrow>
    CheckStructElements i xs ys = Ok () \<longleftrightarrow> (\<forall>t \<in> set xs. checkable t) \<and> xs = ys"
  and "CheckField p q = Ok () \<longleftrightarrow> (case p of None \<Rightarrow> False | Some t \<Rightarrow> checkable t \<and> t = type_or_default q)"
proof (induction x y and i xs ys and p q rule: CheckEqual_CheckStructElements_CheckField.induct)
  case (1 a y)
  then show ?case by (auto simp: CheckScalarEqual_def split: ptype.splits)
next
  case (2 xs y)
  then show ?case by (auto split: ptype.splits)
next
  case (3 p r y)
  then show ?case
    by (auto simp: prefixed_Ok type_or_default_def split: ptype.splits option.splits)
qed (auto simp: prefixed_Ok)

text \<open>
  Two types are equal according to the checker exactly when they are the same type
  and it is built from scalars, structures and functions with both parts given; nothing
  is equal to an unset, sequence or tensor type, itself included.
\<close>

lemma CheckEqual_iff: "CheckEqual x y = Ok () \<longleftrightarrow> checkable x \<and> x = y"
  using CheckEqual_checkable(1) .

section \<open>Inference\<close>

text \<open>The value is changed in place, also when the inference fails.\<close>

definition SetScalarType :: "ScalarType \<Rightarrow> pvalue \<Rightarrow> unit outcome \<times> pvalue" where
  "SetScalarType s v =
     (if \<not> has_type v then (Ok (), set_type (TypeScalar s) v)
      else (CheckEqual (value_type v) (TypeScalar s), v))"

text \<open>The type an element is copied from when it has none is the empty type.\<close>

fun InferTypes :: "pvalue \<Rightarrow> unit outcome \<times> pvalue"
and CreateStructType :: "pvalue list \<Rightarrow> unit outcome \<times> pvalue list \<times> ptype list"
and InferSource :: "pvalue option \<Rightarrow> unit outcome \<times> pvalue" where
  "InferTypes (Value (KStr x) t l m) = SetScalarType SCALAR_TYPE_STRING (Value (KStr x) t l m)"
| "InferTypes (Value (KInt32 x) t l m) = SetScalarType SCALAR_TYPE_INT32 (Value (KInt32 x) t l m)"
| "InferTypes (Value (KBoolean x) t l m) = SetScalarType SCALAR_TYPE_BOOL (Value (KBoolean x) t l m)"
| "InferTypes (Value (KStruct es) t l m) =
     (case CreateStructType es of (r, es', ts) \<Rightarrow>
        (case t of
           None \<Rightarrow> (r, Value (KStruct es') (Some (TypeStruct ts)) l m)
         | Some ty \<Rightarrow> (try_value r (\<lambda>_. CheckEqual ty (TypeStruct ts)), Value (KStruct es') t l m)))"
| "InferTypes (Value (KSelection src idx) t l m) =
     (case InferSource src of (r, src') \<Rightarrow>
        let v' = Value (KSelection (Some src') idx) t l m in
        (case r of
           Ok _ \<Rightarrow>
             (case value_type src' of
                TypeStruct ts \<Rightarrow>
                  if sint idx < 0 then (InvalidArgumentError [Txt ''Negative selection index.''], v')
                  else if int (length ts) \<le> sint idx
                  then (InvalidArgumentError [Txt ''Selection index '', Num (sint idx),
                          Txt '' out of range for a struct of size '', Num (int (length ts)), Txt ''.''], v')
                  else
                    let selected_type = ts ! nat (sint idx) in
                    (case t of
                       None \<Rightarrow> (Ok (), set_type selected_type v')
                     | Some ty \<Rightarrow> (CheckEqual ty selected_type, v'))
              | ty \<Rightarrow> (InvalidArgumentError [Txt ''Selecting from a non-struct type '', TypeDebugString ty], v'))
         | _ \<Rightarrow> (r, v')))"
| "InferTypes v = (UnimplementedError [Txt ''Not implemented.''], v)"
| "CreateStructType [] = (Ok (), [], [])"
| "CreateStructType (e # es) =
     (case InferTypes e of (r, e') \<Rightarrow>
        (case r of
           Ok _ \<Rightarrow> (case CreateStructType es of (r', es', ts) \<Rightarrow> (r', e' # es', value_type e' # ts))
         | _ \<Rightarrow> (r, e' # es, [TypeNotSet])))"
| "InferSource None = InferTypes empty_value"
| "InferSource (Some v) = InferTypes v"

section \<open>Soundness of the inference\<close>

text \<open>A value that carries the right type at every node, with its type.\<close>

inductive typed :: "pvalue \<Rightarrow> ptype \<Rightarrow> bool" where
  typed_str: "typed (Value (KStr x) (Some (TypeScalar SCALAR_TYPE_STRING)) l m) (TypeScalar SCALAR_TYPE_STRING)"
| typed_int_32: "typed (Value (KInt32 i) (Some (TypeScalar SCALAR_TYPE_INT32)) l m) (TypeScalar SCALAR_TYPE_INT32)"
| typed_boolean: "typed (Value (KBoolean b) (Some (TypeScalar SCALAR_TYPE_BOOL)) l m) (TypeScalar SCALAR_TYPE_BOOL)"
| typed_struct: "list_all2 typed es ts \<Longrightarrow>
    typed (Value (KStruct es) (Some (TypeStruct ts)) l m) (TypeStruct ts)"
| typed_selection: "typed src (TypeStruct ts) \<Longrightarrow> 0 \<le> sint idx \<Longrightarrow> sint idx < int (length ts) \<Longrightarrow>
    typed (Value (KSelection (Some src) idx) (Some (ts ! nat (sint idx))) l m) (ts ! nat (sint idx))"

text \<open>A value without the types of its literals, structures and selections.\<close>

fun untyped :: "pvalue \<Rightarrow> pvalue" where
  "untyped (Value (KStr x) t l m) = Value (KStr x) None l m"
| "untyped (Value (KInt32 x) t l m) = Value (KInt32 x) None l m"
| "untyped (Value (KBoolean x) t l m) = Value (KBoolean x) None l m"
| "untyped (Value (KStruct es) t l m) = Value (KStruct (map untyped es)) None l m"
| "untyped (Value (KSelection (Some src) idx) t l m) = Value (KSelection (Some (untyped src)) idx) None l m"
| "untyped v = v"

lemma typed_value_type: "typed v t \<Longrightarrow> value_type v = t \<and> type_field v = Some t"
  by (cases rule: typed.cases) (auto simp: value_type_def type_or_default_def)

lemma typed_checkable: "typed v t \<Longrightarrow> checkable t"
proof (induction rule: typed.induct)
  case (typed_struct es ts l m)
  then show ?case by (fastforce simp: list_all2_conv_all_nth in_set_conv_nth)
next
  case (typed_selection src ts idx l m)
  then show ?case by (simp add: nat_less_iff)
qed simp_all

lemma CreateStructType_fixed:
  "list_all2 (\<lambda>e t. InferTypes e = (Ok (), e) \<and> value_type e = t) es ts \<Longrightarrow>
   CreateStructType es = (Ok (), es, ts)"
  by (induction es ts rule: list_all2_induct) auto

text \<open>A typed value is left as it is.\<close>

lemma typed_InferTypes: "typed v t \<Longrightarrow> InferTypes v = (Ok (), v)"
proof (induction rule: typed.induct)
  case (typed_struct es ts l m)
  have t: "typed (Value (KStruct es) (Some (TypeStruct ts)) l m) (TypeStruct ts)"
    by (rule typed.typed_struct) (use typed_struct in \<open>auto elim: list_all2_mono\<close>)
  have "CreateStructType es = (Ok (), es, ts)"
    by (rule CreateStructType_fixed) (use typed_struct in \<open>auto elim!: list_all2_mono dest: typed_value_type\<close>)
  moreover have "CheckEqual (TypeStruct ts) (TypeStruct ts) = Ok ()"
    using CheckEqual_checkable(1) [of "TypeStruct ts" "TypeStruct ts"] typed_checkable [OF t] by blast
  ultimately show ?case by simp
next
  case (typed_selection src ts idx l m)
  then have "checkable (ts ! nat (sint idx))"
    using typed_checkable [of src "TypeStruct ts"] by (simp add: nat_less_iff)
  then show ?case
    using typed_selection typed_value_type [OF typed_selection.hyps(1)] CheckEqual_checkable
    by (simp add: not_le not_less)
qed (auto simp: SetScalarType_def has_type_def value_type_def type_or_default_def CheckScalarEqual_def)

lemma InferTypes_typed:
  "InferTypes v = (Ok (), v') \<Longrightarrow> typed v' (value_type v') \<and> untyped v' = untyped v"
  and "CreateStructType es = (Ok (), es', ts) \<Longrightarrow> list_all2 typed es' ts \<and> map untyped es' = map untyped es"
  and "InferSource src = (Ok (), w) \<Longrightarrow> (\<exists>u. src = Some u \<and> untyped w = untyped u) \<and> typed w (value_type w)"
proof (induction v and es and src arbitrary: v' and es' ts and w
    rule: InferTypes_CreateStructType_InferSource.induct)
  case (4 es t l m)
  then show ?case
    using CheckEqual_checkable
    by (auto simp: value_type_def type_or_default_def try_value_eq_Ok intro!: typed_struct
        split: prod.splits option.splits)
next
  case (5 src idx t l m)
  obtain r src' where r: "InferSource src = (r, src')" by (cases "InferSource src")
  have "r = Ok ()" using 5(2) r by (cases r) (simp_all add: Let_def)
  with r have src: "InferSource src = (Ok (), src')" by simp
  with 5 obtain u where u: "src = Some u" "untyped src' = untyped u" "typed src' (value_type src')"
    by blast
  obtain ts where ts: "value_type src' = TypeStruct ts"
    using 5(2) src by (cases "value_type src'") (simp_all add: Let_def)
  then have typed': "typed src' (TypeStruct ts)" using u by simp
  have idx: "0 \<le> sint idx" "sint idx < int (length ts)"
    using 5(2) src ts by (simp_all add: Let_def split: if_splits)
  have "t = None \<or> t = Some (ts ! nat (sint idx))"
    using 5(2) src ts idx CheckEqual_checkable(1) by (auto simp: Let_def split: option.splits)
  then have "v' = Value (KSelection (Some src') idx) (Some (ts ! nat (sint idx))) l m"
    using 5(2) src ts idx by (auto simp: Let_def split: option.splits)
  then show ?case
    using u typed_selection [OF typed' idx, of l m]
    by (simp add: value_type_def type_or_default_def)
qed (auto simp: SetScalarType_def has_type_def value_type_def type_or_default_def CheckEqual_checkable
    intro: typed.intros split: if_splits option.splits prod.splits outcome.splits)

text \<open>
  C32: when type inference succeeds, every literal, structure and selection carries the
  type it has, nothing but types was changed, and inferring again changes nothing.
\<close>

theorem InferTypes_sound:
  assumes "InferTypes v = (Ok (), v')"
  shows "typed v' (value_type v') \<and> untyped v' = untyped v \<and> InferTypes v' = (Ok (), v')"
  using InferTypes_typed(1) [OF assms] typed_InferTypes by blast

lemma InferTypes_sound_witness:
  "untyped (snd (InferTypes (plain (KSelection (Some (plain (KStruct [plain (KStr ''a''), plain (KInt32 3)]))) 1)))) =
     plain (KSelection (Some (plain (KStruct [plain (KStr ''a''), plain (KInt32 3)]))) 1) \<and>
   value_type (snd (InferTypes (plain (KSelection (Some (plain (KStruct [plain (KStr ''a''), plain (KInt32 3)]))) 1)))) =
     TypeScalar SCALAR_TYPE_INT32"
proof -
  let ?v = "plain (KSelection (Some (plain (KStruct [plain (KStr ''a''), plain (KInt32 3)]))) 1)"
  let ?v' = "Value (KSelection (Some (Value (KStruct [Value (KStr ''a'') (Some (TypeScalar SCALAR_TYPE_STRING)) [] [],
      Value (KInt32 3) (Some (TypeScalar SCALAR_TYPE_INT32)) [] []])
      (Some (TypeStruct [TypeScalar SCALAR_TYPE_STRING, TypeScalar SCALAR_TYPE_INT32])) [] [])) 1)
      (Some (TypeScalar SCALAR_TYPE_INT32)) [] []"
  have i: "InferTypes ?v = (Ok (), ?v')" by code_simp
  from InferTypes_sound [OF i] i show ?thesis by (simp add: value_type_def type_or_default_def)
qed

end
