(* ===== verification/Retrieval.thy ===== *)
theory Retrieval
  imports Status
begin

text \<open>
  \<^verbatim>\<open>genc/cc/modules/retrieval/bi_map.h\<close>, \<^verbatim>\<open>local_cache.h\<close> and \<^verbatim>\<open>local_cache.cc\<close>: the
  bidirectional map, the cache that keeps the last messages of each key, and the custom
  functions that let a computation read, write and clear the cache. A hash map is a map;
  its size is the number of its keys.
\<close>

section \<open>The bidirectional map\<close>

record ('k, 'v) bi_map =
  key_to_value :: "'k \<rightharpoonup> 'v"
  value_to_key :: "'v \<rightharpoonup> 'k"

definition empty_bi_map :: "('k, 'v) bi_map" where
  "empty_bi_map = \<lparr>key_to_value = Map.empty, value_to_key = Map.empty\<rparr>"

definition set_pair :: "'k \<Rightarrow> 'v \<Rightarrow> ('k, 'v) bi_map \<Rightarrow> ('k, 'v) bi_map" where
  "set_pair k v m = \<lparr>key_to_value = (key_to_value m)(k \<mapsto> v), value_to_key = (value_to_key m)(v \<mapsto> k)\<rparr>"

definition Insert :: "'k \<Rightarrow> 'v \<Rightarrow> ('k, 'v) bi_map \<Rightarrow> bool \<times> ('k, 'v) bi_map" where
  "Insert k v m =
     (if key_to_value m k \<noteq> None \<or> value_to_key m v \<noteq> None then (False, m)
      else (True, set_pair k v m))"

text \<open>Each of the two erasures removes one direction of the pair that is replaced.\<close>

definition erase_other_value :: "'k \<Rightarrow> 'v \<Rightarrow> ('k, 'v) bi_map \<Rightarrow> ('k, 'v) bi_map" where
  "erase_other_value k v m = (case key_to_value m k of
      Some v' \<Rightarrow> if v' \<noteq> v then m\<lparr>value_to_key := (value_to_key m)(v' := None)\<rparr> else m
    | None \<Rightarrow> m)"

definition erase_other_key :: "'k \<Rightarrow> 'v \<Rightarrow> 'k option \<Rightarrow> ('k, 'v) bi_map \<Rightarrow> ('k, 'v) bi_map" where
  "erase_other_key k v it_value m = (case it_value of
      Some k' \<Rightarrow> if k' \<noteq> k then m\<lparr>key_to_value := (key_to_value m)(k' := None)\<rparr> else m
    | None \<Rightarrow> m)"

definition Upsert :: "'k \<Rightarrow> 'v \<Rightarrow> ('k, 'v) bi_map \<Rightarrow> bool \<times> ('k, 'v) bi_map" where
  "Upsert k v m =
     (let it_key = key_to_value m k; it_value = value_to_key m v in
      if it_key \<noteq> None \<and> it_value \<noteq> None then (False, m)
      else (True, set_pair k v (erase_other_key k v it_value (erase_other_value k v m))))"

definition RemoveByKey :: "'k \<Rightarrow> ('k, 'v) bi_map \<Rightarrow> bool \<times> ('k, 'v) bi_map" where
  "RemoveByKey k m = (case key_to_value m k of
      None \<Rightarrow> (False, m)
    | Some v \<Rightarrow> (True, \<lparr>key_to_value = (key_to_value m)(k := None),
                      value_to_key = (value_to_key m)(v := None)\<rparr>))"

definition RemoveByValue :: "'v \<Rightarrow> ('k, 'v) bi_map \<Rightarrow> bool \<times> ('k, 'v) bi_map" where
  "RemoveByValue v m = (case value_to_key m v of
      None \<Rightarrow> (False, m)
    | Some k \<Rightarrow> (True, \<lparr>key_to_value = (key_to_value m)(k := None),
                      value_to_key = (value_to_key m)(v := None)\<rparr>))"

definition FindByKey :: "'k \<Rightarrow> ('k, 'v) bi_map \<Rightarrow> 'v option" where
  "FindByKey k m = key_to_value m k"

definition FindByValue :: "'v \<Rightarrow> ('k, 'v) bi_map \<Rightarrow> 'k option" where
  "FindByValue v m = value_to_key m v"

definition bi_map_size :: "('k, 'v) bi_map \<Rightarrow> nat" where
  "bi_map_size m = card (dom (key_to_value m))"

definition bi_map_inv :: "('k, 'v) bi_map \<Rightarrow> bool" where
  "bi_map_inv m \<longleftrightarrow> finite (dom (key_to_value m)) \<and>
     (\<forall>k v. key_to_value m k = Some v \<longrightarrow> value_to_key m v = Some k) \<and>
     (\<forall>k v. value_to_key m v = Some k \<longrightarrow> key_to_value m k = Some v)"

text \<open>The contract a client of a two-way map relies on.\<close>

locale two_way_map =
  fixes insert_pair :: "'k \<Rightarrow> 'v \<Rightarrow> 'm \<Rightarrow> bool \<times> 'm"
    and find_value :: "'k \<Rightarrow> 'm \<Rightarrow> 'v option"
    and find_key :: "'v \<Rightarrow> 'm \<Rightarrow> 'k option"
    and good :: "'m \<Rightarrow> bool"
  assumes inverse: "good m \<Longrightarrow> find_value k m = Some v \<longleftrightarrow> find_key v m = Some k"
    and insert_fresh: "good m \<Longrightarrow> find_value k m = None \<Longrightarrow> find_key v m = None \<Longrightarrow>
      \<exists>m'. insert_pair k v m = (True, m') \<and> good m' \<and>
        (\<forall>k'. find_value k' m' = (if k' = k then Some v else find_value k' m))"
    and insert_taken: "find_value k m \<noteq> None \<or> find_key v m \<noteq> None \<Longrightarrow> insert_pair k v m = (False, m)"
begin

lemma find_key_inject:
  "good m \<Longrightarrow> find_value k m = Some v \<Longrightarrow> find_value k' m = Some v \<Longrightarrow> k = k'"
  using inverse [of m k v] inverse [of m k' v] by simp

lemma insert_good: "good m \<Longrightarrow> good (snd (insert_pair k v m))"
  using insert_fresh [of m k v] insert_taken [of k m v] by fastforce

lemma insert_keeps:
  "good m \<Longrightarrow> find_value k' m = Some w \<Longrightarrow> find_value k' (snd (insert_pair k v m)) = Some w"
  using insert_fresh [of m k v] insert_taken [of k m v]
  by (cases "find_value k m = None \<and> find_key v m = None") auto

end

lemma bi_map_inv_empty: "bi_map_inv empty_bi_map"
  by (simp add: bi_map_inv_def empty_bi_map_def)

lemma bi_map_invI:
  assumes "finite (dom (key_to_value m))"
    and "\<And>k v. key_to_value m k = Some v \<Longrightarrow> value_to_key m v = Some k"
    and "\<And>k v. value_to_key m v = Some k \<Longrightarrow> key_to_value m k = Some v"
  shows "bi_map_inv m"
  using assms unfolding bi_map_inv_def by blast

lemma bi_map_invD:
  assumes "bi_map_inv m"
  shows "finite (dom (key_to_value m))"
    and "key_to_value m k = Some v \<longleftrightarrow> value_to_key m v = Some k"
  using assms unfolding bi_map_inv_def by blast+

lemma value_to_key_inject:
  assumes "bi_map_inv m" and "value_to_key m v = Some k" and "value_to_key m w = Some k"
  shows "w = v"
  using bi_map_invD(2) [OF assms(1), of k v] bi_map_invD(2) [OF assms(1), of k w] assms(2,3) by simp

text \<open>Removing a pair, and making room for one, in either direction.\<close>

lemma remove_pair_inv:
  assumes "bi_map_inv m" and "key_to_value m k = Some v"
  shows "bi_map_inv \<lparr>key_to_value = (key_to_value m)(k := None), value_to_key = (value_to_key m)(v := None)\<rparr>"
  using assms bi_map_invD(1) [OF assms(1)]
  by (intro bi_map_invI)
    (auto simp: bi_map_invD(2) [OF assms(1)] dest: value_to_key_inject split: if_splits)

lemma set_pair_inv:
  assumes "bi_map_inv m" and "key_to_value m k = None" and "value_to_key m v = None"
  shows "bi_map_inv (set_pair k v m)"
proof (rule bi_map_invI)
  fix k' v'
  show "finite (dom (key_to_value (set_pair k v m)))"
    using bi_map_invD(1) [OF assms(1)] by (simp add: set_pair_def)
  have *: "key_to_value m k' = Some v' \<longleftrightarrow> value_to_key m v' = Some k'" for k' v'
    by (rule bi_map_invD(2) [OF assms(1)])
  show "key_to_value (set_pair k v m) k' = Some v' \<Longrightarrow> value_to_key (set_pair k v m) v' = Some k'"
    using * [of k' v'] assms(3) by (auto simp: set_pair_def split: if_splits)
  show "value_to_key (set_pair k v m) v' = Some k' \<Longrightarrow> key_to_value (set_pair k v m) k' = Some v'"
    using * [of k' v'] assms(2) by (auto simp: set_pair_def split: if_splits)
qed

lemma Insert_inv: "bi_map_inv m \<Longrightarrow> bi_map_inv (snd (Insert k v m))"
  by (simp add: Insert_def set_pair_inv)

lemma RemoveByKey_inv: "bi_map_inv m \<Longrightarrow> bi_map_inv (snd (RemoveByKey k m))"
  by (auto simp: RemoveByKey_def remove_pair_inv split: option.splits)

lemma RemoveByValue_inv: "bi_map_inv m \<Longrightarrow> bi_map_inv (snd (RemoveByValue v m))"
  by (auto simp: RemoveByValue_def bi_map_invD(2) remove_pair_inv split: option.splits)

text \<open>An update that goes through is a removal of the old pair, if any, and an insertion.\<close>

lemma Upsert_alt:
  assumes "bi_map_inv m"
  shows "Upsert k v m =
    (if key_to_value m k \<noteq> None \<and> value_to_key m v \<noteq> None then (False, m)
     else (True, set_pair k v (snd (RemoveByValue v (snd (RemoveByKey k m))))))"
proof (cases "key_to_value m k")
  case None
  then show ?thesis
    by (auto simp: Upsert_def Let_def set_pair_def erase_other_key_def erase_other_value_def
        RemoveByKey_def RemoveByValue_def fun_eq_iff split: option.splits)
next
  case (Some v')
  then have "value_to_key m v' = Some k" using bi_map_invD(2) [OF assms] by simp
  with Some show ?thesis
    by (auto simp: Upsert_def Let_def set_pair_def erase_other_key_def erase_other_value_def
        RemoveByKey_def RemoveByValue_def fun_eq_iff split: option.splits)
qed

lemma Upsert_inv:
  assumes "bi_map_inv m"
  shows "bi_map_inv (snd (Upsert k v m))"
proof -
  let ?m1 = "snd (RemoveByKey k m)"
  let ?m2 = "snd (RemoveByValue v ?m1)"
  have inv: "bi_map_inv ?m2" using assms by (simp add: RemoveByKey_inv RemoveByValue_inv)
  have "key_to_value ?m1 k = None"
    by (simp add: RemoveByKey_def split: option.split)
  then have "key_to_value ?m2 k = None" "value_to_key ?m2 v = None"
    by (simp_all add: RemoveByValue_def split: option.split)
  then show ?thesis using assms by (simp add: Upsert_alt set_pair_inv [OF inv])
qed

interpretation bm: two_way_map Insert FindByKey FindByValue bi_map_inv
proof unfold_locales
  fix m :: "('k, 'v) bi_map" and k v
  show "bi_map_inv m \<Longrightarrow> (FindByKey k m = Some v) = (FindByValue v m = Some k)"
    by (simp add: bi_map_invD(2) FindByKey_def FindByValue_def)
  show "bi_map_inv m \<Longrightarrow> FindByKey k m = None \<Longrightarrow> FindByValue v m = None \<Longrightarrow>
      \<exists>m'. Insert k v m = (True, m') \<and> bi_map_inv m' \<and>
        (\<forall>k'. FindByKey k' m' = (if k' = k then Some v else FindByKey k' m))"
    by (auto simp: Insert_def FindByKey_def FindByValue_def set_pair_inv) (auto simp: set_pair_def)
  show "FindByKey k m \<noteq> None \<or> FindByValue v m \<noteq> None \<Longrightarrow> Insert k v m = (False, m)"
    by (auto simp: Insert_def FindByKey_def FindByValue_def)
qed

lemma bi_map_size_set_pair:
  "bi_map_inv m \<Longrightarrow> key_to_value m k = None \<Longrightarrow> bi_map_size (set_pair k v m) = Suc (bi_map_size m)"
  using bi_map_invD(1) [of m] by (simp add: bi_map_size_def set_pair_def domIff)

text \<open>Sequences of operations.\<close>

datatype ('k, 'v) bi_map_op = DoInsert 'k 'v | DoUpsert 'k 'v | DoRemoveByKey 'k | DoRemoveByValue 'v

fun bi_map_step :: "('k, 'v) bi_map_op \<Rightarrow> ('k, 'v) bi_map \<Rightarrow> ('k, 'v) bi_map" where
  "bi_map_step (DoInsert k v) m = snd (Insert k v m)"
| "bi_map_step (DoUpsert k v) m = snd (Upsert k v m)"
| "bi_map_step (DoRemoveByKey k) m = snd (RemoveByKey k m)"
| "bi_map_step (DoRemoveByValue v) m = snd (RemoveByValue v m)"

lemma bi_map_steps_inv: "bi_map_inv m \<Longrightarrow> bi_map_inv (fold bi_map_step ops m)"
proof (induction ops arbitrary: m)
  case (Cons a ops)
  then show ?case
    by (cases a) (simp_all add: Insert_inv Upsert_inv RemoveByKey_inv RemoveByValue_inv)
qed simp

text \<open>
  C39: after any sequence of insertions, updates and removals the two directions of the
  bidirectional map are inverse to each other, and both hold as many entries as the
  reported size.
\<close>

theorem BiMap_directions_inverse:
  "let m = fold bi_map_step ops empty_bi_map in
     (FindByKey k m = Some v) = (FindByValue v m = Some k) \<and>
     card (dom (value_to_key m)) = bi_map_size m"
proof -
  let ?m = "fold bi_map_step ops empty_bi_map"
  have inv: "bi_map_inv ?m" by (rule bi_map_steps_inv [OF bi_map_inv_empty])
  have "dom (value_to_key ?m) = (\<lambda>k. the (key_to_value ?m k)) ` dom (key_to_value ?m)"
  proof (intro equalityI subsetI)
    fix v assume "v \<in> dom (value_to_key ?m)"
    then obtain k where "key_to_value ?m k = Some v" using bi_map_invD(2) [OF inv] by (auto simp: dom_def)
    then show "v \<in> (\<lambda>k. the (key_to_value ?m k)) ` dom (key_to_value ?m)" by force
  next
    fix v assume "v \<in> (\<lambda>k. the (key_to_value ?m k)) ` dom (key_to_value ?m)"
    then obtain k where "key_to_value ?m k = Some v" by auto
    then show "v \<in> dom (value_to_key ?m)" using bi_map_invD(2) [OF inv] by auto
  qed
  moreover have "inj_on (\<lambda>k. the (key_to_value ?m k)) (dom (key_to_value ?m))"
    using bm.find_key_inject [OF inv] by (auto simp: inj_on_def dom_def FindByKey_def)
  ultimately have "card (dom (value_to_key ?m)) = bi_map_size ?m"
    by (simp add: bi_map_size_def card_image)
  then show ?thesis using bm.inverse [OF inv] by (simp add: Let_def)
qed

section \<open>The local cache\<close>

record ('k, 'v) local_cache =
  cache :: "'k \<rightharpoonup> 'v list"
  max_messages_per_key :: nat

definition LocalCache :: "nat \<Rightarrow> ('k, 'v) local_cache" where
  "LocalCache max_messages = \<lparr>cache = Map.empty, max_messages_per_key = max_messages\<rparr>"

text \<open>
  \<open>cache_[key]\<close> makes an empty vector for a new key. Erasing the first element of an empty
  vector is undefined behaviour; it happens for a limit of zero.
\<close>

definition Put :: "'k \<Rightarrow> 'v \<Rightarrow> (('k, 'v) local_cache, unit) prog" where
  "Put key message = (\<lambda>c.
     let messages = (case cache c key of None \<Rightarrow> [] | Some ms \<Rightarrow> ms) in
     if max_messages_per_key c \<le> length messages
     then (case messages of
         [] \<Rightarrow> (Crash IndexOutOfRange, c\<lparr>cache := (cache c)(key \<mapsto> [])\<rparr>)
       | m # ms \<Rightarrow> (Ok (), c\<lparr>cache := (cache c)(key \<mapsto> ms @ [message])\<rparr>))
     else (Ok (), c\<lparr>cache := (cache c)(key \<mapsto> messages @ [message])\<rparr>))"

text \<open>A negative number passes the test and gives an iterator past the end.\<close>

definition Get :: "'k \<Rightarrow> int option \<Rightarrow> ('k, 'v) local_cache \<Rightarrow> 'v list outcome" where
  "Get key n c = (case cache c key of
      None \<Rightarrow> Ok []
    | Some messages \<Rightarrow>
        (case n of
           Some i \<Rightarrow>
             if i < int (length messages)
             then if i < 0 then Crash IndexOutOfRange
                  else Ok (drop (length messages - nat i) messages)
             else Ok messages
         | None \<Rightarrow> Ok messages))"

definition Exists :: "'k \<Rightarrow> ('k, 'v) local_cache \<Rightarrow> bool" where
  "Exists key c \<longleftrightarrow> cache c key \<noteq> None"

definition cache_size :: "('k, 'v) local_cache \<Rightarrow> nat" where
  "cache_size c = card (dom (cache c))"

definition Remove :: "'k \<Rightarrow> ('k, 'v) local_cache \<Rightarrow> ('k, 'v) local_cache" where
  "Remove key c = c\<lparr>cache := (cache c)(key := None)\<rparr>"

section \<open>The custom functions of the cache\<close>

definition kLocalCacheReadUri :: string where "kLocalCacheReadUri = ''/local_cache/read''"
definition kLocalCacheWriteUri :: string where "kLocalCacheWriteUri = ''/local_cache/write''"
definition kLocalCacheRemoveUri :: string where "kLocalCacheRemoveUri = ''/local_cache/remove''"

type_synonym value_cache = "(string, pvalue) local_cache"

definition cache_read :: "string \<Rightarrow> string \<Rightarrow> pvalue \<Rightarrow> (value_cache, pvalue) prog" where
  "cache_read delimiter key arg = (\<lambda>c.
     (try_value (Get key None c)
        (\<lambda>vs. Ok (plain (KStr (concat (map (\<lambda>v. str v @ delimiter) vs))))), c))"

definition cache_write :: "string \<Rightarrow> pvalue \<Rightarrow> (value_cache, pvalue) prog" where
  "cache_write key arg = GENC_TRY (Put key arg) (\<lambda>_. return arg)"

definition cache_remove :: "string \<Rightarrow> pvalue \<Rightarrow> (value_cache, pvalue) prog" where
  "cache_remove key arg = (\<lambda>c. (Ok arg, Remove key c))"

definition SetCustomFunctionsForLocalValueCache ::
  "(string \<rightharpoonup> pvalue \<Rightarrow> (value_cache, pvalue) prog) \<Rightarrow> string \<Rightarrow> string
     \<Rightarrow> (string \<rightharpoonup> pvalue \<Rightarrow> (value_cache, pvalue) prog)" where
  "SetCustomFunctionsForLocalValueCache fn_map default_delimiter default_key =
     fn_map(kLocalCacheReadUri \<mapsto> cache_read default_delimiter default_key,
            kLocalCacheWriteUri \<mapsto> cache_write default_key,
            kLocalCacheRemoveUri \<mapsto> cache_remove default_key)"

section \<open>The window of the last messages\<close>

definition lastn :: "nat \<Rightarrow> 'a list \<Rightarrow> 'a list" where
  "lastn n xs = drop (length xs - n) xs"

lemma length_lastn [simp]: "length (lastn n xs) = min n (length xs)"
  by (simp add: lastn_def)

lemma lastn_all: "length xs \<le> n \<Longrightarrow> lastn n xs = xs"
  by (simp add: lastn_def)

lemma lastn_lastn: "lastn m (lastn n xs) = lastn (min m n) xs"
proof (cases "m \<le> n")
  case True
  then have "length xs - (length xs - n) - m + (length xs - n) = length xs - m" by arith
  with True show ?thesis by (simp add: lastn_def min_def)
qed (simp add: lastn_all)

lemma lastn_snoc: "lastn (Suc n) (xs @ [x]) = lastn n xs @ [x]"
  by (simp add: lastn_def)

lemma lastn_tl: "length xs = Suc n \<Longrightarrow> lastn n xs = tl xs"
  by (cases xs) (simp_all add: lastn_def)

text \<open>The messages of a key as they are after putting some more.\<close>

lemma Put_messages:
  assumes "max_messages_per_key c = Suc n" and "cache c key = Some (lastn (Suc n) ms)"
  shows "Put key m c = (Ok (), c\<lparr>cache := (cache c)(key \<mapsto> lastn (Suc n) (ms @ [m]))\<rparr>)"
proof (cases "Suc n \<le> length ms")
  case True
  let ?w = "lastn (Suc n) ms"
  have len: "length ?w = Suc n" using True by simp
  then obtain w ws where w: "?w = w # ws" by (cases ?w) auto
  have "ws = lastn n ms"
    using lastn_tl [OF len] w lastn_lastn [of n "Suc n" ms] by simp
  then show ?thesis using assms w len by (simp add: Put_def lastn_snoc)
next
  case False
  then show ?thesis using assms by (simp add: Put_def Let_def lastn_all)
qed

lemma Put_first:
  "max_messages_per_key c = Suc n \<Longrightarrow> cache c key = None \<Longrightarrow>
   Put key m c = (Ok (), c\<lparr>cache := (cache c)(key \<mapsto> lastn (Suc n) [m])\<rparr>)"
  by (simp add: Put_def Let_def lastn_def)

lemma Put_all:
  assumes "max_messages_per_key c = Suc n"
    and "cache c key = (if ms0 = [] then None else Some (lastn (Suc n) ms0))"
  shows "map_try (Put key) ms c =
    (Ok (replicate (length ms) ()),
     c\<lparr>cache := (if ms0 @ ms = [] then cache c else (cache c)(key \<mapsto> lastn (Suc n) (ms0 @ ms)))\<rparr>)"
  using assms
proof (induction ms arbitrary: ms0 c)
  case Nil
  then show ?case by (auto simp: return_def fun_upd_idem)
next
  case (Cons m ms)
  have put: "Put key m c = (Ok (), c\<lparr>cache := (cache c)(key \<mapsto> lastn (Suc n) (ms0 @ [m]))\<rparr>)"
    using Cons.prems by (cases "ms0 = []") (simp_all add: Put_messages Put_first)
  show ?case
    using Cons.IH [of "c\<lparr>cache := (cache c)(key \<mapsto> lastn (Suc n) (ms0 @ [m]))\<rparr>" "ms0 @ [m]"] Cons.prems(1)
    by (simp add: GENC_TRY_apply put return_apply)
qed



text \<open>
  Writing values through the custom function of a cache that was empty and then
  reading gives the texts of the last ones the limit keeps, each followed by the
  delimiter; after the remove function, reading gives the empty text.
\<close>

lemma local_cache_functions:
  assumes "max_messages_per_key c = Suc m" and "cache c key = None"
    and "fns = SetCustomFunctionsForLocalValueCache f delim key"
  shows "\<exists>read write remove us c'. fns kLocalCacheReadUri = Some read \<and>
    fns kLocalCacheWriteUri = Some write \<and> fns kLocalCacheRemoveUri = Some remove \<and>
    map_try write vs c = (Ok us, c') \<and> us = vs \<and>
    fst (read a c') = Ok (plain (KStr (concat (map (\<lambda>v. str v @ delim) (lastn (Suc m) vs))))) \<and>
    fst (GENC_TRY (remove a) read c') = Ok (plain (KStr []))"
proof -
  have writes: "map_try (cache_write key) ws b = (case map_try (Put key) ws b of
      (Ok _, b') \<Rightarrow> (Ok ws, b') | (Err e, b') \<Rightarrow> (Err e, b')
    | (Crash x, b') \<Rightarrow> (Crash x, b') | (Diverge, b') \<Rightarrow> (Diverge, b'))" for ws b
    by (induction ws arbitrary: b)
      (auto simp: cache_write_def GENC_TRY_apply return_apply split: prod.splits outcome.splits)
  let ?c' = "c\<lparr>cache := (if vs = [] then cache c else (cache c)(key \<mapsto> lastn (Suc m) vs))\<rparr>"
  have put: "map_try (Put key) vs c = (Ok (replicate (length vs) ()), ?c')"
    using Put_all [OF assms(1), of key "[]" vs] assms(2) by simp
  have uris: "kLocalCacheReadUri \<noteq> kLocalCacheWriteUri" "kLocalCacheReadUri \<noteq> kLocalCacheRemoveUri"
      "kLocalCacheWriteUri \<noteq> kLocalCacheRemoveUri"
    by (simp_all add: kLocalCacheReadUri_def kLocalCacheWriteUri_def kLocalCacheRemoveUri_def)
  have w: "map_try (cache_write key) vs c = (Ok vs, ?c')"
    by (simp add: writes put)
  have r: "fst (cache_read delim key a ?c') = Ok (plain (KStr (concat (map (\<lambda>v. str v @ delim) (lastn (Suc m) vs)))))"
    using assms(2) by (simp add: cache_read_def Get_def lastn_def)
  have "fst (GENC_TRY (cache_remove key a) (cache_read delim key) ?c') = Ok (plain (KStr []))"
    by (simp add: GENC_TRY_apply cache_remove_def cache_read_def Get_def Remove_def)
  with w r show ?thesis
    using uris by (simp add: assms(3) SetCustomFunctionsForLocalValueCache_def)
qed

lemma local_cache_functions_witness:
  "\<exists>write c'. SetCustomFunctionsForLocalValueCache Map.empty ''; '' ''d'' kLocalCacheWriteUri = Some write \<and>
    map_try write [plain (KStr ''a''), plain (KStr ''b''), plain (KStr ''c'')] (LocalCache 2) =
      (Ok [plain (KStr ''a''), plain (KStr ''b''), plain (KStr ''c'')], c') \<and>
    fst (cache_read ''; '' ''d'' empty_value c') = Ok (plain (KStr ''b; c; ''))"
proof -
  have c: "max_messages_per_key (LocalCache 2 :: value_cache) = Suc 1" "cache (LocalCache 2 :: value_cache) ''d'' = None"
    by (simp_all add: LocalCache_def)
  have reads: "SetCustomFunctionsForLocalValueCache Map.empty ''; '' ''d'' kLocalCacheReadUri =
      Some (cache_read ''; '' ''d'')"
    by (simp add: SetCustomFunctionsForLocalValueCache_def kLocalCacheReadUri_def kLocalCacheWriteUri_def
        kLocalCacheRemoveUri_def)
  from local_cache_functions [OF c refl, of Map.empty "''; ''"
      "[plain (KStr ''a''), plain (KStr ''b''), plain (KStr ''c'')]" empty_value]
  show ?thesis using reads by (auto simp: lastn_def)
qed

end
