(* ===== verification/Authoring.thy ===== *)
theory Authoring
  imports Intrinsics Retrieval
begin

text \<open>
  The authoring library: the constructors of \<^verbatim>\<open>genc/cc/authoring/constructor.cc\<close>, the
  \<^verbatim>\<open>SmartChain\<close> builder, the tracing context that names the intermediate values of a
  computation, and the stack of contexts of \<^verbatim>\<open>genc/cc/base/context.cc\<close>.
\<close>

section \<open>Constructors\<close>

definition CreateLabeledValue :: "string \<Rightarrow> pvalue \<Rightarrow> pvalue" where
  "CreateLabeledValue l v = set_label l v"

definition labeled_str :: "string \<Rightarrow> string \<Rightarrow> pvalue" where
  "labeled_str l s = set_label l (plain (KStr s))"

definition labeled_int_32 :: "string \<Rightarrow> i32 \<Rightarrow> pvalue" where
  "labeled_int_32 l i = set_label l (plain (KInt32 i))"

text \<open>An intrinsic with a struct of static arguments, and one with a string.\<close>

definition intrinsic_with_args :: "string \<Rightarrow> pvalue list \<Rightarrow> pvalue" where
  "intrinsic_with_args u args = plain (KIntrinsic (IntrinsicPb u (Some (plain (KStruct args)))))"

definition intrinsic_with_str :: "string \<Rightarrow> string \<Rightarrow> pvalue" where
  "intrinsic_with_str u s = plain (KIntrinsic (IntrinsicPb u (Some (plain (KStr s)))))"

definition CreateRepeat :: "i32 \<Rightarrow> pvalue \<Rightarrow> pvalue outcome" where
  "CreateRepeat num_steps body_fn =
     Ok (intrinsic_with_args kRepeat [labeled_int_32 ''num_steps'' num_steps, CreateLabeledValue ''body_fn'' body_fn])"

text \<open>Setting the intrinsic of a value that has one keeps the static parameter's label and type.\<close>

definition SetModelInference :: "pvalue \<Rightarrow> string \<Rightarrow> pvalue" where
  "SetModelInference computation model_uri =
     set_case (KIntrinsic (IntrinsicPb kModelInference
       (Some (set_case (KStr model_uri) (static_parameter (intrinsic computation)))))) computation"

definition CreateModelInference :: "string \<Rightarrow> pvalue outcome" where
  "CreateModelInference model_uri = Ok (SetModelInference empty_value model_uri)"

definition CreateRestModelConfig :: "string \<Rightarrow> string \<Rightarrow> pvalue outcome" where
  "CreateRestModelConfig endpoint api_key =
     (let model_config_pb = set_label ''model_config'' empty_value in
      if api_key = [] then Ok (set_case (KStr endpoint) model_config_pb)
      else Ok (add_element (labeled_str ''api_key'' api_key)
                (add_element (labeled_str ''endpoint'' endpoint) model_config_pb)))"

definition CreateRestModelConfigWithJsonRequestTemplate ::
  "string \<Rightarrow> string \<Rightarrow> string \<Rightarrow> pvalue outcome" where
  "CreateRestModelConfigWithJsonRequestTemplate endpoint api_key json_request_template =
     try_value (CreateRestModelConfig endpoint api_key) (\<lambda>model_config_pb.
       Ok (add_element (labeled_str ''json_request_template'' json_request_template) model_config_pb))"

definition CreateLlamaCppConfig :: "string \<Rightarrow> i32 \<Rightarrow> i32 \<Rightarrow> pvalue outcome" where
  "CreateLlamaCppConfig model_path num_threads max_tokens =
     Ok (add_element (labeled_int_32 ''max_tokens'' max_tokens)
          (add_element (labeled_int_32 ''num_threads'' num_threads)
            (add_element (labeled_str ''model_path'' model_path)
              (set_case (KStruct []) (set_label ''model_config'' empty_value)))))"

definition CreateModelInferenceWithConfig :: "string \<Rightarrow> pvalue \<Rightarrow> pvalue outcome" where
  "CreateModelInferenceWithConfig model_uri model_config =
     (let config_pb = set_label ''model_config'' empty_value;
          model_config_pb =
            (if has_struct model_config then set_case (KStruct (struct_elements model_config)) config_pb
             else if has_str model_config then set_case (KStr (str model_config)) config_pb
             else config_pb)
      in Ok (intrinsic_with_args kModelInferenceWithConfig [labeled_str ''model_uri'' model_uri, model_config_pb]))"

definition CreateCustomFunction :: "string \<Rightarrow> pvalue outcome" where
  "CreateCustomFunction fn_uri = Ok (intrinsic_with_str kCustomFunction fn_uri)"

definition CreateLambda :: "string \<Rightarrow> pvalue \<Rightarrow> pvalue outcome" where
  "CreateLambda arg_name body = Ok (plain (KLambda (LambdaPb arg_name (Some body))))"

definition CreateReference :: "string \<Rightarrow> pvalue outcome" where
  "CreateReference arg_name = Ok (plain (KReference arg_name))"

definition CreateCall :: "pvalue \<Rightarrow> pvalue \<Rightarrow> pvalue outcome" where
  "CreateCall fn arg = Ok (plain (KCall (Some fn) (Some arg)))"

definition CreatePromptTemplate :: "string \<Rightarrow> pvalue outcome" where
  "CreatePromptTemplate template_str = Ok (intrinsic_with_str kPromptTemplate template_str)"

definition CreateStruct :: "pvalue list \<Rightarrow> pvalue outcome" where
  "CreateStruct value_list = Ok (plain (KStruct value_list))"

definition CreatePromptTemplateWithParameters :: "string \<Rightarrow> string list \<Rightarrow> pvalue outcome" where
  "CreatePromptTemplateWithParameters template_str parameter_list =
     (if length parameter_list < 2
      then InvalidArgumentError [Txt ''There must be at least 2 parameters, got: '', Num (int (length parameter_list))]
      else
        let template_element = plain (KStr template_str);
            params_element = fold (\<lambda>p v. add_element (plain (KStr p)) v) parameter_list empty_value
        in try_value (CreateStruct [template_element, params_element]) (\<lambda>s.
             Ok (plain (KIntrinsic (IntrinsicPb kPromptTemplateWithParameters (Some s))))))"

definition CreateRegexPartialMatch :: "string \<Rightarrow> pvalue outcome" where
  "CreateRegexPartialMatch pattern_str = Ok (intrinsic_with_str kRegexPartialMatch pattern_str)"

definition CreateLogicalNot :: "pvalue outcome" where
  "CreateLogicalNot = Ok (plain (KIntrinsic (IntrinsicPb kLogicalNot None)))"

definition CreateWhile :: "pvalue \<Rightarrow> pvalue \<Rightarrow> pvalue outcome" where
  "CreateWhile condition_fn body_fn =
     Ok (intrinsic_with_args kWhile
       [CreateLabeledValue ''condition_fn'' condition_fn, CreateLabeledValue ''body_fn'' body_fn])"

text \<open>The functions of a chain are labelled with their positions.\<close>

definition numbered :: "pvalue list \<Rightarrow> pvalue list" where
  "numbered fns = map (\<lambda>(i, f). CreateLabeledValue (''fn_'' @ decimal i) f) (enumerate 0 fns)"

definition CreateRepeatedConditionalChain :: "i32 \<Rightarrow> pvalue list \<Rightarrow> pvalue outcome" where
  "CreateRepeatedConditionalChain num_steps body_fns =
     Ok (intrinsic_with_args kRepeatedConditionalChain (labeled_int_32 ''num_steps'' num_steps # numbered body_fns))"

definition CreateBreakableChain :: "pvalue list \<Rightarrow> pvalue outcome" where
  "CreateBreakableChain fns_list = Ok (intrinsic_with_args kBreakableChain (numbered fns_list))"

definition CreateSerialChain :: "pvalue list \<Rightarrow> pvalue outcome" where
  "CreateSerialChain function_list = Ok (intrinsic_with_args kSerialChain (numbered function_list))"

definition CreateParallelMap :: "pvalue \<Rightarrow> pvalue outcome" where
  "CreateParallelMap map_fn = Ok (plain (KIntrinsic (IntrinsicPb kParallelMap (Some map_fn))))"

definition CreateLogger :: "pvalue outcome" where
  "CreateLogger = Ok (plain (KIntrinsic (IntrinsicPb kLogger None)))"

definition CreateNamedValue :: "string \<Rightarrow> pvalue \<Rightarrow> pvalue outcome" where
  "CreateNamedValue l unlabeled_value = Ok (set_label l unlabeled_value)"

definition CreateSelection :: "pvalue \<Rightarrow> i32 \<Rightarrow> pvalue outcome" where
  "CreateSelection source index = Ok (plain (KSelection (Some source) index))"

definition CreateFallback :: "pvalue list \<Rightarrow> pvalue outcome" where
  "CreateFallback function_list =
     Ok (intrinsic_with_args kFallback (map (CreateLabeledValue ''candidate_fn'') function_list))"

definition CreateConditional :: "pvalue \<Rightarrow> pvalue \<Rightarrow> pvalue \<Rightarrow> pvalue outcome" where
  "CreateConditional condition positive_branch negative_branch =
     CreateCall (intrinsic_with_args kConditional
       [CreateLabeledValue ''then'' positive_branch, CreateLabeledValue ''else'' negative_branch]) condition"

definition CreateLambdaForConditional :: "pvalue \<Rightarrow> pvalue \<Rightarrow> pvalue \<Rightarrow> pvalue outcome" where
  "CreateLambdaForConditional condition positive_branch negative_branch =
     try_value (CreateReference ''arg'') (\<lambda>arg_ref.
     try_value (CreateCall condition arg_ref) (\<lambda>c.
     try_value (CreateCall positive_branch arg_ref) (\<lambda>p.
     try_value (CreateCall negative_branch arg_ref) (\<lambda>n.
     try_value (CreateConditional c p n) (CreateLambda ''arg'')))))"

definition CreateInjaTemplate :: "string \<Rightarrow> pvalue outcome" where
  "CreateInjaTemplate template_str = Ok (intrinsic_with_str kInjaTemplate template_str)"

definition CreateRestCall :: "string \<Rightarrow> string \<Rightarrow> string \<Rightarrow> pvalue outcome" where
  "CreateRestCall u api_key method =
     Ok (intrinsic_with_args kRestCall
       [labeled_str ''method'' method, labeled_str ''uri'' u, labeled_str ''api_key'' api_key])"

definition CreateWolframAlpha :: "string \<Rightarrow> pvalue outcome" where
  "CreateWolframAlpha appid =
     Ok (plain (KIntrinsic (IntrinsicPb kWolframAlpha (Some (labeled_str ''appid'' appid)))))"

text \<open>The overloads of \<open>ToValue\<close>; a vector of one value is that value.\<close>

definition ToValue_int :: "i32 \<Rightarrow> pvalue" where "ToValue_int arg = plain (KInt32 arg)"
definition ToValue_float :: "u32 \<Rightarrow> pvalue" where "ToValue_float arg = plain (KFloat32 arg)"
definition ToValue_string :: "string \<Rightarrow> pvalue" where "ToValue_string arg = plain (KStr arg)"
definition ToValue_bool :: "bool \<Rightarrow> pvalue" where "ToValue_bool arg = plain (KBoolean arg)"
definition ToValue_media :: "string \<Rightarrow> pvalue" where "ToValue_media arg = plain (KMedia arg)"

fun ToValue_vector :: "pvalue list \<Rightarrow> pvalue" where
  "ToValue_vector [v] = v"
| "ToValue_vector vs = plain (KStruct vs)"

section \<open>The chain builder\<close>

record SmartChain =
  is_parallel :: bool
  num_iteration :: i32
  chained_ops :: "pvalue list"

definition new_SmartChain :: SmartChain where
  "new_SmartChain = \<lparr>is_parallel = False, num_iteration = 0, chained_ops = []\<rparr>"

definition SmartChain_Build :: "SmartChain \<Rightarrow> pvalue outcome" where
  "SmartChain_Build ch =
     try_value
       (if 1 < sint (num_iteration ch)
        then CreateRepeatedConditionalChain (num_iteration ch) (chained_ops ch)
        else CreateSerialChain (chained_ops ch))
       (\<lambda>resulting_chain. if is_parallel ch then CreateParallelMap resulting_chain else Ok resulting_chain)"

text \<open>The pipe operators; \<open>value()\<close> of a status that is not OK ends the process.\<close>

definition value_or_die :: "'a outcome \<Rightarrow> 'a outcome" where
  "value_or_die r = (case r of Err e \<Rightarrow> Crash UncaughtException | _ \<Rightarrow> r)"

definition pipe_value :: "SmartChain \<Rightarrow> pvalue \<Rightarrow> SmartChain" where
  "pipe_value ch op = ch\<lparr>chained_ops := chained_ops ch @ [op]\<rparr>"

definition pipe_status_or :: "SmartChain \<Rightarrow> pvalue outcome \<Rightarrow> SmartChain outcome" where
  "pipe_status_or ch op = try_value (value_or_die op) (\<lambda>v. Ok (pipe_value ch v))"

definition pipe_chain :: "SmartChain \<Rightarrow> SmartChain \<Rightarrow> SmartChain outcome" where
  "pipe_chain ch other_chain = try_value (value_or_die (SmartChain_Build other_chain)) (\<lambda>v. Ok (pipe_value ch v))"

definition SetNumIteration :: "i32 \<Rightarrow> SmartChain \<Rightarrow> SmartChain" where
  "SetNumIteration i ch = ch\<lparr>num_iteration := i\<rparr>"

definition pipe_iterations :: "SmartChain \<Rightarrow> i32 \<Rightarrow> SmartChain" where
  "pipe_iterations ch i = SetNumIteration i ch"

definition SetIsParallel :: "bool \<Rightarrow> SmartChain \<Rightarrow> SmartChain" where
  "SetIsParallel p ch = ch\<lparr>is_parallel := p\<rparr>"

lemmas constructor_defs =
  CreateRepeat_def CreateModelInference_def SetModelInference_def CreateModelInferenceWithConfig_def
  CreateCustomFunction_def CreatePromptTemplate_def CreatePromptTemplateWithParameters_def
  CreateRegexPartialMatch_def CreateLogicalNot_def CreateWhile_def CreateRepeatedConditionalChain_def
  CreateBreakableChain_def CreateSerialChain_def CreateParallelMap_def CreateLogger_def CreateStruct_def
  CreateFallback_def CreateInjaTemplate_def CreateRestCall_def CreateWolframAlpha_def
  intrinsic_with_args_def intrinsic_with_str_def labeled_str_def labeled_int_32_def CreateLabeledValue_def

section \<open>What the constructors make is well-formed\<close>

definition accepted_by :: "'w handler \<Rightarrow> pvalue outcome \<Rightarrow> bool" where
  "accepted_by h r \<longleftrightarrow> (\<exists>i. r = Ok (plain (KIntrinsic i)) \<and> uri i = handler_uri h \<and> CheckWellFormed h i = Ok ())"

lemma struct_elements_plain [simp]: "struct_elements (plain (KStruct es)) = es"
  by simp

lemma length_numbered [simp]: "length (numbered fns) = length fns"
  by (simp add: numbered_def)

lemma nth_numbered:
  "i < length fns \<Longrightarrow> numbered fns ! i = CreateLabeledValue (''fn_'' @ decimal i) (fns ! i)"
  by (simp add: numbered_def nth_enumerate_eq)

lemma fold_add_str:
  "fold (\<lambda>p. add_element (plain (KStr p))) ps (plain (KStruct es)) = plain (KStruct (es @ map (\<lambda>p. plain (KStr p)) ps))"
  by (induction ps arbitrary: es) (simp_all add: add_element_def)

lemma parameter_list_struct:
  "ps \<noteq> [] \<Longrightarrow> fold (\<lambda>p. add_element (plain (KStr p))) ps empty_value = plain (KStruct (map (\<lambda>p. plain (KStr p)) ps))"
  by (cases ps) (simp_all add: add_element_def fold_add_str)

lemma check_parameter_names_strings: "check_parameter_names (map (\<lambda>p. plain (KStr p)) ps) = Ok ()"
  by (induction ps) simp_all

lemma simple_constructors_accepted:
  "accepted_by (ModelInferenceWithConfig mc) (CreateModelInferenceWithConfig m config)"
  "accepted_by Repeat (CreateRepeat n f)" "accepted_by While (CreateWhile c f)"
  "accepted_by RestCall (CreateRestCall u k method)" "accepted_by Fallback (CreateFallback fs)"
  "accepted_by ParallelMap (CreateParallelMap f)" "accepted_by LogicalNot CreateLogicalNot"
  "accepted_by Logger CreateLogger" "accepted_by (ModelInference mi) (CreateModelInference m)"
  "accepted_by (CustomFunction cf) (CreateCustomFunction m)"
  "accepted_by PromptTemplate (CreatePromptTemplate t)"
  "accepted_by RegexPartialMatch (CreateRegexPartialMatch t)"
  "accepted_by InjaTemplate (CreateInjaTemplate t)" "accepted_by WolframAlpha (CreateWolframAlpha k)"
  by (simp_all add: accepted_by_def constructor_defs handler_simps accessor_simps element_def Let_def)

lemma chain_constructors_accepted:
  "accepted_by RepeatedConditionalChain (CreateRepeatedConditionalChain n fs) \<longleftrightarrow> fs \<noteq> []"
  "accepted_by BreakableChain (CreateBreakableChain fs) \<longleftrightarrow> fs \<noteq> []"
  "accepted_by SerialChain (CreateSerialChain fs) \<longleftrightarrow> fs \<noteq> []"
  by (cases fs; simp add: accepted_by_def constructor_defs handler_simps accessor_simps numbered_def)+


text \<open>
  A configuration for a REST model with a request template but without an API key
  has no endpoint in it: adding the template turns the text that held the endpoint into
  a structure.
\<close>

lemma rest_config_loses_endpoint:
  "\<exists>c. CreateRestModelConfigWithJsonRequestTemplate endpoint [] json_request_template = Ok c \<and>
     struct_elements c = [labeled_str ''json_request_template'' json_request_template] \<and> \<not> has_str c \<and>
     (\<exists>c'. CreateRestModelConfigWithJsonRequestTemplate endpoint (k # ey) json_request_template = Ok c' \<and>
       struct_elements c' = [labeled_str ''endpoint'' endpoint, labeled_str ''api_key'' (k # ey),
         labeled_str ''json_request_template'' json_request_template])"
  by (simp add: CreateRestModelConfigWithJsonRequestTemplate_def CreateRestModelConfig_def add_element_def)

section \<open>The tracing context\<close>

text \<open>
  The locals of a trace are serialized values with generated names. The serializer of the
  protocol buffers is a parameter; what the trace relies on is that a parser reads back
  what was written.
\<close>

type_synonym trace_locals = "(string, string) bi_map"

definition trace_name :: "nat \<Rightarrow> string" where
  "trace_name n = ''v_'' @ decimal n"

lemma trace_name_inject [simp]: "trace_name m = trace_name n \<longleftrightarrow> m = n"
  by (simp add: trace_name_def decimal_inject)

definition ReplaceWithReference ::
  "(pvalue \<Rightarrow> string) \<Rightarrow> pvalue \<Rightarrow> (trace_locals, pvalue) prog" where
  "ReplaceWithReference SerializeAsString ir = (\<lambda>name_to_ir.
     if has_reference ir then (Ok ir, name_to_ir)
     else
       let serialized_ir = SerializeAsString ir in
       (case FindByValue serialized_ir name_to_ir of
          Some nm \<Rightarrow> (CreateReference nm, name_to_ir)
        | None \<Rightarrow>
            let nm = trace_name (bi_map_size name_to_ir)
            in (CreateReference nm, snd (Insert nm serialized_ir name_to_ir))))"

definition TracingContext_Call ::
  "(pvalue \<Rightarrow> string) \<Rightarrow> pvalue \<Rightarrow> pvalue list \<Rightarrow> (trace_locals, pvalue) prog" where
  "TracingContext_Call SerializeAsString portable_ir args =
     (if args = [] then lift (InvalidArgumentError [Txt ''At least one argument is required.''])
      else
        GENC_TRY (map_try (ReplaceWithReference SerializeAsString) args) (\<lambda>processed_args.
        GENC_TRY (ReplaceWithReference SerializeAsString portable_ir) (\<lambda>processed_func.
        lift (CreateCall processed_func (ToValue_vector processed_args)))))"

text \<open>The names of the locals are \<open>v_0\<close>, \<open>v_1\<close>, and so on, without a gap.\<close>

definition trace_inv :: "trace_locals \<Rightarrow> bool" where
  "trace_inv m \<longleftrightarrow> bi_map_inv m \<and>
     dom (key_to_value m) = trace_name ` {..<bi_map_size m}"

definition grows :: "trace_locals \<Rightarrow> trace_locals \<Rightarrow> bool" where
  "grows m m' \<longleftrightarrow> key_to_value m \<subseteq>\<^sub>m key_to_value m'"

text \<open>What a value of the trace stands for.\<close>

definition stands_for :: "(string \<Rightarrow> pvalue) \<Rightarrow> trace_locals \<Rightarrow> pvalue \<Rightarrow> pvalue \<Rightarrow> bool" where
  "stands_for parse m r ir \<longleftrightarrow> (if has_reference ir then r = ir
     else \<exists>nm s. r = plain (KReference nm) \<and> FindByKey nm m = Some s \<and> parse s = ir)"

lemma grows_refl [simp]: "grows m m"
  by (simp add: grows_def)

lemma grows_trans: "grows a b \<Longrightarrow> grows b c \<Longrightarrow> grows a c"
  unfolding grows_def by (rule map_le_trans)

lemma stands_for_grows: "stands_for parse m r ir \<Longrightarrow> grows m m' \<Longrightarrow> stands_for parse m' r ir"
  unfolding stands_for_def grows_def FindByKey_def by (metis map_leD)

lemma fresh_name:
  assumes "trace_inv m"
  shows "FindByKey (trace_name (bi_map_size m)) m = None"
proof -
  have "trace_name (bi_map_size m) \<notin> dom (key_to_value m)"
    using assms by (auto simp: trace_inv_def)
  then show ?thesis by (simp add: FindByKey_def domIff)
qed

lemma ReplaceWithReference_traced:
  assumes inv: "trace_inv m" and parse: "parse (ser ir) = ir"
  shows "\<exists>r m'. ReplaceWithReference ser ir m = (Ok r, m') \<and> trace_inv m' \<and> grows m m' \<and>
    stands_for parse m' r ir"
proof -
  have bi: "bi_map_inv m" using inv by (simp add: trace_inv_def)
  consider (ref) "has_reference ir"
    | (known) nm where "\<not> has_reference ir" "FindByValue (ser ir) m = Some nm"
    | (new) "\<not> has_reference ir" "FindByValue (ser ir) m = None"
    by fastforce
  then show ?thesis
  proof cases
    case ref
    then show ?thesis using inv by (simp add: ReplaceWithReference_def stands_for_def)
  next
    case known
    then have "FindByKey nm m = Some (ser ir)" using bm.inverse [OF bi] by simp
    then show ?thesis
      using known inv parse by (auto simp: ReplaceWithReference_def stands_for_def CreateReference_def)
  next
    case new
    let ?nm = "trace_name (bi_map_size m)"
    have fresh: "FindByKey ?nm m = None" by (rule fresh_name [OF inv])
    let ?m' = "set_pair ?nm (ser ir) m"
    have ins: "Insert ?nm (ser ir) m = (True, ?m')"
      using fresh new(2) by (simp add: Insert_def FindByKey_def FindByValue_def)
    have size: "bi_map_size ?m' = Suc (bi_map_size m)"
      using bi_map_size_set_pair [OF bi] fresh by (simp add: FindByKey_def)
    have "bi_map_inv ?m'"
      using set_pair_inv [OF bi] fresh new(2) by (simp add: FindByKey_def FindByValue_def)
    moreover have "dom (key_to_value ?m') = insert ?nm (dom (key_to_value m))"
      by (simp add: set_pair_def)
    ultimately have "trace_inv ?m'"
      using inv by (simp add: trace_inv_def size lessThan_Suc)
    moreover have "grows m ?m'"
      using fresh by (auto simp: grows_def set_pair_def FindByKey_def)
    ultimately show ?thesis
      using new ins parse
      by (auto simp: ReplaceWithReference_def Let_def stands_for_def CreateReference_def FindByKey_def set_pair_def)
  qed
qed

lemma ReplaceWithReference_list:
  assumes "trace_inv m" and "\<And>v. v \<in> set irs \<Longrightarrow> parse (ser v) = v"
  shows "\<exists>rs m'. map_try (ReplaceWithReference ser) irs m = (Ok rs, m') \<and> trace_inv m' \<and> grows m m' \<and>
    list_all2 (stands_for parse m') rs irs"
  using assms
proof (induction irs arbitrary: m)
  case Nil
  then show ?case by (simp add: return_apply)
next
  case (Cons ir irs)
  have parse: "parse (ser ir) = ir" using Cons.prems(2) by simp
  obtain r m1 where r: "ReplaceWithReference ser ir m = (Ok r, m1)" "trace_inv m1" "grows m m1"
      "stands_for parse m1 r ir"
    using ReplaceWithReference_traced [of m parse ser ir] Cons.prems(1) parse by blast
  obtain rs m2 where rs: "map_try (ReplaceWithReference ser) irs m1 = (Ok rs, m2)" "trace_inv m2" "grows m1 m2"
      "list_all2 (stands_for parse m2) rs irs"
    using Cons.IH [OF r(2)] Cons.prems(2) by fastforce
  show ?case
    using r rs grows_trans [OF r(3) rs(3)] stands_for_grows [OF r(4) rs(3)]
    by (simp add: GENC_TRY_apply return_apply)
qed

text \<open>
  C34: tracing a call gives a call of references whose locals are the function and the
  arguments of the call, keeps every earlier name with its value, gives equal values the
  same name and new values the next one, so that the trace can be expanded again.
\<close>

theorem tracing_keeps_locals:
  assumes "trace_inv m" and "\<And>v. v \<in> insert portable_ir (set args) \<Longrightarrow> parse (ser v) = v" and "args \<noteq> []"
  shows "\<exists>fn rs m'. TracingContext_Call ser portable_ir args m =
      (Ok (plain (KCall (Some fn) (Some (ToValue_vector rs)))), m') \<and>
    trace_inv m' \<and> key_to_value m \<subseteq>\<^sub>m key_to_value m' \<and>
    stands_for parse m' fn portable_ir \<and> list_all2 (stands_for parse m') rs args"
proof -
  obtain rs m1 where rs: "map_try (ReplaceWithReference ser) args m = (Ok rs, m1)" "trace_inv m1" "grows m m1"
      "list_all2 (stands_for parse m1) rs args"
    using ReplaceWithReference_list [OF assms(1), of args parse ser] assms(2) by blast
  obtain fn m2 where fn: "ReplaceWithReference ser portable_ir m1 = (Ok fn, m2)" "trace_inv m2" "grows m1 m2"
      "stands_for parse m2 fn portable_ir"
    using ReplaceWithReference_traced [OF rs(2), of parse ser portable_ir] assms(2) by blast
  have "list_all2 (stands_for parse m2) rs args"
    using rs(4) stands_for_grows [OF _ fn(3)] by (rule list_all2_mono)
  then show ?thesis
    using rs fn grows_trans [OF rs(3) fn(3)] assms(3)
    by (intro exI [of _ fn] exI [of _ rs] exI [of _ m2])
      (simp add: TracingContext_Call_def GENC_TRY_apply lift_apply CreateCall_def grows_def)
qed

lemma trace_inv_empty: "trace_inv empty_bi_map"
  by (simp add: trace_inv_def bi_map_inv_empty) (simp add: empty_bi_map_def bi_map_size_def)

lemma tracing_keeps_locals_witness:
  "\<exists>fn rs m'. TracingContext_Call (\<lambda>v. if has_str v then str v else uri (intrinsic v))
      (plain (KIntrinsic (IntrinsicPb ''f'' None))) [plain (KStr ''x''), plain (KStr ''x'')] empty_bi_map =
      (Ok (plain (KCall (Some fn) (Some (ToValue_vector rs)))), m') \<and> trace_inv m'"
proof -
  let ?ser = "\<lambda>v. if has_str v then str v else uri (intrinsic v)"
  let ?parse = "\<lambda>s. if s = ''x'' then plain (KStr ''x'') else plain (KIntrinsic (IntrinsicPb ''f'' None))"
  let ?ir = "plain (KIntrinsic (IntrinsicPb ''f'' None))" and ?args = "[plain (KStr ''x''), plain (KStr ''x'')]"
  have p: "?parse (?ser v) = v" if "v \<in> insert ?ir (set ?args)" for v
    using that by auto
  from tracing_keeps_locals [OF trace_inv_empty, of ?ir ?args ?parse ?ser] p show ?thesis by fastforce
qed

section \<open>The stack of contexts\<close>

record 'c ContextStack =
  default_context :: "'c option"
  nested_contexts :: "'c list"

definition new_ContextStack :: "'c option \<Rightarrow> 'c ContextStack" where
  "new_ContextStack ctx = \<lparr>default_context = ctx, nested_contexts = []\<rparr>"

definition SetDefaultContext :: "'c option \<Rightarrow> 'c ContextStack \<Rightarrow> 'c ContextStack" where
  "SetDefaultContext ctx st = st\<lparr>default_context := ctx\<rparr>"

text \<open>The top of the stack is the last element; contexts are compared as shared pointers.\<close>

definition AppendNestedContext :: "'c \<Rightarrow> 'c ContextStack \<Rightarrow> 'c ContextStack" where
  "AppendNestedContext ctx st = st\<lparr>nested_contexts := nested_contexts st @ [ctx]\<rparr>"

definition RemoveNestedContext :: "'c \<Rightarrow> ('c ContextStack, unit) prog" where
  "RemoveNestedContext ctx = (\<lambda>st.
     if nested_contexts st = [] then (Err (Status kFailedPrecondition [Txt ''No nested context on the stack.'']), st)
     else if last (nested_contexts st) \<noteq> ctx
     then (Err (Status kFailedPrecondition [Txt ''Can only remove the top context from the stack.'']), st)
     else (Ok (), st\<lparr>nested_contexts := butlast (nested_contexts st)\<rparr>))"

definition CurrentContext :: "'c ContextStack \<Rightarrow> 'c option" where
  "CurrentContext st =
     (if nested_contexts st \<noteq> [] then Some (last (nested_contexts st)) else default_context st)"

text \<open>A well-nested use of the stack: contexts are entered and left like brackets.\<close>

inductive nested_use :: "('c ContextStack \<Rightarrow> 'c ContextStack \<Rightarrow> bool)" where
  nested_use_nothing: "nested_use st st"
| nested_use_scope: "nested_use (AppendNestedContext ctx st) st1 \<Longrightarrow>
    RemoveNestedContext ctx st1 = (Ok (), st2) \<Longrightarrow> nested_use st2 st3 \<Longrightarrow> nested_use st st3"

lemma nested_use_same: "nested_use st st' \<Longrightarrow> st' = st"
proof (induction rule: nested_use.induct)
  case (nested_use_scope ctx st st1 st2 st3)
  then show ?case
    by (simp add: AppendNestedContext_def RemoveNestedContext_def)
qed simp

text \<open>
  Contexts that are entered and left like brackets leave the stack as it was, so
  inside a scope the current context is the one entered last and after it the one before;
  leaving a context that is not on top is refused and changes nothing.
\<close>

lemma context_scopes:
  assumes "nested_use (AppendNestedContext ctx st) st1"
  shows "CurrentContext st1 = Some ctx \<and> RemoveNestedContext ctx st1 = (Ok (), st) \<and>
    (\<forall>c. c \<noteq> ctx \<longrightarrow> (\<exists>e. RemoveNestedContext c st1 = (Err e, st1)))"
  using nested_use_same [OF assms]
  by (simp add: AppendNestedContext_def CurrentContext_def RemoveNestedContext_def)

lemma context_scopes_witness:
  "CurrentContext (AppendNestedContext (1 :: nat) (AppendNestedContext 0 (new_ContextStack None))) = Some 1 \<and>
   (\<exists>e. RemoveNestedContext 0 (AppendNestedContext (1 :: nat) (AppendNestedContext 0 (new_ContextStack None))) =
     (Err e, AppendNestedContext 1 (AppendNestedContext 0 (new_ContextStack None))))"
  using context_scopes [OF nested_use_nothing [of "AppendNestedContext (1 :: nat) (AppendNestedContext 0 (new_ContextStack None))"]]
  by fastforce

end
