(* ===== verification/Backends.thy ===== *)
theory Backends
  imports Inline_Intrinsics Authoring
begin

text \<open>
  The model backends: \<^verbatim>\<open>genc/cc/interop/backends/google_ai.cc\<close> with the parser of
  \<^verbatim>\<open>genc/cc/modules/parsers/gemini_parser.cc\<close>, and the clients behind the Java virtual
  machine of \<^verbatim>\<open>genc/cc/interop/backends/java\<close>. The text of JSON values, the Java clients
  and the serializer of the protocol buffers are parameters.
\<close>

section \<open>Changing JSON values\<close>

text \<open>
  \<open>empty()\<close>: null, or a container without elements. \<open>back()\<close> is the last element of a
  container, and a primitive value itself; it is used here to change that element.
\<close>

fun json_is_empty :: "json \<Rightarrow> bool" where
  "json_is_empty JNull = True"
| "json_is_empty (JArray xs) = (xs = [])"
| "json_is_empty (JObject kvs) = (kvs = [])"
| "json_is_empty j = False"

fun json_set :: "string \<Rightarrow> json \<Rightarrow> (string \<times> json) list \<Rightarrow> (string \<times> json) list" where
  "json_set k v [] = [(k, v)]"
| "json_set k v ((k', v') # kvs) = (if k' = k then (k, v) # kvs else (k', v') # json_set k v kvs)"

fun change_back :: "(json \<Rightarrow> json outcome) \<Rightarrow> json \<Rightarrow> json outcome" where
  "change_back f (JArray xs) = (if xs = [] then Crash UncaughtException
     else try_value (f (last xs)) (\<lambda>x. Ok (JArray (butlast xs @ [x]))))"
| "change_back f (JObject kvs) = (if kvs = [] then Crash UncaughtException
     else try_value (f (snd (last kvs))) (\<lambda>x. Ok (JObject (butlast kvs @ [(fst (last kvs), x)]))))"
| "change_back f JNull = Crash UncaughtException"
| "change_back f j = f j"

text \<open>Indexing with a key for writing: an object, or null, which becomes an object.\<close>

fun assign_key :: "string \<Rightarrow> json \<Rightarrow> json \<Rightarrow> json outcome" where
  "assign_key k v (JObject kvs) = Ok (JObject (json_set k v kvs))"
| "assign_key k v JNull = Ok (JObject [(k, v)])"
| "assign_key k v j = Crash UncaughtException"

definition change_key :: "string \<Rightarrow> (json \<Rightarrow> json outcome) \<Rightarrow> json \<Rightarrow> json outcome" where
  "change_key k f j = (case json_find j k of
      Some v \<Rightarrow> try_value (f v) (\<lambda>v'. assign_key k v' j)
    | None \<Rightarrow> Crash UncaughtException)"

text \<open>
  Indexing for reading on a mutable value: a key or position that is missing is created
  as null. On a constant value a missing key is undefined, here a crash.
\<close>

fun json_at :: "string \<Rightarrow> json \<Rightarrow> json outcome" where
  "json_at k (JObject kvs) = Ok (case map_of kvs k of Some v \<Rightarrow> v | None \<Rightarrow> JNull)"
| "json_at k JNull = Ok JNull"
| "json_at k j = Crash UncaughtException"

fun json_index :: "nat \<Rightarrow> json \<Rightarrow> json outcome" where
  "json_index i (JArray xs) = Ok (if i < length xs then xs ! i else JNull)"
| "json_index i JNull = Ok JNull"
| "json_index i j = Crash UncaughtException"

definition json_const_at :: "string \<Rightarrow> json \<Rightarrow> json outcome" where
  "json_const_at k j = (case json_find j k of Some v \<Rightarrow> Ok v | None \<Rightarrow> Crash UncaughtException)"

fun json_elements :: "json \<Rightarrow> json list" where
  "json_elements JNull = []"
| "json_elements (JArray xs) = xs"
| "json_elements (JObject kvs) = map snd kvs"
| "json_elements j = [j]"

section \<open>The Gemini parser\<close>

definition extract_first_candidate_as_text :: string where
  "extract_first_candidate_as_text =
     ''{% if candidates %}{% for p in candidates.0.content.parts '' @
     ''%}{{p.text}}{% endfor %}{%   endif %}''"

definition GetTopCandidateAsText :: "'c libs \<Rightarrow> pvalue \<Rightarrow> pvalue outcome" where
  "GetTopCandidateAsText lib input = (case json_parse lib (str input) of
      None \<Rightarrow> InternalError [Txt ''Failed parsing json output from Gemini: '', DebugString input]
    | Some parsed_json \<Rightarrow>
        try_value (inja_render lib extract_first_candidate_as_text parsed_json) (\<lambda>result_str.
          Ok (plain (KStr result_str))))"

definition gemini_request_prefix :: string where
  \<open>gemini_request_prefix =
     ''\<newline>        {\<newline>          "contents":\<newline>          [ {\<newline>            "parts":\<newline>            [ { "text": "''\<close>

definition gemini_request_suffix :: string where
  \<open>gemini_request_suffix = ''" }]\<newline>          }]\<newline>        }\<newline>      ''\<close>

definition WrapTextAsInputJson :: "pvalue \<Rightarrow> pvalue outcome" where
  "WrapTextAsInputJson input = Ok (plain (KStr (gemini_request_prefix @ str input @ gemini_request_suffix)))"

definition GeminiParser_SetCustomFunctions :: "'c libs \<Rightarrow> 'w FunctionMap \<Rightarrow> 'w FunctionMap" where
  "GeminiParser_SetCustomFunctions lib fn_map =
     fn_map(''/gemini_parser/get_top_candidate_as_text'' \<mapsto> (\<lambda>v. lift (GetTopCandidateAsText lib v)),
            ''/gemini_parser/wrap_text_as_input_json'' \<mapsto> (\<lambda>v. lift (WrapTextAsInputJson v)))"

section \<open>Gemini on AI Studio\<close>

definition kGeminiOnAIStudio :: string where "kGeminiOnAIStudio = ''/cloud/gemini''"

definition place_text :: "string \<Rightarrow> json \<Rightarrow> json outcome" where
  "place_text request_str lastContent =
     change_key ''parts'' (change_back (assign_key ''text'' (JString request_str))) lastContent"

definition has_parts :: "json \<Rightarrow> bool" where
  "has_parts lastContent \<longleftrightarrow> (case json_find lastContent ''parts'' of None \<Rightarrow> False | Some p \<Rightarrow> \<not> json_is_empty p)"

text \<open>The text of a JSON value, \<open>dump\<close>, is a parameter.\<close>

definition updateJsonRequest ::
  "(string \<Rightarrow> json option) \<Rightarrow> (json \<Rightarrow> string outcome) \<Rightarrow> string \<Rightarrow> string \<Rightarrow> string outcome" where
  "updateJsonRequest parse dump json_request_template request_str =
     (let failed = InvalidArgumentError [Txt ''Failed to parse json request template: '', Txt json_request_template];
          no_contents = InvalidArgumentError
            [Txt ''Invalid json request template, 'contents' not found: '', Txt json_request_template];
          no_parts = InvalidArgumentError
            [Txt ''Invalid json request template, 'parts' not found: '', Txt json_request_template] in
      (case parse json_request_template of
         None \<Rightarrow> failed
       | Some request_template \<Rightarrow>
           if \<not> is_object request_template then failed
           else (case json_find request_template ''contents'' of
               None \<Rightarrow> no_contents
             | Some contents \<Rightarrow>
                 if json_is_empty contents then no_contents
                 else
                   try_value
                     (change_key ''contents''
                       (change_back (\<lambda>lastContent.
                          if \<not> has_parts lastContent then no_parts else place_text request_str lastContent))
                       request_template)
                     dump)))"

definition default_json_request_template :: string where
  \<open>default_json_request_template =
     ''\<newline>      {\<newline>        "contents":\<newline>        [ {\<newline>          "parts":\<newline>          [ { "text": "$0" }]\<newline>        }]\<newline>      }\<newline>    ''\<close>

text \<open>The configuration read from the second static parameter: endpoint, key, template.\<close>

fun read_gemini_config :: "pvalue list \<Rightarrow> string \<times> string \<times> string \<Rightarrow> string \<times> string \<times> string" where
  "read_gemini_config [] c = c"
| "read_gemini_config (param # ps) (endpoint, api_key, json_request_template) =
     read_gemini_config ps
       (if label param = ''endpoint'' then (str param, api_key, json_request_template)
        else if label param = ''api_key'' then (endpoint, str param, json_request_template)
        else if label param = ''json_request_template'' \<and> str param \<noteq> []
        then (endpoint, api_key, str param)
        else (endpoint, api_key, json_request_template))"

definition gemini_inference ::
  "'c libs \<Rightarrow> (json \<Rightarrow> string outcome) \<Rightarrow> intrinsic_pb \<Rightarrow> pvalue \<Rightarrow> pvalue outcome" where
  "gemini_inference lib dump i arg =
     try_value (element (params i) 1) (\<lambda>config.
       case read_gemini_config (struct_elements config) ([], [], default_json_request_template) of
         (endpoint, api_key, json_request_template) \<Rightarrow>
           try_value (updateJsonRequest (json_parse lib) dump json_request_template (str arg)) (\<lambda>input_json.
           try_value (CurlClient_Post (libcurl lib) [] (endpoint @ ''?key='' @ api_key) input_json)
             (GetTopCandidateAsText lib)))"

definition GoogleAI_SetInferenceMap ::
  "'c libs \<Rightarrow> (json \<Rightarrow> string outcome) \<Rightarrow> 'w ConfigInferenceMap \<Rightarrow> 'w ConfigInferenceMap" where
  "GoogleAI_SetInferenceMap lib dump inference_map = inference_map(kGeminiOnAIStudio \<mapsto> (\<lambda>i v. lift (gemini_inference lib dump i v)))"

section \<open>Backends behind the Java virtual machine\<close>

text \<open>
  A client takes the serialized configuration and the request, and gives the text that
  the Java object returned, the empty text after an error; or the native code crashes.
\<close>

type_synonym jni_client = "string \<Rightarrow> string \<Rightarrow> string outcome"

definition kTestModelUri :: string where "kTestModelUri = ''/cloud/testing''"

definition AsString :: "(json \<Rightarrow> string) \<Rightarrow> json \<Rightarrow> string outcome" where
  "AsString dump value =
     (if \<not> is_string value then InvalidArgumentError [Txt ''expected string, got: '', Txt (dump value)]
      else json_get_string value)"

definition str_reply :: "string \<Rightarrow> pvalue" where
  "str_reply s = plain (KStr s)"

fun concat_parts :: "(json \<Rightarrow> string) \<Rightarrow> json list \<Rightarrow> string \<Rightarrow> string outcome" where
  "concat_parts dump [] full_text = Ok full_text"
| "concat_parts dump (part # parts) full_text =
     try_value (json_const_at ''text'' part) (\<lambda>v.
     try_value (AsString dump v) (\<lambda>text. concat_parts dump parts (full_text @ text)))"

definition GoogleAiCall ::
  "jni_client \<Rightarrow> (pvalue \<Rightarrow> string) \<Rightarrow> (string \<Rightarrow> json option) \<Rightarrow> (json \<Rightarrow> string)
     \<Rightarrow> pvalue \<Rightarrow> pvalue \<Rightarrow> pvalue outcome" where
  "GoogleAiCall google_ai_client ser parse dump func arg =
     (let call =
        try_value (google_ai_client (ser func) (str arg)) (\<lambda>response_str.
         if response_str = [] then InternalError [Txt ''Internal error in calling Google AI client.'']
         else
           let failed = InvalidArgumentError [Txt ''Failed to parse Google AI response: '', Txt response_str] in
           (case parse response_str of
              None \<Rightarrow> failed
            | Some response \<Rightarrow>
                if \<not> is_object response then failed
                else
                  try_value (json_at ''candidates'' response) (\<lambda>c.
                  try_value (json_index 0 c) (\<lambda>c0.
                  try_value (json_at ''content'' c0) (\<lambda>ct.
                  try_value (json_at ''parts'' ct) (\<lambda>parts.
                  try_value (concat_parts dump (json_elements parts) []) (\<lambda>full_text.
                    Ok (str_reply full_text))))))))
      in if has_intrinsic func \<and> uri (intrinsic func) = kModelInferenceWithConfig
         then try_value (element (params (intrinsic func)) 0) (\<lambda>e0.
                if str e0 = kTestModelUri then Ok (str_reply (''Testing model with prompt: '' @ str arg)) else call)
         else call)"

definition OpenAiCall ::
  "jni_client \<Rightarrow> (pvalue \<Rightarrow> string) \<Rightarrow> (string \<Rightarrow> json option) \<Rightarrow> (json \<Rightarrow> string)
     \<Rightarrow> pvalue \<Rightarrow> pvalue \<Rightarrow> pvalue outcome" where
  "OpenAiCall open_ai_client ser parse dump func arg =
     (if has_intrinsic func \<and> uri (intrinsic func) = kModelInference \<and>
         str (static_parameter (intrinsic func)) = kTestModelUri
      then Ok (str_reply (''Testing model with prompt: '' @ str arg))
      else
        try_value (open_ai_client (ser func) (str arg)) (\<lambda>response_str.
        if response_str = [] then InternalError [Txt ''Internal error in calling OpenAI client'']
        else
          let failed = InvalidArgumentError [Txt ''Failed to parse OpenAI response: '', Txt response_str] in
          (case parse response_str of
             None \<Rightarrow> failed
           | Some response \<Rightarrow>
               if \<not> is_object response then failed
               else
                 try_value (json_at ''choices'' response) (\<lambda>c.
                 try_value (json_index 0 c) (\<lambda>c0.
                 try_value (json_at ''message'' c0) (\<lambda>m.
                 try_value (json_at ''content'' m) (\<lambda>content.
                 try_value (AsString dump content) (\<lambda>message_reply.
                   Ok (str_reply message_reply)))))))))"

definition MediapipeLlmInferenceCall ::
  "jni_client \<Rightarrow> (pvalue \<Rightarrow> string) \<Rightarrow> pvalue \<Rightarrow> pvalue \<Rightarrow> pvalue outcome" where
  "MediapipeLlmInferenceCall llm_inference_client ser func arg =
     (if has_intrinsic func \<and> uri (intrinsic func) = kModelInference \<and>
         str (static_parameter (intrinsic func)) = kTestModelUri
      then Ok (str_reply (''Testing on device model with prompt: '' @ str arg))
      else
        try_value (llm_inference_client (ser func) (str arg)) (\<lambda>response.
        if response = [] then InternalError [Txt ''Internal error in calling Mediapipe client'']
        else Ok (str_reply response)))"

definition WolframAlphaHandler_call ::
  "jni_client \<Rightarrow> (pvalue \<Rightarrow> string) \<Rightarrow> pvalue \<Rightarrow> pvalue \<Rightarrow> pvalue outcome" where
  "WolframAlphaHandler_call wolfram_alpha_client ser func arg =
     try_value (wolfram_alpha_client (ser func) (str arg)) (\<lambda>response_str.
      if response_str = [] then InternalError [Txt ''Internal error in calling Wolfram Alpha client.'']
      else Ok (str_reply response_str))"

definition WolframAlphaHandler_CheckWellFormed :: "intrinsic_pb \<Rightarrow> unit outcome" where
  "WolframAlphaHandler_CheckWellFormed i =
     (if \<not> has_str (static_parameter i)
      then InvalidArgumentError [Txt ''Parameters missing required app id.''] else Ok ())"

definition WolframAlphaHandler_ExecuteCall ::
  "jni_client \<Rightarrow> (pvalue \<Rightarrow> string) \<Rightarrow> intrinsic_pb \<Rightarrow> pvalue \<Rightarrow> pvalue \<Rightarrow> pvalue outcome" where
  "WolframAlphaHandler_ExecuteCall wolfram_alpha_client ser i arg result =
     try_value (WolframAlphaHandler_call wolfram_alpha_client ser (plain (KIntrinsic i)) arg)
       (\<lambda>response. Ok (set_case (KStr (str response)) result))"

text \<open>The handler as the custom intrinsic that the executor stacks register.\<close>

definition WolframAlphaHandler :: "jni_client \<Rightarrow> (pvalue \<Rightarrow> string) \<Rightarrow> 'w handler" where
  "WolframAlphaHandler wolfram_alpha_client ser =
     CustomInline kWolframAlpha WolframAlphaHandler_CheckWellFormed
       (\<lambda>i arg result. lift (WolframAlphaHandler_ExecuteCall wolfram_alpha_client ser i arg result))"

section \<open>What reaches the Gemini backend\<close>

lemma map_of_json_set: "map_of (json_set k v kvs) = (map_of kvs)(k \<mapsto> v)"
  by (induction k v kvs rule: json_set.induct) (auto simp: fun_eq_iff)

lemma change_key_object:
  "map_of kvs k = Some v \<Longrightarrow> f v = Ok v' \<Longrightarrow> change_key k f (JObject kvs) = Ok (JObject (json_set k v' kvs))"
  by (simp add: change_key_def)

lemma change_back_snoc [simp]:
  "change_back f (JArray (xs @ [x])) = try_value (f x) (\<lambda>y. Ok (JArray (xs @ [y])))"
  by simp

text \<open>
  Updating a request template sets the text of the last part of its last content to
  the request and leaves every other key and element of the template as it is.
\<close>

lemma updateJsonRequest_places_text:
  assumes "parse t = Some (JObject kvs)"
    and "map_of kvs ''contents'' = Some (JArray (cs @ [JObject c]))"
    and "map_of c ''parts'' = Some (JArray (ps @ [JObject p]))"
  shows "\<exists>kvs' c' p'. updateJsonRequest parse dump t request = dump (JObject kvs') \<and>
    map_of kvs' = (map_of kvs)(''contents'' \<mapsto> JArray (cs @ [JObject c'])) \<and>
    map_of c' = (map_of c)(''parts'' \<mapsto> JArray (ps @ [JObject p'])) \<and>
    map_of p' = (map_of p)(''text'' \<mapsto> JString request)"
proof -
  let ?p' = "json_set ''text'' (JString request) p"
  let ?c' = "json_set ''parts'' (JArray (ps @ [JObject ?p'])) c"
  let ?kvs' = "json_set ''contents'' (JArray (cs @ [JObject ?c'])) kvs"
  have place: "place_text request (JObject c) = Ok (JObject ?c')"
    unfolding place_text_def by (rule change_key_object [OF assms(3)]) simp
  have parts: "has_parts (JObject c)" using assms(3) by (simp add: has_parts_def)
  have "change_key ''contents'' (change_back (\<lambda>lastContent. if \<not> has_parts lastContent then r
      else place_text request lastContent)) (JObject kvs) = Ok (JObject ?kvs')" for r
    by (rule change_key_object [OF assms(2)]) (simp add: parts place)
  then have "updateJsonRequest parse dump t request = dump (JObject ?kvs')"
    using assms(1,2) by (simp add: updateJsonRequest_def Let_def)
  then show ?thesis by (intro exI [of _ ?kvs'] exI [of _ ?c'] exI [of _ ?p']) (simp add: map_of_json_set)
qed

lemma updateJsonRequest_places_text_witness:
  "\<exists>kvs' c' p'. updateJsonRequest (\<lambda>_. Some (JObject [(''contents'', JArray [JObject [(''parts'', JArray [JObject []])]])]))
      (\<lambda>j. Ok (if is_object j then ''ok'' else [])) ''t'' ''hello'' = Ok ''ok'' \<and>
    map_of kvs' = [''contents'' \<mapsto> JArray [JObject c']] \<and> map_of c' = [''parts'' \<mapsto> JArray [JObject p']] \<and>
    map_of p' = [''text'' \<mapsto> JString ''hello'']"
proof -
  have c: "map_of [(''contents'', JArray [JObject [(''parts'', JArray [JObject []])]])] ''contents'' =
      Some (JArray ([] @ [JObject [(''parts'', JArray [JObject []])]]))" by simp
  have p: "map_of [(''parts'', JArray [JObject []])] ''parts'' = Some (JArray ([] @ [JObject []]))" by simp
  have d: "\<exists>s. s = JObject kvs" for kvs by blast
  from updateJsonRequest_places_text [OF _ c p, of "\<lambda>_. Some (JObject [(''contents'', JArray [JObject [(''parts'', JArray [JObject []])]])])"
      "''t''" "\<lambda>j. Ok (if is_object j then ''ok'' else [])" "''hello''"]
  show ?thesis by (auto simp: fun_eq_iff)
qed



end
