(* ===== verification/Networking.thy ===== *)
theory Networking
  imports Libraries
begin

text \<open>
  The HTTP clients of \<^verbatim>\<open>genc/cc/interop/networking\<close>: the interface of
  \<^verbatim>\<open>http_client_interface.h\<close>, the client over one libcurl easy handle
  (\<^verbatim>\<open>curl_based_http_client.cc\<close>) and the client over a Java object
  (\<^verbatim>\<open>cronet_based_android_http_client.cc\<close>). An easy handle is shared by all the requests of
  a client, so the options set for one request are still set for the next.
\<close>

section \<open>The interface\<close>

record 's http_client =
  GetFromUrl :: "string \<Rightarrow> ('s, string) prog"
  PostJsonToUrl :: "string \<Rightarrow> string \<Rightarrow> ('s, string) prog"
  GetFromUrlAndSocket :: "string \<Rightarrow> string \<Rightarrow> ('s, string) prog"
  PostJsonToUrlAndSocket :: "string \<Rightarrow> string \<Rightarrow> string \<Rightarrow> ('s, string) prog"

section \<open>libcurl\<close>

text \<open>
  A call of \<open>curl_easy_setopt\<close> is recorded on the handle, the latest first. libcurl keeps
  the pointer it is given for a header list, so that option holds the address of the
  list. Which option wins and what a transfer does is a matter of the library,
  \<open>easy_perform\<close>: it sees the options and the header lists that are allocated, and
  changes the outside world \<open>'n\<close>.
\<close>

datatype easy_option =
    OPT_VERBOSE int
  | OPT_HEADER int
  | OPT_HTTPGET int
  | OPT_HTTPHEADER nat
  | OPT_POSTFIELDS string
  | OPT_UNIX_SOCKET_PATH string
  | OPT_URL string

record 'n curl_lib =
  easy_init :: bool
  easy_perform :: "string list option list \<Rightarrow> easy_option list \<Rightarrow> 'n \<Rightarrow> curl_result \<times> 'n"

text \<open>
  The handles by number, with the options set on each; the header lists by address,
  \<open>None\<close> once freed; the console.
\<close>

record 'n network =
  easy_handles :: "easy_option list list"
  header_lists :: "string list option list"
  outside :: 'n
  printed :: "message list"

definition options :: "nat \<Rightarrow> 'n network \<Rightarrow> easy_option list" where
  "options h w = easy_handles w ! h"

definition curl_easy_setopt :: "nat \<Rightarrow> easy_option \<Rightarrow> 'n network \<Rightarrow> 'n network" where
  "curl_easy_setopt h opt w =
     w\<lparr>easy_handles := (easy_handles w)[h := opt # (easy_handles w ! h)]\<rparr>"

definition curl_slist_append :: "string \<Rightarrow> 'n network \<Rightarrow> nat \<times> 'n network" where
  "curl_slist_append line w =
     (length (header_lists w), w\<lparr>header_lists := header_lists w @ [Some [line]]\<rparr>)"

definition curl_slist_free_all :: "nat \<Rightarrow> 'n network \<Rightarrow> 'n network" where
  "curl_slist_free_all p w = w\<lparr>header_lists := (header_lists w)[p := None]\<rparr>"

section \<open>The client over libcurl\<close>

definition CurlClient_Create :: "'n curl_lib \<Rightarrow> bool \<Rightarrow> ('n network, nat) prog" where
  "CurlClient_Create L debug w =
     (if \<not> easy_init L then (InternalError [Txt ''Unable to init CURL.''], w)
      else let h = length (easy_handles w); w' = w\<lparr>easy_handles := easy_handles w @ [[]]\<rparr>
           in (Ok h, if debug then curl_easy_setopt h (OPT_VERBOSE 1) w' else w'))"

definition transfer_result :: "string \<Rightarrow> curl_result \<Rightarrow> string outcome" where
  \<open>transfer_result url r = (case r of
      CURLE_OK chunks \<Rightarrow> Ok (write_all chunks)
    | CurlError e \<Rightarrow>
        InternalError [Txt ''Received an error from "'', Txt url, Txt ''": "'', Txt e, Txt ''".''])\<close>

definition CallInternal :: "'n curl_lib \<Rightarrow> nat \<Rightarrow> string \<Rightarrow> ('n network, string) prog" where
  "CallInternal L h url w =
     (let w1 = curl_easy_setopt h (OPT_URL url) w
      in case easy_perform L (header_lists w1) (options h w1) (outside w1) of
        (r, n) \<Rightarrow> (transfer_result url r, w1\<lparr>outside := n\<rparr>))"

definition curl_get :: "'n curl_lib \<Rightarrow> nat \<Rightarrow> string \<Rightarrow> ('n network, string) prog" where
  "curl_get L h url w =
     CallInternal L h url (curl_easy_setopt h (OPT_HTTPGET 1) (curl_easy_setopt h (OPT_HEADER 0) w))"

definition curl_post :: "'n curl_lib \<Rightarrow> nat \<Rightarrow> string \<Rightarrow> string \<Rightarrow> ('n network, string) prog" where
  "curl_post L h url json_request w =
     (case curl_slist_append ''Content-Type: application/json'' w of (headers, w1) \<Rightarrow>
        let w2 = curl_easy_setopt h (OPT_POSTFIELDS json_request)
                   (curl_easy_setopt h (OPT_HTTPHEADER headers) w1)
        in case CallInternal L h url w2 of (result, w3) \<Rightarrow> (result, curl_slist_free_all headers w3))"

definition curl_get_socket ::
  "'n curl_lib \<Rightarrow> nat \<Rightarrow> string \<Rightarrow> string \<Rightarrow> ('n network, string) prog" where
  "curl_get_socket L h url socket_path w =
     curl_get L h url (curl_easy_setopt h (OPT_UNIX_SOCKET_PATH socket_path) w)"

definition curl_post_socket ::
  "'n curl_lib \<Rightarrow> nat \<Rightarrow> string \<Rightarrow> string \<Rightarrow> string \<Rightarrow> ('n network, string) prog" where
  "curl_post_socket L h url socket_path json_request w =
     curl_post L h url json_request (curl_easy_setopt h (OPT_UNIX_SOCKET_PATH socket_path) w)"

definition CurlBasedHttpClient :: "'n curl_lib \<Rightarrow> nat \<Rightarrow> 'n network http_client" where
  "CurlBasedHttpClient L h =
     \<lparr>GetFromUrl = curl_get L h, PostJsonToUrl = curl_post L h,
      GetFromUrlAndSocket = curl_get_socket L h,
      PostJsonToUrlAndSocket = curl_post_socket L h\<rparr>"

definition CreateCurlBasedHttpClient ::
  "'n curl_lib \<Rightarrow> bool \<Rightarrow> ('n network, 'n network http_client) prog" where
  "CreateCurlBasedHttpClient L debug =
     GENC_TRY (CurlClient_Create L debug) (\<lambda>h. return (CurlBasedHttpClient L h))"

section \<open>The client over a Java object\<close>

text \<open>
  The four steps of the Java native interface that can fail, and the reply of the
  method \<open>getFromUrl\<close> of the object.
\<close>

record 's java_http_object =
  jvm_attached :: bool
  jni_env :: bool
  object_class :: bool
  get_method :: bool
  java_getFromUrl :: "string \<Rightarrow> 's \<Rightarrow> string \<times> 's"

definition cronet_get :: "'s java_http_object \<Rightarrow> string \<Rightarrow> ('s, string) prog" where
  \<open>cronet_get J url s =
     (if \<not> jvm_attached J then (InternalError [Txt ''JVM is null''], s)
      else if \<not> jni_env J then (InternalError [Txt ''Couldn't get JNI env''], s)
      else if \<not> object_class J then
        (InternalError [Txt ''Couldn't retrieve simple synchronous HTTP client class from JNI.''], s)
      else if \<not> get_method J then
        (InternalError [Txt ''Couldn't retrieve method "'', Txt ''getFromUrl'',
           Txt ''" from simple synchronous HTTP client's class.''], s)
      else case java_getFromUrl J url s of (response, s') \<Rightarrow> (Ok response, s'))\<close>

definition CronetBasedAndroidHttpClient :: "'s java_http_object \<Rightarrow> 's http_client" where
  "CronetBasedAndroidHttpClient J =
     \<lparr>GetFromUrl = cronet_get J,
      PostJsonToUrl = (\<lambda>url json_request. lift (UnimplementedError
        [Txt ''PostJsonToUrl is not implemented.''])),
      GetFromUrlAndSocket = (\<lambda>url socket_path. lift (UnimplementedError
        [Txt ''GetFromUrlAndSocket is not implemented.''])),
      PostJsonToUrlAndSocket = (\<lambda>url socket_path json_request. lift (UnimplementedError
        [Txt ''PostJsonToUrlAndSocket is not implemented.'']))\<rparr>"

definition CreateCronetBasedAndroidHttpClient :: "'s java_http_object \<Rightarrow> 's http_client outcome" where
  "CreateCronetBasedAndroidHttpClient J = Ok (CronetBasedAndroidHttpClient J)"

section \<open>A client's life: the options in force\<close>

datatype http_request =
    GetRequest string
  | PostRequest string string
  | GetSocketRequest string string
  | PostSocketRequest string string string

fun send :: "'s http_client \<Rightarrow> http_request \<Rightarrow> ('s, string) prog" where
  "send c (GetRequest url) = GetFromUrl c url"
| "send c (PostRequest url json) = PostJsonToUrl c url json"
| "send c (GetSocketRequest url path) = GetFromUrlAndSocket c url path"
| "send c (PostSocketRequest url path json) = PostJsonToUrlAndSocket c url path json"

definition send_all :: "'s http_client \<Rightarrow> http_request list \<Rightarrow> 's \<Rightarrow> 's" where
  "send_all c reqs s = fold (\<lambda>r s. snd (send c r s)) reqs s"

fun request_socket :: "http_request \<Rightarrow> string option" where
  "request_socket (GetSocketRequest url path) = Some path"
| "request_socket (PostSocketRequest url path json) = Some path"
| "request_socket r = None"

fun is_post :: "http_request \<Rightarrow> bool" where
  "is_post (PostRequest url json) = True"
| "is_post (PostSocketRequest url path json) = True"
| "is_post r = False"

text \<open>The last call of \<open>curl_easy_setopt\<close> for an option is the one in force.\<close>

fun socket_in_force :: "easy_option list \<Rightarrow> string option" where
  "socket_in_force [] = None"
| "socket_in_force (OPT_UNIX_SOCKET_PATH path # os) = Some path"
| "socket_in_force (opt # os) = socket_in_force os"

fun headers_in_force :: "easy_option list \<Rightarrow> nat option" where
  "headers_in_force [] = None"
| "headers_in_force (OPT_HTTPHEADER p # os) = Some p"
| "headers_in_force (opt # os) = headers_in_force os"

text \<open>The socket a sequence of requests leaves behind, given the one before it.\<close>

definition last_socket :: "string option \<Rightarrow> http_request list \<Rightarrow> string option" where
  "last_socket before reqs =
     fold (\<lambda>r so. case request_socket r of Some p \<Rightarrow> Some p | None \<Rightarrow> so) reqs before"

definition freed_headers :: "nat \<Rightarrow> 'n network \<Rightarrow> bool" where
  "freed_headers h w =
     (case headers_in_force (options h w) of None \<Rightarrow> False
      | Some p \<Rightarrow> p < length (header_lists w) \<and> header_lists w ! p = None)"

section \<open>Options stay on the handle\<close>

lemmas curl_requests =
  curl_get_socket_def curl_post_socket_def curl_get_def curl_post_def CallInternal_def
  curl_slist_append_def curl_slist_free_all_def Let_def

lemma CurlBasedHttpClient_sel [simp]:
  "GetFromUrl (CurlBasedHttpClient L h) = curl_get L h"
  "PostJsonToUrl (CurlBasedHttpClient L h) = curl_post L h"
  "GetFromUrlAndSocket (CurlBasedHttpClient L h) = curl_get_socket L h"
  "PostJsonToUrlAndSocket (CurlBasedHttpClient L h) = curl_post_socket L h"
  by (simp_all add: CurlBasedHttpClient_def)

lemma setopt_simps [simp]:
  "length (easy_handles (curl_easy_setopt h opt w)) = length (easy_handles w)"
  "header_lists (curl_easy_setopt h opt w) = header_lists w"
  "outside (curl_easy_setopt h opt w) = outside w"
  "h < length (easy_handles w) \<Longrightarrow> options h (curl_easy_setopt h opt w) = opt # options h w"
  by (simp_all add: curl_easy_setopt_def options_def)

lemma options_update [simp]:
  "options h (w\<lparr>outside := n\<rparr>) = options h w"
  "options h (w\<lparr>header_lists := l\<rparr>) = options h w"
  by (simp_all add: options_def)

text \<open>What one request does to the options, whatever the transfer gives.\<close>

lemma curl_get_state:
  assumes "h < length (easy_handles w)"
  shows "options h (snd (curl_get L h url w)) =
           OPT_URL url # OPT_HTTPGET 1 # OPT_HEADER 0 # options h w"
    and "header_lists (snd (curl_get L h url w)) = header_lists w"
    and "length (easy_handles (snd (curl_get L h url w))) = length (easy_handles w)"
  using assms by (simp_all add: curl_requests split: prod.split)

lemma curl_get_result:
  assumes "h < length (easy_handles w)"
  shows "fst (curl_get L h url w) = transfer_result url (fst (easy_perform L (header_lists w)
    (OPT_URL url # OPT_HTTPGET 1 # OPT_HEADER 0 # options h w) (outside w)))"
  using assms by (simp add: curl_requests split: prod.split)

lemma curl_post_state:
  assumes "h < length (easy_handles w)"
  shows "options h (snd (curl_post L h url json w)) =
           OPT_URL url # OPT_POSTFIELDS json # OPT_HTTPHEADER (length (header_lists w)) # options h w"
    and "header_lists (snd (curl_post L h url json w)) = header_lists w @ [None]"
    and "length (easy_handles (snd (curl_post L h url json w))) = length (easy_handles w)"
proof -
  have [simp]: "options h (w\<lparr>header_lists := l\<rparr>) = options h w" for l by simp
  show "options h (snd (curl_post L h url json w)) =
           OPT_URL url # OPT_POSTFIELDS json # OPT_HTTPHEADER (length (header_lists w)) # options h w"
    and "header_lists (snd (curl_post L h url json w)) = header_lists w @ [None]"
    and "length (easy_handles (snd (curl_post L h url json w))) = length (easy_handles w)"
    using assms by (simp_all add: curl_requests split: prod.split)
qed

lemma send_state:
  fixes L :: "'n curl_lib" and h :: nat and r :: http_request and w :: "'n network"
  assumes h: "h < length (easy_handles w)"
  defines "w' \<equiv> snd (send (CurlBasedHttpClient L h) r w)"
  shows "length (easy_handles w') = length (easy_handles w)"
    and "socket_in_force (options h w') =
           (case request_socket r of Some p \<Rightarrow> Some p | None \<Rightarrow> socket_in_force (options h w))"
    and "is_post r \<or> freed_headers h w \<Longrightarrow> freed_headers h w'"
proof -
  show "length (easy_handles w') = length (easy_handles w)"
    using h by (cases r)
      (simp_all add: w'_def curl_get_state curl_post_state curl_get_socket_def curl_post_socket_def)
  show "socket_in_force (options h w') =
          (case request_socket r of Some p \<Rightarrow> Some p | None \<Rightarrow> socket_in_force (options h w))"
    using h by (cases r)
      (simp_all add: w'_def curl_get_state curl_post_state curl_get_socket_def curl_post_socket_def)
  show "freed_headers h w'" if "is_post r \<or> freed_headers h w"
    using h that by (cases r)
      (auto simp: w'_def freed_headers_def curl_get_state curl_post_state curl_get_socket_def
        curl_post_socket_def nth_append split: option.splits)
qed

lemma send_all_state:
  assumes "h < length (easy_handles w)"
  shows "h < length (easy_handles (send_all (CurlBasedHttpClient L h) reqs w))
    \<and> socket_in_force (options h (send_all (CurlBasedHttpClient L h) reqs w)) =
        last_socket (socket_in_force (options h w)) reqs
    \<and> ((\<exists>r \<in> set reqs. is_post r) \<or> freed_headers h w \<longrightarrow>
        freed_headers h (send_all (CurlBasedHttpClient L h) reqs w))"
  using assms
proof (induction reqs arbitrary: w)
  case Nil
  then show ?case by (simp add: send_all_def last_socket_def)
next
  case (Cons r reqs)
  note step = send_state [where L = L and r = r, OF Cons.prems]
  have "h < length (easy_handles (snd (send (CurlBasedHttpClient L h) r w)))"
    using step(1) Cons.prems by simp
  from Cons.IH [OF this] step show ?case
    by (auto simp: send_all_def last_socket_def)
qed

text \<open>
  C23: the options of one request stay in force for the next ones. After any requests, a
  plain GET is performed with the Unix socket path that the last of them to name one
  named, although its caller asked for none, and once a POST was sent, with the header
  list that the POST freed.
\<close>

theorem options_stay_in_force:
  fixes L :: "'n curl_lib" and h :: nat and reqs :: "http_request list" and w :: "'n network"
  assumes "h < length (easy_handles w)"
  defines "w' \<equiv> send_all (CurlBasedHttpClient L h) reqs w"
  shows "fst (GetFromUrl (CurlBasedHttpClient L h) url w') =
           transfer_result url (fst (easy_perform L (header_lists w')
             (OPT_URL url # OPT_HTTPGET 1 # OPT_HEADER 0 # options h w') (outside w')))
    \<and> socket_in_force (options h w') = last_socket (socket_in_force (options h w)) reqs
    \<and> ((\<exists>r \<in> set reqs. is_post r) \<longrightarrow> freed_headers h w')"
  using send_all_state [OF assms(1), of L reqs]
  by (simp add: w'_def curl_get_result)

text \<open>A library that answers with the socket in force, or says that it read freed headers.\<close>

definition echo_curl :: "unit curl_lib" where
  "echo_curl = \<lparr>easy_init = True, easy_perform = (\<lambda>lists os n.
     (case headers_in_force os of
        Some p \<Rightarrow> if lists ! p = None then CurlError ''read freed headers'' else CURLE_OK []
      | None \<Rightarrow> (case socket_in_force os of Some p \<Rightarrow> CURLE_OK [''via '', p] | None \<Rightarrow> CURLE_OK [''direct'']), n))\<rparr>"

definition one_handle :: "unit network" where
  "one_handle = \<lparr>easy_handles = [[]], header_lists = [], outside = (), printed = []\<rparr>"

theorem options_stay_in_force_witness:
  "last_socket None [GetSocketRequest ''u'' ''sock''] = Some ''sock''
     \<and> fst (GetFromUrl (CurlBasedHttpClient echo_curl 0) ''v''
         (send_all (CurlBasedHttpClient echo_curl 0) [GetSocketRequest ''u'' ''sock''] one_handle))
       = Ok ''via sock''"
proof -
  have h: "0 < length (easy_handles one_handle)" by (simp add: one_handle_def)
  show ?thesis
    using options_stay_in_force [where L = echo_curl and url = "''v''"
        and reqs = "[GetSocketRequest ''u'' ''sock'']", OF h]
    by code_simp
qed

end
