(* ===== verification/Attestation.thy ===== *)
theory Attestation
  imports Networking Backends
begin

text \<open>
  \<^verbatim>\<open>genc/cc/interop/confidential_computing/attestation.cc\<close>: the provider obtains from the
  container launcher a signed token that carries the server's public key as its nonce;
  the verifier checks the token and the workload it names and returns that key.
  JSON web tokens (Tink), base 64 and JSON text are parameters.
\<close>

section \<open>Library types\<close>

text \<open>The settings collected by \<open>JwtValidatorBuilder\<close>.\<close>

record jwt_validator =
  expected_audience :: "string option"
  expected_issuer :: "string option"
  ignore_type_header :: bool

text \<open>Keysets \<open>'k\<close>, verifiers \<open>'p\<close> and verified tokens \<open>'j\<close> of the library.\<close>

record ('k, 'p, 'j) jwt_lib =
  JwkSetToPublicKeysetHandle :: "string \<Rightarrow> 'k outcome"
  validator_Build :: "jwt_validator \<Rightarrow> jwt_validator outcome"
  JwtSignatureRegister :: "unit outcome"
  GetPrimitive :: "'k \<Rightarrow> 'p outcome"
  VerifyAndDecode :: "'p \<Rightarrow> string \<Rightarrow> jwt_validator \<Rightarrow> 'j outcome"
  GetJsonPayload :: "'j \<Rightarrow> string outcome"
  Base64Escape :: "string \<Rightarrow> string"
  Base64Unescape :: "string \<Rightarrow> string option"
  parse_json :: "string \<Rightarrow> json option"

text \<open>The fields of \<open>oak.attestation.v1.Evidence\<close> and of its results that the code sets or reads.\<close>

datatype TeePlatform = TEE_PLATFORM_UNSPECIFIED

record evidence =
  platform :: TeePlatform
  remote_attestation_report :: string
  encryption_public_key_certificate :: string

datatype AttestationStatus = STATUS_UNSPECIFIED | STATUS_SUCCESS | STATUS_GENERIC_FAILURE

record attestation_results =
  results_status :: AttestationStatus
  encryption_public_key :: string

section \<open>Constants and JSON attributes\<close>

definition kLocalhostTokenUrl :: string where
  "kLocalhostTokenUrl = ''http://localhost/v1/token''"

definition kLauncherSocketPath :: string where
  "kLauncherSocketPath = ''/run/container_launcher/teeserver.sock''"

definition kWellKnownFileURI :: string where
  "kWellKnownFileURI =
     ''https://confidentialcomputing.googleapis.com/.well-known/openid-configuration''"

definition kJwksUriFieldName :: string where "kJwksUriFieldName = ''jwks_uri''"

definition kAudience :: string where "kAudience = ''GenC''"

definition kIssuer :: string where
  "kIssuer = ''https://confidentialcomputing.googleapis.com''"

definition kOsAttributeName :: string where "kOsAttributeName = ''swname''"

definition kOsAttributeValue :: string where "kOsAttributeValue = ''CONFIDENTIAL_SPACE''"

definition kImageReferencePath :: "string list" where
  "kImageReferencePath = [''submods'', ''container'', ''image_reference'']"

definition kImageDigestPath :: "string list" where
  "kImageDigestPath = [''submods'', ''container'', ''image_digest'']"

definition kJwtNonceAttributeName :: string where "kJwtNonceAttributeName = ''eat_nonce''"

text \<open>\<open>absl::Substitute\<close> puts the two arguments for \<open>$0\<close> and \<open>$1\<close> of the template.\<close>

definition attestation_json_request :: "string \<Rightarrow> string \<Rightarrow> string" where
  \<open>attestation_json_request audience nonce =
     ''\<newline>{\<newline>  "audience": "'' @ audience @ ''",\<newline>  "token_type": "OIDC",\<newline>  "nonces": [\<newline>    "'' @ nonce
     @ ''"\<newline>  ]\<newline>}''\<close>

fun attribute_at :: "json \<Rightarrow> string list \<Rightarrow> string outcome" where
  \<open>attribute_at j [] = json_get_string j\<close>
| \<open>attribute_at j (p # path) = (case json_find j p of
      None \<Rightarrow> InternalError [Txt ''Missing attribute "'', Txt p, Txt ''".'']
    | Some j' \<Rightarrow> attribute_at j' path)\<close>

definition GetStringAttributeFromJson :: "json \<Rightarrow> string list \<Rightarrow> string outcome" where
  "GetStringAttributeFromJson j path =
     (if path = [] then InvalidArgumentError [Txt ''Empty path.''] else attribute_at j path)"

section \<open>Tokens\<close>

type_synonym 'n client_ptr = "'n network http_client option"

text \<open>A null client is replaced by a client of its own for the call.\<close>

definition client_or_curl :: "'n curl_lib \<Rightarrow> bool \<Rightarrow> 'n client_ptr \<Rightarrow> ('n network, 'n network http_client) prog" where
  "client_or_curl L debug http_client = (case http_client of
      Some c \<Rightarrow> return c
    | None \<Rightarrow> CreateCurlBasedHttpClient L debug)"

definition GetAttestationToken_any :: "'n curl_lib \<Rightarrow> 'n client_ptr \<Rightarrow> ('n network, string) prog" where
  "GetAttestationToken_any L http_client =
     GENC_TRY (client_or_curl L False http_client) (\<lambda>c.
       GetFromUrlAndSocket c kLocalhostTokenUrl kLauncherSocketPath)"

definition GetAttestationToken ::
  "'n curl_lib \<Rightarrow> string \<Rightarrow> string \<Rightarrow> 'n client_ptr \<Rightarrow> ('n network, string) prog" where
  "GetAttestationToken L audience nonce http_client =
     GENC_TRY (client_or_curl L False http_client) (\<lambda>c.
       PostJsonToUrlAndSocket c kLocalhostTokenUrl kLauncherSocketPath
         (attestation_json_request audience nonce))"

text \<open>An error of the library becomes an internal error with its text.\<close>

fun or_internal :: "(status \<Rightarrow> message) \<Rightarrow> 'a outcome \<Rightarrow> 'a outcome" where
  "or_internal m (Err e) = InternalError (m e)"
| "or_internal m r = r"

definition token_validator :: "string \<Rightarrow> string \<Rightarrow> jwt_validator" where
  "token_validator audience issuer =
     \<lparr>expected_audience = (if audience \<noteq> [] then Some audience else None),
      expected_issuer = (if issuer \<noteq> [] then Some issuer else None),
      ignore_type_header = True\<rparr>"

text \<open>The part of \<open>DecodeAttestationToken\<close> after the two downloads.\<close>

definition verify_with_keyset ::
  "('k, 'p, 'j) jwt_lib \<Rightarrow> string \<Rightarrow> string \<Rightarrow> string \<Rightarrow> string \<Rightarrow> 'j outcome" where
  "verify_with_keyset J token audience issuer jwks_payload =
     try_value (or_internal (\<lambda>e. [Txt ''JwkSetToPublicKeysetHandle failed with errpr:\<newline>'',
         StatusText (code e) (msg e), Txt ''\<newline>on payload:\<newline>'', Txt jwks_payload, Txt ''\<newline>''])
       (JwkSetToPublicKeysetHandle J jwks_payload)) (\<lambda>keyset_handle.
     try_value (validator_Build J (token_validator audience issuer)) (\<lambda>validator.
     try_value (JwtSignatureRegister J) (\<lambda>_.
     try_value (GetPrimitive J keyset_handle) (\<lambda>jwt_verifier.
       or_internal (\<lambda>e. [Txt ''VerifyAndDecode failed with error:\<newline>'',
           StatusText (code e) (msg e), Txt ''\<newline>on token:\<newline>'', Txt token, Txt ''\<newline>''])
         (VerifyAndDecode J jwt_verifier token validator)))))"

text \<open>
  The subscript of a JSON object that has no such key gives null, and converting
  anything but a string throws.
\<close>

definition jwks_uri_of :: "('k, 'p, 'j) jwt_lib \<Rightarrow> string \<Rightarrow> string outcome" where
  "jwks_uri_of J well_known_payload = (case parse_json J well_known_payload of
      None \<Rightarrow> InternalError [Txt ''Couldn't parse the well-known payload: '', Txt well_known_payload]
    | Some j \<Rightarrow> try_value (json_at kJwksUriFieldName j) json_get_string)"

definition DecodeAttestationToken ::
  "'n curl_lib \<Rightarrow> ('k, 'p, 'j) jwt_lib \<Rightarrow> string \<Rightarrow> string \<Rightarrow> string \<Rightarrow> 'n client_ptr
     \<Rightarrow> ('n network, 'j) prog" where
  "DecodeAttestationToken L J token audience issuer http_client =
     GENC_TRY (client_or_curl L False http_client) (\<lambda>c.
     GENC_TRY (GetFromUrl c kWellKnownFileURI) (\<lambda>well_known_payload.
     GENC_TRY (lift (jwks_uri_of J well_known_payload)) (\<lambda>jwks_uri.
     GENC_TRY (GetFromUrl c jwks_uri) (\<lambda>jwks_payload.
       lift (verify_with_keyset J token audience issuer jwks_payload)))))"

section \<open>The provider\<close>

definition println :: "message \<Rightarrow> ('n network, unit) prog" where
  "println m w = (Ok (), w\<lparr>printed := printed w @ [m]\<rparr>)"

text \<open>The debug output that decodes the token the provider has just received.\<close>

definition print_token ::
  "'n curl_lib \<Rightarrow> ('k, 'p, 'j) jwt_lib \<Rightarrow> string \<Rightarrow> 'n client_ptr \<Rightarrow> ('n network, unit) prog" where
  "print_token L J token http_client w =
     (case DecodeAttestationToken L J token kAudience kIssuer http_client w of
        (Ok jwt, w') \<Rightarrow> println [Txt ''Attestation token payload:\<newline>'',
           (case GetJsonPayload J jwt of Ok p \<Rightarrow> Txt p | Err e \<Rightarrow> StatusText (code e) (msg e)
              | _ \<Rightarrow> Txt []), Txt ''\<newline>''] w'
      | (Err e, w') \<Rightarrow> println [Txt ''Attestation token seems invalid:\<newline>'',
           StatusText (code e) (msg e), Txt ''\<newline>''] w'
      | (Crash c, w') \<Rightarrow> (Crash c, w')
      | (Diverge, w') \<Rightarrow> (Diverge, w'))"

definition token_evidence :: "string \<Rightarrow> evidence" where
  "token_evidence token =
     \<lparr>platform = TEE_PLATFORM_UNSPECIFIED, remote_attestation_report = token,
      encryption_public_key_certificate = token\<rparr>"

definition GetEndorsedEvidence ::
  "'n curl_lib \<Rightarrow> ('k, 'p, 'j) jwt_lib \<Rightarrow> (evidence \<Rightarrow> string) \<Rightarrow> bool \<Rightarrow> 'n client_ptr
     \<Rightarrow> string \<Rightarrow> ('n network, evidence) prog" where
  \<open>GetEndorsedEvidence L J evidence_DebugString debug http_client serialized_public_key w =
     (let nonce = Base64Escape J serialized_public_key
      in case GetAttestationToken L kAudience nonce http_client w of
        (Ok token, w') \<Rightarrow>
          GENC_TRY (if debug then print_token L J token http_client else return ()) (\<lambda>_.
          GENC_TRY (if debug then println [Txt ''AttestationProvider returning endorsed evidence:\<newline>'',
                Txt (evidence_DebugString (token_evidence token)), Txt ''\<newline>''] else return ()) (\<lambda>_.
            return (token_evidence token))) w'
      | (Err e, w') \<Rightarrow>
          (InternalError [Txt ''AttestationProvider couldn't get attestation token for audience "'',
             Txt kAudience, Txt ''" and nonce "'', Txt nonce, Txt ''": '', StatusText (code e) (msg e)], w')
      | (Crash c, w') \<Rightarrow> (Crash c, w')
      | (Diverge, w') \<Rightarrow> (Diverge, w'))\<close>

section \<open>The verifier\<close>

record WorkloadProvenance =
  container_image_reference :: string
  container_image_digest :: string

definition check_attribute :: "json \<Rightarrow> string list \<Rightarrow> string \<Rightarrow> unit outcome" where
  "check_attribute token_json path expected =
     (if expected = [] then Ok ()
      else try_value (GetStringAttributeFromJson token_json path) (\<lambda>actual.
        if actual \<noteq> expected
        then InternalError [Txt ''Container image digest mismatch: '', Txt actual, Txt '' vs. '', Txt expected]
        else Ok ()))"

text \<open>The checks on the decoded payload, and the key it carries.\<close>

definition verify_payload ::
  "('k, 'p, 'j) jwt_lib \<Rightarrow> WorkloadProvenance \<Rightarrow> json \<Rightarrow> attestation_results outcome" where
  "verify_payload J provenance token_json =
     try_value (GetStringAttributeFromJson token_json [kOsAttributeName]) (\<lambda>os_name.
     if os_name \<noteq> kOsAttributeValue
     then InternalError [Txt ''OS name mismatch: '', Txt os_name, Txt '' vs. '', Txt kOsAttributeValue]
     else
       try_value (check_attribute token_json kImageReferencePath (container_image_reference provenance)) (\<lambda>_.
       try_value (check_attribute token_json kImageDigestPath (container_image_digest provenance)) (\<lambda>_.
       try_value (GetStringAttributeFromJson token_json [kJwtNonceAttributeName]) (\<lambda>eat_nonce.
         case Base64Unescape J eat_nonce of
           None \<Rightarrow> InternalError
             [Txt ''Couldn't convert the nonce to a serialized public key: '', Txt eat_nonce]
         | Some key \<Rightarrow> Ok \<lparr>results_status = STATUS_SUCCESS, encryption_public_key = key\<rparr>))))"

definition Verify ::
  "'n curl_lib \<Rightarrow> ('k, 'p, 'j) jwt_lib \<Rightarrow> WorkloadProvenance \<Rightarrow> bool \<Rightarrow> 'n client_ptr
     \<Rightarrow> evidence \<Rightarrow> ('n network, attestation_results) prog" where
  "Verify L J provenance debug http_client evidence =
     (let token = encryption_public_key_certificate evidence
      in GENC_TRY (DecodeAttestationToken L J token kAudience kIssuer http_client) (\<lambda>verified_token.
         GENC_TRY (lift (GetJsonPayload J verified_token)) (\<lambda>token_json_string.
         GENC_TRY (if debug then println [Txt ''Attestation token payload:\<newline>'', Txt token_json_string,
             Txt ''\<newline>''] else return ()) (\<lambda>_.
         case parse_json J token_json_string of
           None \<Rightarrow> lift (InternalError [Txt ''Couldn't parse the token JSON string: '', Txt token_json_string])
         | Some token_json \<Rightarrow> lift (verify_payload J provenance token_json)))))"

section \<open>The factories\<close>

definition CreateAttestationProvider ::
  "'n curl_lib \<Rightarrow> ('k, 'p, 'j) jwt_lib \<Rightarrow> (evidence \<Rightarrow> string) \<Rightarrow> bool \<Rightarrow> 'n client_ptr
     \<Rightarrow> ('n network, string \<Rightarrow> ('n network, evidence) prog) prog" where
  "CreateAttestationProvider L J evidence_DebugString debug http_client =
     GENC_TRY (client_or_curl L debug http_client) (\<lambda>c.
       return (GetEndorsedEvidence L J evidence_DebugString debug (Some c)))"

definition CreateAttestationVerifier ::
  "'n curl_lib \<Rightarrow> ('k, 'p, 'j) jwt_lib \<Rightarrow> WorkloadProvenance \<Rightarrow> bool \<Rightarrow> 'n client_ptr
     \<Rightarrow> ('n network, evidence \<Rightarrow> ('n network, attestation_results) prog) prog" where
  "CreateAttestationVerifier L J provenance debug http_client =
     GENC_TRY (client_or_curl L debug http_client) (\<lambda>c.
       return (Verify L J provenance debug (Some c)))"

section \<open>What acceptance means\<close>

lemma try_value_Ok_iff: "try_value r k = Ok y \<longleftrightarrow> (\<exists>x. r = Ok x \<and> k x = Ok y)"
  by (cases r) auto

lemma or_internal_Ok_iff [simp]: "or_internal m r = Ok x \<longleftrightarrow> r = Ok x"
  by (cases r) auto

fun json_path :: "json \<Rightarrow> string list \<Rightarrow> json option" where
  "json_path j [] = Some j"
| "json_path j (p # path) = (case json_find j p of None \<Rightarrow> None | Some j' \<Rightarrow> json_path j' path)"

lemma json_get_string_Ok_iff [simp]: "json_get_string j = Ok x \<longleftrightarrow> j = JString x"
  by (cases j) auto

lemma attribute_at_Ok_iff: "attribute_at j path = Ok x \<longleftrightarrow> json_path j path = Some (JString x)"
  by (induction j path rule: attribute_at.induct) (auto split: option.splits)

lemma GetString_Ok_iff:
  "path \<noteq> [] \<Longrightarrow> GetStringAttributeFromJson j path = Ok x \<longleftrightarrow> json_path j path = Some (JString x)"
  by (simp add: GetStringAttributeFromJson_def attribute_at_Ok_iff)

lemma check_attribute_Ok_iff:
  "path \<noteq> [] \<Longrightarrow> check_attribute j path expected = Ok u \<longleftrightarrow>
     expected = [] \<or> json_path j path = Some (JString expected)"
  by (auto simp: check_attribute_def try_value_Ok_iff GetString_Ok_iff split: if_splits)

text \<open>The workload a payload has to name.\<close>

definition payload_ok :: "WorkloadProvenance \<Rightarrow> json \<Rightarrow> bool" where
  "payload_ok provenance j \<longleftrightarrow>
     json_find j kOsAttributeName = Some (JString kOsAttributeValue)
     \<and> (container_image_reference provenance = []
        \<or> json_path j kImageReferencePath = Some (JString (container_image_reference provenance)))
     \<and> (container_image_digest provenance = []
        \<or> json_path j kImageDigestPath = Some (JString (container_image_digest provenance)))"

lemma verify_payload_Ok_iff:
  "verify_payload J provenance j = Ok r \<longleftrightarrow>
     payload_ok provenance j
     \<and> (\<exists>nonce key. json_find j kJwtNonceAttributeName = Some (JString nonce)
          \<and> Base64Unescape J nonce = Some key
          \<and> r = \<lparr>results_status = STATUS_SUCCESS, encryption_public_key = key\<rparr>)"
  by (auto simp: verify_payload_def payload_ok_def try_value_Ok_iff GetString_Ok_iff
      check_attribute_Ok_iff kImageReferencePath_def kImageDigestPath_def
      split: if_splits option.splits)

text \<open>A token that Tink accepted for an audience and an issuer, with its parsed payload.\<close>

definition accepted_token ::
  "('k, 'p, 'j) jwt_lib \<Rightarrow> string \<Rightarrow> string \<Rightarrow> string \<Rightarrow> json \<Rightarrow> bool" where
  "accepted_token J audience issuer token j \<longleftrightarrow>
     (\<exists>jwks keyset validator verifier jwt payload.
        JwkSetToPublicKeysetHandle J jwks = Ok keyset
        \<and> validator_Build J \<lparr>expected_audience = Some audience, expected_issuer = Some issuer,
            ignore_type_header = True\<rparr> = Ok validator
        \<and> GetPrimitive J keyset = Ok verifier
        \<and> VerifyAndDecode J verifier token validator = Ok jwt
        \<and> GetJsonPayload J jwt = Ok payload \<and> parse_json J payload = Some j)"

lemma verify_with_keyset_Ok:
  assumes "verify_with_keyset J token kAudience kIssuer jwks = Ok jwt"
    and "GetJsonPayload J jwt = Ok payload" and "parse_json J payload = Some j"
  shows "accepted_token J kAudience kIssuer token j"
proof -
  have v: "token_validator kAudience kIssuer =
      \<lparr>expected_audience = Some kAudience, expected_issuer = Some kIssuer, ignore_type_header = True\<rparr>"
    by (simp add: token_validator_def kAudience_def kIssuer_def)
  show ?thesis
    using assms unfolding accepted_token_def verify_with_keyset_def v try_value_Ok_iff
      or_internal_Ok_iff by blast
qed

lemma lift_pair [simp]: "lift r w = (r, w)"
  by (simp add: lift_def)

lemma DecodeAttestationToken_Ok:
  assumes "fst (DecodeAttestationToken L J token audience issuer hc w) = Ok jwt"
  shows "\<exists>jwks. verify_with_keyset J token audience issuer jwks = Ok jwt"
  using assms unfolding DecodeAttestationToken_def
  by (auto simp: GENC_TRY_apply split: prod.splits outcome.splits)

lemma Verify_Ok:
  assumes "fst (Verify L J provenance debug hc ev w) = Ok r"
  shows "\<exists>j. accepted_token J kAudience kIssuer (encryption_public_key_certificate ev) j
    \<and> verify_payload J provenance j = Ok r"
proof -
  obtain jwt payload j w1 where
    jwt: "fst (DecodeAttestationToken L J (encryption_public_key_certificate ev) kAudience kIssuer hc w) = Ok jwt"
    and p: "GetJsonPayload J jwt = Ok payload" and j: "parse_json J payload = Some j"
    and v: "verify_payload J provenance j = Ok r"
    using assms unfolding Verify_def Let_def
    by (auto simp: GENC_TRY_apply println_def return_def
        split: prod.splits outcome.splits option.splits if_splits)
  from DecodeAttestationToken_Ok [OF jwt] obtain jwks where
    "verify_with_keyset J (encryption_public_key_certificate ev) kAudience kIssuer jwks = Ok jwt" ..
  from verify_with_keyset_Ok [OF this p j] v show ?thesis by blast
qed

section \<open>A launcher and an issuer\<close>

text \<open>
  The launcher answers a request with a token that is the request itself; the key set of
  the issuer is found through the well-known document, which is not reachable through
  the launcher's socket.
\<close>

fun posted :: "easy_option list \<Rightarrow> string" where
  "posted [] = []"
| "posted (OPT_POSTFIELDS body # os) = body"
| "posted (opt # os) = posted os"

definition launcher_curl :: "unit curl_lib" where
  "launcher_curl = \<lparr>easy_init = True, easy_perform = (\<lambda>lists os n. (case os of
      OPT_URL url # os' \<Rightarrow>
        if url = kLocalhostTokenUrl then CURLE_OK [posted os']
        else if socket_in_force os' \<noteq> None then CurlError ''not found''
        else if url = kWellKnownFileURI then CURLE_OK [''W''] else CURLE_OK [''K'']
    | _ \<Rightarrow> CurlError ''no URL'', n))\<rparr>"

definition issuer_payload :: json where
  "issuer_payload = JObject
     [(''swname'', JString ''CONFIDENTIAL_SPACE''),
      (''submods'', JObject [(''container'', JObject [(''image_reference'', JString ''img'')])]),
      (''eat_nonce'', JString ''k1'')]"

definition issuer :: "(unit, unit, string) jwt_lib" where
  "issuer = \<lparr>JwkSetToPublicKeysetHandle = (\<lambda>s. if s = ''K'' then Ok () else InternalError []),
     validator_Build = Ok, JwtSignatureRegister = Ok (), GetPrimitive = (\<lambda>_. Ok ()),
     VerifyAndDecode = (\<lambda>_ token v.
       if token = attestation_json_request ''GenC'' ''k1'' then Ok token else InternalError []),
     GetJsonPayload = Ok, Base64Escape = id, Base64Unescape = Some,
     parse_json = (\<lambda>s. if s = ''W'' then Some (JObject [(''jwks_uri'', JString ''http://K'')])
       else if s = attestation_json_request ''GenC'' ''k1'' then Some issuer_payload else None)\<rparr>"

definition launcher_client :: "unit network http_client option" where
  "launcher_client = Some (CurlBasedHttpClient launcher_curl 0)"

definition sample_provenance :: WorkloadProvenance where
  "sample_provenance = \<lparr>container_image_reference = ''img'', container_image_digest = []\<rparr>"

definition sample_evidence :: evidence where
  "sample_evidence = token_evidence (attestation_json_request ''GenC'' ''k1'')"

lemma sample_verified:
  "fst (Verify launcher_curl issuer sample_provenance False launcher_client sample_evidence one_handle)
     = Ok \<lparr>results_status = STATUS_SUCCESS, encryption_public_key = ''k1''\<rparr>"
  by code_simp

lemma sample_endorsed:
  "fst (GetEndorsedEvidence launcher_curl issuer remote_attestation_report debug launcher_client
      ''k1'' one_handle) = Ok sample_evidence"
  by (cases debug; simp only:; code_simp)



lemma GetEndorsedEvidence_Ok:
  assumes "fst (GetEndorsedEvidence L J D debug hc key w) = Ok ev"
  shows "\<exists>token. fst (GetAttestationToken L kAudience (Base64Escape J key) hc w) = Ok token
    \<and> ev = token_evidence token"
proof -
  define p where "p = GetAttestationToken L kAudience (Base64Escape J key) hc w"
  have "fst (case p of
        (Ok token, w') \<Rightarrow>
          GENC_TRY (if debug then print_token L J token hc else return ()) (\<lambda>_.
          GENC_TRY (if debug then println [Txt ''AttestationProvider returning endorsed evidence:\<newline>'',
                Txt (D (token_evidence token)), Txt ''\<newline>''] else return ()) (\<lambda>_.
            return (token_evidence token))) w'
      | (Err e, w') \<Rightarrow> (Err undefined, w')
      | (Crash c, w') \<Rightarrow> (Crash c, w')
      | (Diverge, w') \<Rightarrow> (Diverge, w')) = Ok ev"
    using assms by (auto simp: GetEndorsedEvidence_def Let_def p_def split: prod.splits outcome.splits)
  then show ?thesis
    by (auto simp: p_def [symmetric] GENC_TRY_apply return_def
        split: prod.splits outcome.splits)
qed

text \<open>
  C30: provider and verifier agree on the key. If base 64 text reads back what was
  written, and every payload that verifies for the token the launcher gave for a nonce
  carries that nonce, then the key the verifier returns for the provider's evidence is
  the public key the server handed to its provider.
\<close>

theorem attested_key_agrees:
  assumes base64: "Base64Unescape J (Base64Escape J key) = Some key"
    and launcher: "\<And>token payload.
      fst (GetAttestationToken L kAudience (Base64Escape J key) server_client ws) = Ok token \<Longrightarrow>
      accepted_token J kAudience kIssuer token payload \<Longrightarrow>
      json_find payload kJwtNonceAttributeName = Some (JString (Base64Escape J key))"
    and provided: "fst (GetEndorsedEvidence L J D server_debug server_client key ws) = Ok ev"
    and verified: "fst (Verify L' J provenance client_debug client ev wc) = Ok results"
  shows "encryption_public_key results = key"
proof -
  obtain token where token: "fst (GetAttestationToken L kAudience (Base64Escape J key) server_client ws) = Ok token"
    and ev: "ev = token_evidence token"
    using GetEndorsedEvidence_Ok [OF provided] by blast
  obtain payload where acc: "accepted_token J kAudience kIssuer token payload"
    and v: "verify_payload J provenance payload = Ok results"
    using Verify_Ok [OF verified] by (auto simp: ev token_evidence_def)
  show ?thesis
    using launcher [OF token acc] v base64 by (auto simp: verify_payload_Ok_iff)
qed

text \<open>The issuer accepts one token, whose payload carries the nonce of the request.\<close>

lemma issuer_accepts:
  assumes "accepted_token issuer kAudience kIssuer token payload"
  shows "payload = issuer_payload"
proof -
  obtain verifier validator jwt body where
    j: "VerifyAndDecode issuer verifier token validator = Ok jwt"
    "GetJsonPayload issuer jwt = Ok body" "parse_json issuer body = Some payload"
    using assms unfolding accepted_token_def by blast
  then have "body = attestation_json_request ''GenC'' ''k1''"
    by (auto simp: issuer_def split: if_splits)
  moreover have "attestation_json_request ''GenC'' ''k1'' \<noteq> ''W''" by code_simp
  ultimately show ?thesis using j(3) by (auto simp: issuer_def)
qed

theorem attested_key_agrees_witness:
  "fst (GetEndorsedEvidence launcher_curl issuer remote_attestation_report False launcher_client
      ''k1'' one_handle) = Ok sample_evidence
    \<and> (\<exists>results. fst (Verify launcher_curl issuer sample_provenance False launcher_client sample_evidence
        one_handle) = Ok results \<and> encryption_public_key results = ''k1'')"
proof (intro conjI exI)
  have base64: "Base64Unescape issuer (Base64Escape issuer ''k1'') = Some ''k1''"
    by (simp add: issuer_def)
  have nonce: "json_find payload kJwtNonceAttributeName = Some (JString (Base64Escape issuer ''k1''))"
    if "accepted_token issuer kAudience kIssuer token payload" for token payload
    unfolding issuer_accepts [OF that]
    by (simp add: issuer_payload_def kJwtNonceAttributeName_def issuer_def)
  show "encryption_public_key \<lparr>results_status = STATUS_SUCCESS, encryption_public_key = ''k1''\<rparr> = ''k1''"
    by (rule attested_key_agrees [OF base64 _ sample_endorsed sample_verified]) (rule nonce)
qed (fact sample_endorsed sample_verified)+

section \<open>The debug mode of the provider\<close>

text \<open>
  With a shared libcurl client, the provider's debug mode checks the token it has
  just received through the launcher's socket, which stays set on the handle. So where the launcher does not serve the issuer's well-known document, a
  provider in debug mode reports every token as invalid, and returns it all the same.
\<close>

lemma debug_token_check_through_launcher:
  assumes h: "h < length (easy_handles w)"
    and launcher: "\<And>lists os n. socket_in_force os = Some kLauncherSocketPath \<Longrightarrow>
      \<exists>e. fst (easy_perform L lists (OPT_URL kWellKnownFileURI # os) n) = CurlError e"
    and provided: "fst (GetEndorsedEvidence L J D True (Some (CurlBasedHttpClient L h)) key w) = Ok ev"
  shows "\<exists>rest. [Txt ''Attestation token seems invalid:\<newline>''] @ rest
    \<in> set (printed (snd (GetEndorsedEvidence L J D True (Some (CurlBasedHttpClient L h)) key w)))"
proof -
  let ?c = "CurlBasedHttpClient L h"
  define nonce where "nonce = Base64Escape J key"
  obtain token w1 where t: "GetAttestationToken L kAudience nonce (Some ?c) w = (Ok token, w1)"
    using GetEndorsedEvidence_Ok [OF provided] by (metis nonce_def prod.collapse)
  have w1: "w1 = snd (send ?c (PostSocketRequest kLocalhostTokenUrl kLauncherSocketPath
      (attestation_json_request kAudience nonce)) w)"
    using t by (simp add: GetAttestationToken_def client_or_curl_def)
  have len: "h < length (easy_handles w1)" and sock: "socket_in_force (options h w1) = Some kLauncherSocketPath"
    unfolding w1 send_state(1) [where L = L, OF h] send_state(2) [where L = L, OF h]
    by (simp_all add: h)
  obtain e where get: "fst (GetFromUrl ?c kWellKnownFileURI w1) = Err e"
  proof -
    have "socket_in_force (OPT_HTTPGET 1 # OPT_HEADER 0 # options h w1) = Some kLauncherSocketPath"
      using sock by simp
    from launcher [OF this] obtain m where
      "fst (easy_perform L (header_lists w1) (OPT_URL kWellKnownFileURI # OPT_HTTPGET 1 # OPT_HEADER 0
          # options h w1) (outside w1)) = CurlError m" by blast
    then show ?thesis
      using that by (auto simp: curl_get_result [OF len] transfer_result_def)
  qed
  define m where "m = [Txt ''Attestation token seems invalid:\<newline>'', StatusText (code e) (msg e), Txt ''\<newline>'']"
  obtain w2 where "DecodeAttestationToken L J token kAudience kIssuer (Some ?c) w1 = (Err e, w2)"
    using get by (cases "GetFromUrl ?c kWellKnownFileURI w1")
      (simp add: DecodeAttestationToken_def client_or_curl_def GENC_TRY_apply)
  then have p: "print_token L J token (Some ?c) w1 = (Ok (), w2\<lparr>printed := printed w2 @ [m]\<rparr>)"
    by (simp add: print_token_def println_def m_def)
  have "m \<in> set (printed (snd (GetEndorsedEvidence L J D True (Some ?c) key w)))"
    unfolding GetEndorsedEvidence_def Let_def nonce_def [symmetric] t
    by (simp add: p GENC_TRY_apply println_def return_def)
  then show ?thesis by (auto simp: m_def)
qed

lemma debug_token_check_through_launcher_witness:
  "\<exists>rest. [Txt ''Attestation token seems invalid:\<newline>''] @ rest
    \<in> set (printed (snd (GetEndorsedEvidence launcher_curl issuer remote_attestation_report True
        (Some (CurlBasedHttpClient launcher_curl 0)) ''k1'' one_handle)))"
proof (rule debug_token_check_through_launcher)
  show "0 < length (easy_handles one_handle)" by (simp add: one_handle_def)
  show "fst (GetEndorsedEvidence launcher_curl issuer remote_attestation_report True
      (Some (CurlBasedHttpClient launcher_curl 0)) ''k1'' one_handle) = Ok sample_evidence"
    using sample_endorsed [of True] by (simp add: launcher_client_def)
  show "\<exists>e. fst (easy_perform launcher_curl lists (OPT_URL kWellKnownFileURI # os) n) = CurlError e"
    if "socket_in_force os = Some kLauncherSocketPath" for lists os n
    using that by (simp add: launcher_curl_def kWellKnownFileURI_def kLocalhostTokenUrl_def)
qed

end
