(* ===== verification/Wire.thy ===== *)
theory Wire
  imports Computation "HOL-Library.Countable"
begin

text \<open>
  The wire format of protocol buffers is a parameter of the components that write and
  read messages; what they rely on is that a parser reads back what the writer wrote
  (\<open>round_trips\<close>). The messages are countable, so there are such formats for them: the
  one at the end numbers the messages, and the witnesses of the theorems that rely on a
  format use it.
\<close>

definition round_trips :: "('m \<Rightarrow> string) \<Rightarrow> (string \<Rightarrow> 'm option) \<Rightarrow> bool" where
  "round_trips serialize parse \<longleftrightarrow> (\<forall>m. parse (serialize m) = Some m)"

lemma round_tripsD: "round_trips serialize parse \<Longrightarrow> parse (serialize m) = Some m"
  by (simp add: round_trips_def)

instance ScalarType :: countable
  by countable_datatype

instance ptype :: countable
  by countable_datatype

instance pvalue and value_oneof and intrinsic_pb and lambda_pb and local_pb :: countable
  by countable_datatype

definition numbered_text :: "'m::countable \<Rightarrow> string" where
  "numbered_text m = decimal (to_nat m)"

definition read_numbered :: "string \<Rightarrow> 'm::countable option" where
  "read_numbered s =
     (case read_decimal 0 s of
        None \<Rightarrow> None
      | Some n \<Rightarrow> if \<exists>m :: 'm. to_nat m = n then Some (from_nat n) else None)"

lemma numbered_round_trips: "round_trips numbered_text (read_numbered :: string \<Rightarrow> 'm::countable option)"
  by (auto simp: round_trips_def numbered_text_def read_numbered_def decnat.parse_print)

end
