(* ===== verification/Oak.thy ===== *)
theory Oak
  imports Remote Attestation Wire
begin

text \<open>
  \<^verbatim>\<open>genc/cc/interop/oak\<close>: the executor service behind an encrypted, attested channel. The
  client (\<^verbatim>\<open>client.cc\<close>) is a stub of the executor service that sends each request as a
  message through the Oak client; the service (\<^verbatim>\<open>server.cc\<close>) decrypts it, calls the
  executor service and encrypts the response. The theorem shows that the tunnel is
  transparent up to the code and text of errors.
\<close>

section \<open>The tunnelled messages\<close>

datatype ExecutorRequest =
    Req_create_value pvalue
  | Req_create_call string "string option"
  | Req_create_struct "string list"
  | Req_create_selection string u32
  | Req_materialize string
  | Req_dispose "string list"
  | Req_not_set

datatype ExecutorResponse =
    Rsp_create_value string
  | Rsp_create_call string
  | Rsp_create_struct string
  | Rsp_create_selection string
  | Rsp_materialize pvalue
  | Rsp_dispose
  | Rsp_not_set

fun rsp_create_value :: "ExecutorResponse \<Rightarrow> string option" where
  "rsp_create_value (Rsp_create_value r) = Some r"
| "rsp_create_value m = None"

fun rsp_create_call :: "ExecutorResponse \<Rightarrow> string option" where
  "rsp_create_call (Rsp_create_call r) = Some r"
| "rsp_create_call m = None"

fun rsp_create_struct :: "ExecutorResponse \<Rightarrow> string option" where
  "rsp_create_struct (Rsp_create_struct r) = Some r"
| "rsp_create_struct m = None"

fun rsp_create_selection :: "ExecutorResponse \<Rightarrow> string option" where
  "rsp_create_selection (Rsp_create_selection r) = Some r"
| "rsp_create_selection m = None"

fun rsp_materialize :: "ExecutorResponse \<Rightarrow> pvalue option" where
  "rsp_materialize (Rsp_materialize v) = Some v"
| "rsp_materialize m = None"

fun rsp_dispose :: "ExecutorResponse \<Rightarrow> unit option" where
  "rsp_dispose Rsp_dispose = Some ()"
| "rsp_dispose m = None"

text \<open>
  Protocol buffers and the Oak cryptography: requests \<open>'q\<close> and responses \<open>'e\<close> are
  encrypted, \<open>'x\<close> is the response context that decryption of a request leaves in the
  server encryptor, \<open>'kp\<close> the key provider. The console is a part of the state \<open>'s\<close>.
\<close>

record ('kp, 'q, 'x, 'e, 's) oak_lib =
  serialize_request :: "ExecutorRequest \<Rightarrow> string"
  parse_request :: "string \<Rightarrow> ExecutorRequest option"
  serialize_response :: "ExecutorResponse \<Rightarrow> string"
  parse_response :: "string \<Rightarrow> ExecutorResponse option"
  request_DebugString :: "ExecutorRequest \<Rightarrow> string"
  response_DebugString :: "ExecutorResponse \<Rightarrow> string"
  key_provider_Create :: "('s, 'kp) prog"
  GetSerializedPublicKey :: "'kp \<Rightarrow> string"
  Decrypt :: "'kp \<Rightarrow> 'q \<Rightarrow> (string \<times> 'x) outcome"
  Encrypt :: "'x \<Rightarrow> string \<Rightarrow> string \<Rightarrow> 'e outcome"
  write_line :: "string list \<Rightarrow> 's \<Rightarrow> 's"

definition debug_line :: "('kp, 'q, 'x, 'e, 's) oak_lib \<Rightarrow> bool \<Rightarrow> string list \<Rightarrow> ('s, unit) prog" where
  "debug_line K debug m s = (Ok (), if debug then write_line K m s else s)"

section \<open>The client\<close>

type_synonym 's oak_invoke = "string \<Rightarrow> ('s, string) prog"

definition OakClient_Call ::
  "('kp, 'q, 'x, 'e, 's) oak_lib \<Rightarrow> 's oak_invoke \<Rightarrow> bool \<Rightarrow> ExecutorRequest
     \<Rightarrow> ('s, ExecutorResponse) prog" where
  "OakClient_Call K invoke debug request =
     GENC_TRY (debug_line K debug [''Request:\<newline>'', request_DebugString K request, ''\<newline>'']) (\<lambda>_.
     GENC_TRY (invoke (serialize_request K request)) (\<lambda>serialized_response.
     case parse_response K serialized_response of
       None \<Rightarrow> lift (InternalError [Txt ''Failed to parse the serialized response.''])
     | Some response \<Rightarrow>
         GENC_TRY (debug_line K debug [''Response:\<newline>'', response_DebugString K response, ''\<newline>'']) (\<lambda>_.
           return response)))"

text \<open>
  The six methods differ in the request they send and the response they expect: the
  response is left as it was, \<open>r0\<close>, unless the reply is of the expected kind.
\<close>

definition oak_method ::
  "('s, ExecutorResponse) prog \<Rightarrow> (ExecutorResponse \<Rightarrow> 'r option) \<Rightarrow> 'r \<Rightarrow> ('s, 'r) rpc" where
  "oak_method call expected r0 = or_reply r0 call (\<lambda>executor_response.
     case expected executor_response of
       None \<Rightarrow> return (AbslToGrpcStatus (Some (Status kInternal
           [Txt ''Received a mismatching type of response.''])), r0)
     | Some response \<Rightarrow> return (grpc_ok, response))"

definition OakClient_CreateValue ::
  "('kp, 'q, 'x, 'e, 's) oak_lib \<Rightarrow> 's oak_invoke \<Rightarrow> bool \<Rightarrow> pvalue \<Rightarrow> ('s, string) rpc" where
  "OakClient_CreateValue K invoke debug val =
     oak_method (OakClient_Call K invoke debug (Req_create_value val)) rsp_create_value []"

definition OakClient_CreateCall ::
  "('kp, 'q, 'x, 'e, 's) oak_lib \<Rightarrow> 's oak_invoke \<Rightarrow> bool \<Rightarrow> string \<Rightarrow> string option
     \<Rightarrow> ('s, string) rpc" where
  "OakClient_CreateCall K invoke debug function_ref argument_ref =
     oak_method (OakClient_Call K invoke debug (Req_create_call function_ref argument_ref))
       rsp_create_call []"

definition OakClient_CreateStruct ::
  "('kp, 'q, 'x, 'e, 's) oak_lib \<Rightarrow> 's oak_invoke \<Rightarrow> bool \<Rightarrow> string list \<Rightarrow> ('s, string) rpc" where
  "OakClient_CreateStruct K invoke debug element_refs =
     oak_method (OakClient_Call K invoke debug (Req_create_struct element_refs)) rsp_create_struct []"

definition OakClient_CreateSelection ::
  "('kp, 'q, 'x, 'e, 's) oak_lib \<Rightarrow> 's oak_invoke \<Rightarrow> bool \<Rightarrow> string \<Rightarrow> u32 \<Rightarrow> ('s, string) rpc" where
  "OakClient_CreateSelection K invoke debug source_ref index =
     oak_method (OakClient_Call K invoke debug (Req_create_selection source_ref index))
       rsp_create_selection []"

definition OakClient_Materialize ::
  "('kp, 'q, 'x, 'e, 's) oak_lib \<Rightarrow> 's oak_invoke \<Rightarrow> bool \<Rightarrow> string \<Rightarrow> ('s, pvalue) rpc" where
  "OakClient_Materialize K invoke debug value_ref =
     oak_method (OakClient_Call K invoke debug (Req_materialize value_ref)) rsp_materialize empty_value"

definition OakClient_Dispose ::
  "('kp, 'q, 'x, 'e, 's) oak_lib \<Rightarrow> 's oak_invoke \<Rightarrow> bool \<Rightarrow> string list \<Rightarrow> ('s, unit) rpc" where
  "OakClient_Dispose K invoke debug value_refs =
     oak_method (OakClient_Call K invoke debug (Req_dispose value_refs)) rsp_dispose ()"

definition OakClient ::
  "('kp, 'q, 'x, 'e, 's) oak_lib \<Rightarrow> 's oak_invoke \<Rightarrow> bool \<Rightarrow> 's stub" where
  "OakClient K invoke debug = \<lparr>
     rpc_CreateValue = OakClient_CreateValue K invoke debug,
     rpc_CreateCall = OakClient_CreateCall K invoke debug,
     rpc_CreateStruct = OakClient_CreateStruct K invoke debug,
     rpc_CreateSelection = OakClient_CreateSelection K invoke debug,
     rpc_Materialize = OakClient_Materialize K invoke debug,
     rpc_Dispose = OakClient_Dispose K invoke debug\<rparr>"

text \<open>The twelve asynchronous methods return a null reader.\<close>

datatype async_method =
    AsyncCreateValueRaw | PrepareAsyncCreateValueRaw
  | AsyncCreateCallRaw | PrepareAsyncCreateCallRaw
  | AsyncCreateStructRaw | PrepareAsyncCreateStructRaw
  | AsyncCreateSelectionRaw | PrepareAsyncCreateSelectionRaw
  | AsyncMaterializeRaw | PrepareAsyncMaterializeRaw
  | AsyncDisposeRaw | PrepareAsyncDisposeRaw

definition OakClient_async :: "async_method \<Rightarrow> 'reader option" where
  "OakClient_async m = None"

text \<open>
  \<open>connect\<close> is \<open>oak::client::OakClient::Create\<close>: it fetches the evidence over the transport
  and gives it to the verifier.
\<close>

definition OakClient_Create ::
  "('kp, 'q, 'x, 'e, 's) oak_lib
     \<Rightarrow> ((evidence \<Rightarrow> ('s, attestation_results) prog) \<Rightarrow> ('s, 's oak_invoke) prog)
     \<Rightarrow> (evidence \<Rightarrow> ('s, attestation_results) prog) \<Rightarrow> bool \<Rightarrow> ('s, 's stub) prog" where
  "OakClient_Create K connect attestation_verifier debug =
     GENC_TRY (connect attestation_verifier) (\<lambda>oak_client. return (OakClient K oak_client debug))"

definition CreateClient ::
  "('kp, 'q, 'x, 'e, 's) oak_lib
     \<Rightarrow> ((evidence \<Rightarrow> ('s, attestation_results) prog) \<Rightarrow> ('s, 's oak_invoke) prog)
     \<Rightarrow> (evidence \<Rightarrow> ('s, attestation_results) prog) \<Rightarrow> bool \<Rightarrow> ('s, 's stub) prog" where
  "CreateClient K connect attestation_verifier debug = OakClient_Create K connect attestation_verifier debug"

section \<open>The service\<close>

record ('kp, 's) oak_service =
  executor_service :: "'s stub"
  encryption_provider :: 'kp
  serialized_public_key :: string
  attestation_provider :: "string \<Rightarrow> ('s, evidence) prog"
  service_debug :: bool

definition OakService_Create ::
  "('kp, 'q, 'x, 'e, 's) oak_lib \<Rightarrow> 's stub \<Rightarrow> (string \<Rightarrow> ('s, evidence) prog) \<Rightarrow> bool
     \<Rightarrow> ('s, ('kp, 's) oak_service) prog" where
  "OakService_Create K executor provider debug =
     GENC_TRY (key_provider_Create K) (\<lambda>kp.
     GENC_TRY (debug_line K debug [''OakService public key:\<newline>'', GetSerializedPublicKey K kp, ''\<newline>''])
       (\<lambda>_. return \<lparr>executor_service = executor, encryption_provider = kp,
              serialized_public_key = GetSerializedPublicKey K kp,
              attestation_provider = provider, service_debug = debug\<rparr>))"

text \<open>The early return of a step that failed, with the text of its status in quotes.\<close>

definition or_internal_reply ::
  "string \<Rightarrow> ('s, 'a) prog \<Rightarrow> ('a \<Rightarrow> ('s, 'r option) rpc) \<Rightarrow> ('s, 'r option) rpc" where
  \<open>or_internal_reply what p k = (\<lambda>s. case p s of
      (Ok x, s') \<Rightarrow> k x s'
    | (Err e, s') \<Rightarrow> (Ok (AbslToGrpcStatus (Some (Status kInternal
          [Txt what, StatusText (code e) (msg e), Txt ''".''])), None), s')
    | (Crash c, s') \<Rightarrow> (Crash c, s')
    | (Diverge, s') \<Rightarrow> (Diverge, s'))\<close>

definition OakService_GetEndorsedEvidence ::
  "('kp, 'q, 'x, 'e, 's) oak_lib \<Rightarrow> ('kp, 's) oak_service \<Rightarrow> ('s, evidence option) rpc" where
  \<open>OakService_GetEndorsedEvidence K sv =
     GENC_TRY (debug_line K (service_debug sv) [''OakService received the GetEndorsedEvidence() call\<newline>''])
       (\<lambda>_. or_internal_reply ''Attestation provider returned an error status: "''
         (attestation_provider sv (serialized_public_key sv)) (\<lambda>e. return (grpc_ok, Some e)))\<close>

definition respond ::
  "('r \<Rightarrow> ExecutorResponse) \<Rightarrow> ('s, 'r) rpc \<Rightarrow> ('s, ExecutorResponse) prog" where
  "respond set_response call =
     GENC_TRY call (\<lambda>(grpc_status, r). case GrpcToAbslStatus grpc_status of
        None \<Rightarrow> return (set_response r)
      | Some e \<Rightarrow> lift (Err e))"

fun GetExecutorResponse ::
  "('kp, 'q, 'x, 'e, 's) oak_lib \<Rightarrow> 's stub \<Rightarrow> ExecutorRequest \<Rightarrow> ('s, ExecutorResponse) prog" where
  \<open>GetExecutorResponse K st (Req_create_value v) = respond Rsp_create_value (rpc_CreateValue st v)\<close>
| \<open>GetExecutorResponse K st (Req_create_call f a) = respond Rsp_create_call (rpc_CreateCall st f a)\<close>
| \<open>GetExecutorResponse K st (Req_create_struct es) = respond Rsp_create_struct (rpc_CreateStruct st es)\<close>
| \<open>GetExecutorResponse K st (Req_create_selection r i) =
     respond Rsp_create_selection (rpc_CreateSelection st r i)\<close>
| \<open>GetExecutorResponse K st (Req_materialize r) = respond Rsp_materialize (rpc_Materialize st r)\<close>
| \<open>GetExecutorResponse K st (Req_dispose rs) = respond (\<lambda>_. Rsp_dispose) (rpc_Dispose st rs)\<close>
| \<open>GetExecutorResponse K st Req_not_set = lift (InternalError
     [Txt ''Unsupported type of executor request: "'', Txt (request_DebugString K Req_not_set), Txt ''".''])\<close>

definition OakService_Invoke ::
  "('kp, 'q, 'x, 'e, 's) oak_lib \<Rightarrow> ('kp, 's) oak_service \<Rightarrow> 'q \<Rightarrow> ('s, 'e option) rpc" where
  \<open>OakService_Invoke K sv encrypted_request =
     GENC_TRY (debug_line K (service_debug sv) [''OakService received the Invoke() call\<newline>'']) (\<lambda>_.
     or_internal_reply ''Request decryption failed with an error status: "''
       (lift (Decrypt K (encryption_provider sv) encrypted_request)) (\<lambda>(serialized_request, ctx).
     case parse_request K serialized_request of
       None \<Rightarrow> return (AbslToGrpcStatus (Some (Status kInternal
         [Txt ''Failed to parse the serialized request: "'', Txt serialized_request, Txt ''".''])), None)
     | Some executor_request \<Rightarrow>
         GENC_TRY (debug_line K (service_debug sv)
           [''OakService invoked with request:'', request_DebugString K executor_request, ''\<newline>'']) (\<lambda>_.
         or_internal_reply ''Failed to get the executor response: "''
           (GetExecutorResponse K (executor_service sv) executor_request) (\<lambda>executor_response.
         GENC_TRY (debug_line K (service_debug sv)
           [''OakService returning response:'', response_DebugString K executor_response, ''\<newline>'']) (\<lambda>_.
         or_internal_reply ''Response encryption failed with an error status: "''
           (lift (Encrypt K ctx (serialize_response K executor_response) '''')) (\<lambda>encrypted_response.
           return (grpc_ok, Some encrypted_response)))))))\<close>

definition CreateService ::
  "('kp, 'q, 'x, 'e, 's) oak_lib \<Rightarrow> 's stub \<Rightarrow> (string \<Rightarrow> ('s, evidence) prog) \<Rightarrow> bool
     \<Rightarrow> ('s, ('kp, 's) oak_service) prog" where
  "CreateService K executor provider debug = OakService_Create K executor provider debug"

section \<open>What the channel is relied on for\<close>

text \<open>Protocol buffers read back what they wrote.\<close>

definition wire_format :: "('kp, 'q, 'x, 'e, 's) oak_lib \<Rightarrow> bool" where
  "wire_format K \<longleftrightarrow> round_trips (serialize_request K) (parse_request K)
     \<and> round_trips (serialize_response K) (parse_response K)"

text \<open>
  The Oak client seals a request, calls the service and opens the response; what is
  sealed for the service's key opens to the same text, and the response likewise.
\<close>

definition seals ::
  "('kp, 'q, 'x, 'e, 's) oak_lib \<Rightarrow> 'kp \<Rightarrow> (string \<Rightarrow> 'q) \<Rightarrow> (string \<Rightarrow> 'e \<Rightarrow> string outcome) \<Rightarrow> bool" where
  "seals K kp seal unseal \<longleftrightarrow>
     (\<forall>p. \<exists>ctx. Decrypt K kp (seal p) = Ok (p, ctx)
        \<and> (\<forall>r. \<exists>e. Encrypt K ctx r '''' = Ok e \<and> unseal p e = Ok r))"

definition sealed_invoke ::
  "('kp, 'q, 'x, 'e, 's) oak_lib \<Rightarrow> ('kp, 's) oak_service \<Rightarrow> (string \<Rightarrow> 'q)
     \<Rightarrow> (string \<Rightarrow> 'e \<Rightarrow> string outcome) \<Rightarrow> 's oak_invoke" where
  "sealed_invoke K sv seal unseal request =
     GENC_TRY (OakService_Invoke K sv (seal request)) (\<lambda>(grpc_status, response).
       case (GrpcToAbslStatus grpc_status, response) of
         (None, Some e) \<Rightarrow> lift (unseal request e)
       | (None, None) \<Rightarrow> lift (InternalError [])
       | (Some e, _) \<Rightarrow> lift (Err e))"

text \<open>The specification: a call through the tunnel.\<close>

definition tunnelled :: "'r \<Rightarrow> ('s, 'r) rpc \<Rightarrow> ('s, 'r) rpc" where
  \<open>tunnelled r0 call = (\<lambda>s. case status_or call s of
      (Ok r, s') \<Rightarrow> (Ok (grpc_ok, r), s')
    | (Err e, s') \<Rightarrow> (Ok (AbslToGrpcStatus (Some (Status kInternal
         [Txt ''Failed to get the executor response: "'', StatusText (code e) (msg e), Txt ''".''])), r0), s')
    | (Crash c, s') \<Rightarrow> (Crash c, s')
    | (Diverge, s') \<Rightarrow> (Diverge, s'))\<close>

definition tunnel :: "'s stub \<Rightarrow> 's stub" where
  "tunnel st = \<lparr>
     rpc_CreateValue = (\<lambda>v. tunnelled [] (rpc_CreateValue st v)),
     rpc_CreateCall = (\<lambda>f a. tunnelled [] (rpc_CreateCall st f a)),
     rpc_CreateStruct = (\<lambda>es. tunnelled [] (rpc_CreateStruct st es)),
     rpc_CreateSelection = (\<lambda>r i. tunnelled [] (rpc_CreateSelection st r i)),
     rpc_Materialize = (\<lambda>r. tunnelled empty_value (rpc_Materialize st r)),
     rpc_Dispose = (\<lambda>rs. tunnelled () (rpc_Dispose st rs))\<rparr>"

section \<open>The tunnel is transparent\<close>

lemma debug_line_False [simp]: "debug_line K False m = return ()"
  by (simp add: debug_line_def return_def fun_eq_iff)

text \<open>What the service answers to a request it can read, behind the encryption.\<close>

definition tunnelled_response ::
  "('s, ExecutorResponse) prog \<Rightarrow> ('s, ExecutorResponse) prog" where
  \<open>tunnelled_response p = (\<lambda>s. case p s of
      (Err e, s') \<Rightarrow> (InternalError
         [Txt ''Failed to get the executor response: "'', StatusText (code e) (msg e), Txt ''".''], s')
    | r \<Rightarrow> r)\<close>

lemma OakClient_Call_tunnel:
  assumes wf: "wire_format K" and seals: "seals K (encryption_provider sv) seal unseal"
    and quiet: "\<not> service_debug sv"
  shows "OakClient_Call K (sealed_invoke K sv seal unseal) False request =
    tunnelled_response (GetExecutorResponse K (executor_service sv) request)"
proof (rule ext)
  fix s
  obtain ctx where d: "Decrypt K (encryption_provider sv) (seal (serialize_request K request)) =
      Ok (serialize_request K request, ctx)"
    and e: "\<forall>r. \<exists>e. Encrypt K ctx r '''' = Ok e \<and> unseal (serialize_request K request) e = Ok r"
    using seals unfolding seals_def by blast
  have wf': "parse_request K (serialize_request K request) = Some request"
    "parse_response K (serialize_response K m) = Some m" for m
    using wf by (simp_all add: wire_format_def round_trips_def)
  show "OakClient_Call K (sealed_invoke K sv seal unseal) False request s =
    tunnelled_response (GetExecutorResponse K (executor_service sv) request) s"
  proof (cases "GetExecutorResponse K (executor_service sv) request s")
    case (Pair r s')
    show ?thesis
    proof (cases r)
      case (Ok rsp)
      obtain enc where "Encrypt K ctx (serialize_response K rsp) '''' = Ok enc"
        "unseal (serialize_request K request) enc = Ok (serialize_response K rsp)"
        using e by blast
      with Ok Pair quiet show ?thesis
        by (simp add: OakClient_Call_def sealed_invoke_def OakService_Invoke_def GENC_TRY_apply
            or_internal_reply_def d wf' tunnelled_response_def lift_def return_def
            GrpcToAbslStatus_def grpc_ok_def)
    qed (use Pair quiet in \<open>simp_all add: OakClient_Call_def sealed_invoke_def
        OakService_Invoke_def GENC_TRY_apply or_internal_reply_def d wf' tunnelled_response_def
        lift_def return_def grpc_status_roundtrip\<close>)
  qed
qed

lemma oak_method_tunnel:
  assumes "\<And>r. expected (set_response r) = Some r"
  shows "oak_method (tunnelled_response (respond set_response call)) expected r0 = tunnelled r0 call"
  using assms
  by (auto simp: fun_eq_iff oak_method_def tunnelled_response_def respond_def tunnelled_def or_reply_def
      status_or_def GENC_TRY_apply lift_def return_def split: prod.splits outcome.splits option.splits)

lemma OakClient_tunnel:
  assumes "wire_format K" and "seals K (encryption_provider sv) seal unseal"
    and "\<not> service_debug sv"
  shows "OakClient K (sealed_invoke K sv seal unseal) False = tunnel (executor_service sv)"
  unfolding OakClient_def tunnel_def OakClient_CreateValue_def OakClient_CreateCall_def
    OakClient_CreateStruct_def OakClient_CreateSelection_def OakClient_Materialize_def
    OakClient_Dispose_def
  by (simp add: fun_eq_iff OakClient_Call_tunnel [OF assms] oak_method_tunnel)

text \<open>
  C16: the executor service behind the Oak channel is the executor service itself, as far
  as its values and its state go. When protocol buffers and encryption read back what
  they wrote, every method of the Oak client has the response and the effects of the
  method of the service, except that an error of any code comes back as an internal
  error that quotes it, with an empty response.
\<close>

theorem OakClient_is_tunnel:
  assumes "wire_format K" and "seals K (encryption_provider sv) seal unseal"
    and "\<not> service_debug sv"
  shows "OakClient K (sealed_invoke K sv seal unseal) False = tunnel (executor_service sv)"
  by (rule OakClient_tunnel [OF assms])

section \<open>A channel\<close>

instance ExecutorRequest :: countable
  by countable_datatype

instance ExecutorResponse :: countable
  by countable_datatype

text \<open>
  A sealed text carries the key it was sealed for; the service opens only what was
  sealed for its own key.
\<close>

definition box_lib :: "(string, string \<times> string, unit, string, 's) oak_lib" where
  "box_lib = \<lparr>serialize_request = numbered_text, parse_request = read_numbered,
     serialize_response = numbered_text, parse_response = read_numbered,
     request_DebugString = (\<lambda>_. []), response_DebugString = (\<lambda>_. []),
     key_provider_Create = return ''k1'', GetSerializedPublicKey = id,
     Decrypt = (\<lambda>kp (key, body). if key = kp then Ok (body, ()) else InternalError []),
     Encrypt = (\<lambda>_ body _. Ok body), write_line = (\<lambda>_ s. s)\<rparr>"

definition negation_service :: "(string, (ValueFuture, unit process) base_state) oak_service" where
  "negation_service = \<lparr>
     executor_service = server decimal_atoi negation_stack,
     encryption_provider = ''k1'', serialized_public_key = ''k1'',
     attestation_provider = (\<lambda>_. return sample_evidence), service_debug = False\<rparr>"

definition box_client :: "(ValueFuture, unit process) base_state stub" where
  "box_client = OakClient box_lib
     (sealed_invoke box_lib negation_service (Pair ''k1'') (\<lambda>_. Ok)) False"

lemma box_lib_contract:
  "wire_format (box_lib :: (string, string \<times> string, unit, string, 's) oak_lib)"
  "seals (box_lib :: (string, string \<times> string, unit, string, 's) oak_lib) ''k1'' (Pair ''k1'') (\<lambda>_. Ok)"
  by (simp_all add: wire_format_def box_lib_def numbered_round_trips seals_def)

theorem OakClient_is_tunnel_witness:
  "box_client = tunnel (server decimal_atoi negation_stack)"
  using OakClient_is_tunnel [of box_lib negation_service "Pair ''k1''" "\<lambda>_. Ok"]
  by (simp add: box_lib_contract box_client_def negation_service_def)

end
