(* ===== verification/Confidential_Run.thy ===== *)
theory Confidential_Run
  imports Oak
begin

text \<open>
  A run through the whole confidential stack: the runner (\<^verbatim>\<open>runtime/runner.cc\<close>) over the
  remote executor (\<^verbatim>\<open>runtime/remote_executor.cc\<close>) over the Oak client and service
  (\<^verbatim>\<open>interop/oak\<close>) over the executor service (\<^verbatim>\<open>runtime/executor_service.cc\<close>). A relational
  logic carries a run over one stub to a run over another that gives the same values and
  effects but perhaps other errors; the Oak channel is such a stub.
\<close>

section \<open>The same up to the text of errors\<close>

fun blurs :: "('a \<Rightarrow> 'b \<Rightarrow> bool) \<Rightarrow> 'a outcome \<Rightarrow> 'b outcome \<Rightarrow> bool" where
  "blurs P (Ok x) r = (\<exists>y. r = Ok y \<and> P x y)"
| "blurs P (Err e) r = (\<exists>e'. r = Err e')"
| "blurs P (Crash c) r = (r = Crash c)"
| "blurs P Diverge r = (r = Diverge)"

definition same :: "('s \<Rightarrow> 't \<Rightarrow> bool) \<Rightarrow> ('a \<Rightarrow> 'b \<Rightarrow> bool) \<Rightarrow> ('s, 'a) prog \<Rightarrow> ('t, 'b) prog \<Rightarrow> bool" where
  "same S P p q \<longleftrightarrow> (\<forall>s t. S s t \<longrightarrow> blurs P (fst (p s)) (fst (q t)) \<and> S (snd (p s)) (snd (q t)))"

lemma sameI:
  "(\<And>s t. S s t \<Longrightarrow> blurs P (fst (p s)) (fst (q t)) \<and> S (snd (p s)) (snd (q t))) \<Longrightarrow> same S P p q"
  by (simp add: same_def)

lemma sameD: "same S P p q \<Longrightarrow> S s t \<Longrightarrow> blurs P (fst (p s)) (fst (q t)) \<and> S (snd (p s)) (snd (q t))"
  by (simp add: same_def)

lemma same_lift: "blurs P x y \<Longrightarrow> same S P (lift x) (lift y)"
  by (simp add: same_def lift_apply)

lemma same_return: "P x y \<Longrightarrow> same S P (return x) (return y)"
  by (simp add: same_def return_apply)

lemma same_try:
  assumes "same S P p q" and "\<And>x y. P x y \<Longrightarrow> same S Q (f x) (g y)"
  shows "same S Q (GENC_TRY p f) (GENC_TRY q g)"
proof (rule sameI)
  fix s t assume st: "S s t"
  obtain x s' y t' where e: "p s = (x, s')" "q t = (y, t')" by fastforce
  have xy: "blurs P x y" "S s' t'" using sameD [OF assms(1) st] e by simp_all
  show "blurs Q (fst (GENC_TRY p f s)) (fst (GENC_TRY q g t)) \<and>
      S (snd (GENC_TRY p f s)) (snd (GENC_TRY q g t))"
    using xy sameD [OF assms(2) xy(2)] by (cases x) (auto simp: GENC_TRY_apply e)
qed

section \<open>Tables of futures\<close>

definition same_future :: "'a task \<Rightarrow> 'a task \<Rightarrow> bool" where
  "same_future f g \<longleftrightarrow> waitable f = waitable g \<and> blurs (=) (task_result f) (task_result g)"

definition same_table :: "('a task, 's) base_state \<Rightarrow> ('a task, 's) base_state \<Rightarrow> bool" where
  "same_table b b' \<longleftrightarrow> sub_state b = sub_state b' \<and> next_value_id b = next_value_id b' \<and>
     (\<forall>i. rel_option same_future (tracked_values b i) (tracked_values b' i))"

lemma blurs_refl: "(\<And>x. P x x) \<Longrightarrow> blurs P r r"
  by (cases r) auto

lemma same_table_dom:
  assumes "same_table b b'"
  shows "dom (tracked_values b) = dom (tracked_values b')"
proof -
  have "(tracked_values b i = None) = (tracked_values b' i = None)" for i
    using assms by (auto simp: same_table_def dest!: spec [of _ i])
  then show ?thesis by (simp add: dom_def)
qed

lemma same_table_refl: "same_table b b"
  by (auto simp: same_table_def same_future_def blurs_refl intro!: option.rel_refl)

lemma blurs_try_value:
  "blurs P x y \<Longrightarrow> (\<And>a b. P a b \<Longrightarrow> blurs Q (f a) (g b)) \<Longrightarrow> blurs Q (try_value x f) (try_value y g)"
  by (cases x) auto

lemma same_future_Task_Get:
  assumes "same_future f g"
  shows "blurs (=) (Task_Get f) (Task_Get g)"
proof -
  have w: "waitable f = waitable g" and r: "blurs (=) (task_result f) (task_result g)"
    using assms by (simp_all add: same_future_def)
  have "blurs (=) (try_value x (\<lambda>_. task_result f)) (try_value x (\<lambda>_. task_result g))" for x :: "unit outcome"
    using r by (cases x) simp_all
  then show ?thesis
    unfolding Task_Get_def w by (cases "waitable g") simp_all
qed

lemma same_in_sub:
  fixes p :: "('s, 'a) prog" and q :: "('s, 'b) prog"
  assumes "same (=) P p q"
  shows "same (same_table :: ('c task, 's) base_state \<Rightarrow> _) P (in_sub p) (in_sub q)"
proof (rule sameI)
  fix s t :: "('c task, 's) base_state"
  assume st: "same_table s t"
  then have "sub_state s = sub_state t" by (simp add: same_table_def)
  from sameD [OF assms this] st
  show "blurs P (fst (in_sub p s)) (fst (in_sub q t)) \<and> same_table (snd (in_sub p s)) (snd (in_sub q t))"
    by (cases "p (sub_state s)"; cases "q (sub_state t)") (simp add: same_table_def in_sub_def)
qed

lemma same_TrackValue:
  assumes "same_future f g"
  shows "same same_table (=) (TrackValue f) (TrackValue g)"
proof (rule sameI)
  fix s t :: "('a task, 'b) base_state"
  assume st: "same_table s t"
  then have "rel_option same_future (tracked_values s (next_value_id s)) (tracked_values t (next_value_id s))"
    by (simp add: same_table_def)
  then show "blurs (=) (fst (TrackValue f s)) (fst (TrackValue g t)) \<and>
      same_table (snd (TrackValue f s)) (snd (TrackValue g t))"
    using st assms
    by (cases "tracked_values s (next_value_id s)"; cases "tracked_values t (next_value_id s)")
      (auto simp: same_table_def TrackValue_def Let_def)
qed

lemma same_GetTracked: "same same_table same_future (GetTracked n h) (GetTracked n' h)"
proof (rule sameI)
  fix s t :: "('a task, 'b) base_state"
  assume st: "same_table s t"
  then have "rel_option same_future (tracked_values s h) (tracked_values t h)" by (simp add: same_table_def)
  with st show "blurs same_future (fst (GetTracked n h s)) (fst (GetTracked n' h t)) \<and>
      same_table (snd (GetTracked n h s)) (snd (GetTracked n' h t))"
    by (cases "tracked_values s h"; cases "tracked_values t h") (auto simp: GetTracked_def)
qed

lemma same_RunAsync:
  assumes "same S (=) p q"
  shows "same S same_future (RunAsync sch p) (RunAsync sch q)"
proof (rule sameI)
  fix s t assume st: "S s t"
  obtain x s' y t' where e: "p s = (x, s')" "q t = (y, t')" by fastforce
  have "blurs (=) x y" "S s' t'" using sameD [OF assms st] e by simp_all
  then show "blurs same_future (fst (RunAsync sch p s)) (fst (RunAsync sch q t)) \<and>
      S (snd (RunAsync sch p s)) (snd (RunAsync sch q t))"
    using st by (cases x; cases sch) (auto simp: RunAsync_def e same_future_def)
qed

section \<open>Stubs that give the same values\<close>

text \<open>
  What a run needs of a stub to be a run over another: the four methods it calls have the
  same values and effects, up to the errors, and disposing of values crashes when it does
  and has the same effects.
\<close>

locale same_values =
  fixes st st' :: "'s stub"
  assumes create_value: "same (=) (=) (status_or (rpc_CreateValue st v)) (status_or (rpc_CreateValue st' v))"
    and create_call: "same (=) (=) (status_or (rpc_CreateCall st f a)) (status_or (rpc_CreateCall st' f a))"
    and materialize: "same (=) (=) (status_or (rpc_Materialize st r)) (status_or (rpc_Materialize st' r))"
    and dispose: "same (=) (=) (status_or (rpc_Dispose st rs)) (status_or (rpc_Dispose st' rs))"
begin

lemma same_create_value:
  "same same_table (=) (create_value (CreateRemoteExecutor st sch) v) (create_value (CreateRemoteExecutor st' sch) v)"
  unfolding CreateRemoteExecutor_sel base_create_value_def RemoteExecutor_sel Remote_CreateExecutorValue_def
  by (rule same_try [OF same_in_sub [OF same_RunAsync [OF create_value]] same_TrackValue])

lemma same_Remote_CreateCall:
  assumes "same_future f g" and "rel_option same_future a b"
  shows "same (=) same_future (Remote_CreateCall st sch f a) (Remote_CreateCall st' sch g b)"
  unfolding Remote_CreateCall_def
proof (rule same_RunAsync, rule same_try [OF same_lift [OF same_future_Task_Get [OF assms(1)]]], hypsubst)
  fix fv
  have "same (=) (=) (case a of None \<Rightarrow> return None
        | Some a \<Rightarrow> GENC_TRY (lift (Task_Get a)) (\<lambda>r. return (Some r)))
      (case b of None \<Rightarrow> return None
        | Some a \<Rightarrow> GENC_TRY (lift (Task_Get a)) (\<lambda>r. return (Some r)))"
    using assms(2)
    by (cases a; cases b) (auto intro!: same_return same_try [OF same_lift [OF same_future_Task_Get]])
  then show "same (=) (=)
      (GENC_TRY (case a of None \<Rightarrow> return None
        | Some a \<Rightarrow> GENC_TRY (lift (Task_Get a)) (\<lambda>r. return (Some r)))
        (\<lambda>av. status_or (rpc_CreateCall st fv av)))
      (GENC_TRY (case b of None \<Rightarrow> return None
        | Some a \<Rightarrow> GENC_TRY (lift (Task_Get a)) (\<lambda>r. return (Some r)))
        (\<lambda>av. status_or (rpc_CreateCall st' fv av)))"
    by (rule same_try) (simp add: create_call)
qed

lemma same_create_call:
  "same same_table (=) (create_call (CreateRemoteExecutor st sch) f a) (create_call (CreateRemoteExecutor st' sch) f a)"
  unfolding CreateRemoteExecutor_sel base_create_call_def RemoteExecutor_sel
proof (rule same_try [OF same_GetTracked], rule same_try)
  show "same same_table (rel_option same_future)
      (case a of None \<Rightarrow> return None
        | Some a \<Rightarrow> GENC_TRY (GetTracked ''RemoteExecutor'' a) (\<lambda>v. return (Some v)))
      (case a of None \<Rightarrow> return None
        | Some a \<Rightarrow> GENC_TRY (GetTracked ''RemoteExecutor'' a) (\<lambda>v. return (Some v)))"
    by (auto intro!: same_return same_try [OF same_GetTracked] split: option.split)
next
  fix f g :: RemoteValue and x y :: "RemoteValue option"
  assume "same_future f g" and "rel_option same_future x y"
  then show "same same_table (=) (GENC_TRY (in_sub (Remote_CreateCall st sch f x)) TrackValue)
      (GENC_TRY (in_sub (Remote_CreateCall st' sch g y)) TrackValue)"
    by (rule same_try [OF same_in_sub [OF same_Remote_CreateCall] same_TrackValue])
qed

lemma same_materialize:
  "same same_table (=) (Materialize_pb (CreateRemoteExecutor st sch) h) (Materialize_pb (CreateRemoteExecutor st' sch) h)"
  unfolding Materialize_pb_def CreateRemoteExecutor_sel base_materialize_def RemoteExecutor_sel
proof (rule same_try [where P = "(=)"], rule same_try [OF same_GetTracked], rule same_in_sub)
  fix f g :: RemoteValue
  assume fg: "same_future f g"
  have m: "Remote_Materialize stub t True = GENC_TRY (lift (Task_Get t)) (\<lambda>ref.
      GENC_TRY (status_or (rpc_Materialize stub ref)) (\<lambda>v. return (Some v)))" for stub :: "'s stub" and t
    by (auto simp: Remote_Materialize_def status_or_def fun_eq_iff GENC_TRY_apply lift_apply return_apply
        split: prod.splits outcome.splits option.splits)
  show "same (=) (=) (Remote_Materialize st f True) (Remote_Materialize st' g True)"
    unfolding m
    by (auto intro!: same_try [OF same_lift [OF same_future_Task_Get [OF fg]]] same_try [OF materialize] same_return)
qed (simp add: same_return)

lemma same_destroy:
  assumes "same_future f g"
  shows "same (=) (=) (destroy_value st sch f) (destroy_value st' sch g)"
proof -
  have drop_status: "GENC_TRY (RunAsync sch c) (\<lambda>_. return ()) = GENC_TRY (RunAsync sch (status_or c)) (\<lambda>_. return ())"
    for c :: "('s, unit) rpc"
    by (cases sch) (auto simp: fun_eq_iff RunAsync_def status_or_def GENC_TRY_apply lift_apply return_apply
        split: prod.splits outcome.splits option.splits)
  have "same (=) (=) (GENC_TRY (RunAsync sch (rpc_Dispose st rs)) (\<lambda>_. return ()))
      (GENC_TRY (RunAsync sch (rpc_Dispose st' rs)) (\<lambda>_. return ()))" for rs
    unfolding drop_status [of "rpc_Dispose st rs"] drop_status [of "rpc_Dispose st' rs"]
    by (rule same_try [OF same_RunAsync [OF dispose]]) (simp add: same_return)
  moreover have "blurs (=) (task_result f) (task_result g)" using assms by (simp add: same_future_def)
  ultimately show ?thesis
    by (cases "task_result f") (auto simp: destroy_value_def same_return)
qed

lemma same_dispose:
  "same same_table (=) (dispose (CreateRemoteExecutor st sch) h) (dispose (CreateRemoteExecutor st' sch) h)"
proof (rule sameI)
  fix s t :: "(RemoteValue, 's) base_state"
  assume st: "same_table s t"
  let ?drop = "\<lambda>b :: (RemoteValue, 's) base_state. b\<lparr>tracked_values := (tracked_values b)(h := None)\<rparr>"
  have dropped: "same_table (?drop s) (?drop t)" using st by (simp add: same_table_def)
  have "rel_option same_future (tracked_values s h) (tracked_values t h)"
    using st by (simp add: same_table_def)
  then show "blurs (=) (fst (dispose (CreateRemoteExecutor st sch) h s)) (fst (dispose (CreateRemoteExecutor st' sch) h t)) \<and>
      same_table (snd (dispose (CreateRemoteExecutor st sch) h s)) (snd (dispose (CreateRemoteExecutor st' sch) h t))"
    using st sameD [OF same_in_sub [OF same_destroy] dropped]
    by (cases "tracked_values s h"; cases "tracked_values t h")
      (simp_all add: remote_dispose_def base_dispose_def GENC_TRY_apply)
qed

lemma same_finally_release:
  assumes "same same_table P p q"
  shows "same same_table P (finally_release (CreateRemoteExecutor st sch) hs p)
    (finally_release (CreateRemoteExecutor st' sch) hs q)"
proof (rule sameI)
  fix s t :: "(RemoteValue, 's) base_state"
  assume st: "same_table s t"
  have released: "same_table (release_handles (CreateRemoteExecutor st sch) hs s)
      (release_handles (CreateRemoteExecutor st' sch) hs t)" if "same_table s t" for s t
    using that by (induction hs arbitrary: s t) (simp_all add: release_handles_def sameD [OF same_dispose] del: CreateRemoteExecutor_sel)
  obtain x s' y t' where e: "p s = (x, s')" "q t = (y, t')" by fastforce
  have "blurs P x y" "same_table s' t'" using sameD [OF assms st] e by simp_all
  then show "blurs P (fst (finally_release (CreateRemoteExecutor st sch) hs p s))
        (fst (finally_release (CreateRemoteExecutor st' sch) hs q t)) \<and>
      same_table (snd (finally_release (CreateRemoteExecutor st sch) hs p s))
        (snd (finally_release (CreateRemoteExecutor st' sch) hs q t))"
    using released by (cases x) (auto simp: finally_release_def e)
qed

text \<open>So a run over one stub is a run over the other.\<close>

lemma same_run:
  "same same_table (=) (RunInternal (CreateRemoteExecutor st sch) computation arg)
     (RunInternal (CreateRemoteExecutor st' sch) computation arg)"
  unfolding RunInternal_def
  by (rule same_try [OF same_create_value], hypsubst, rule same_finally_release,
      rule same_try [OF same_create_value], hypsubst, rule same_finally_release,
      rule same_try [OF same_create_call], hypsubst, rule same_finally_release,
      rule same_materialize)

end

section \<open>The Oak channel\<close>

lemma same_tunnelled: "same (=) (=) (status_or call) (status_or (tunnelled r0 call))"
  by (rule sameI) (auto simp: tunnelled_def status_or_def GENC_TRY_apply lift_apply return_apply
      GrpcToAbslStatus_def AbslToGrpcStatus_def grpc_ok_def split: prod.splits outcome.splits option.splits)

interpretation tunnelled: same_values st "tunnel st" for st :: "'s stub"
  by unfold_locales (simp_all add: tunnel_def same_tunnelled)

section \<open>A run behind the channel\<close>

text \<open>The executor that a client makes of a connection to an Oak service.\<close>

definition oak_executor ::
  "('kp, 'q, 'x, 'e, ('v, 's) base_state) oak_lib \<Rightarrow> ('kp, ('v, 's) base_state) oak_service \<Rightarrow> (string \<Rightarrow> 'q)
     \<Rightarrow> (string \<Rightarrow> 'e \<Rightarrow> string outcome) \<Rightarrow> (ValueId, ('v, 's) remote_state) executor" where
  "oak_executor K sv seal unseal =
     CreateRemoteExecutor (OakClient K (sealed_invoke K sv seal unseal) False) thread_based"

lemma oak_run_future:
  assumes "wire_format K" and "seals K (encryption_provider sv) seal unseal" and "\<not> service_debug sv"
    and "executor_service sv = server A impl" and "number_codec (StrCat_id A) (SimpleAtoi_id A)" and "room_both 3 b"
    and "RunInternal (oak_executor K sv seal unseal) computation arg b = (r, b')"
  defines "fr \<equiv> future_run impl computation arg (sub_state (sub_state b))"
  shows "blurs (=) (fst fr) r \<and> sub_state (sub_state b') = snd fr \<and>
    ((\<exists>v. r = Ok v) \<or> (\<exists>e. r = Err e) \<longrightarrow> dom (tracked_values b') = dom (tracked_values b) \<and>
      tracked_values (sub_state b') = tracked_values (sub_state b))"
proof -
  have ex: "oak_executor K sv seal unseal = CreateRemoteExecutor (tunnel (server A impl)) thread_based"
    by (simp add: oak_executor_def OakClient_tunnel [OF assms(1-3)] assms(4))
  obtain r0 b0 where run: "RunInternal (client A impl) computation arg b = (r0, b0)"
    by (cases "RunInternal (client A impl) computation arg b")
  have "blurs (=) r0 r" and t: "same_table b0 b'"
    using sameD [OF tunnelled.same_run [of "server A impl" thread_based computation arg] same_table_refl [of b]]
      assms(7) run by (simp_all add: ex client_def)
  moreover have "restores_both b (r0, b0) fr"
    using remote_run_future [OF assms(5,6), of impl computation arg] run by (simp add: fr_def)
  ultimately have r: "blurs (=) (fst fr) r" "sub_state (sub_state b') = snd fr"
    and kept: "(\<exists>v. r = Ok v) \<or> (\<exists>e. r = Err e) \<Longrightarrow> tracked_values b0 = tracked_values b \<and>
      tracked_values (sub_state b') = tracked_values (sub_state b)"
    by (auto simp: restores_both_def same_table_def split: outcome.splits)
  moreover have "dom (tracked_values b') = dom (tracked_values b0)"
    by (rule same_table_dom [OF t, symmetric])
  ultimately show ?thesis by auto
qed


text \<open>A worker that serves negation over the channel that \<open>Oak\<close> opens, and its state.\<close>

definition negation_call :: pvalue where
  "negation_call = plain (KIntrinsic (IntrinsicPb kLogicalNot None))"

definition worker_state :: "(pvalue task, unit process) remote_state" where
  "worker_state = initial_state (initial_state new_process)"

lemma worker_contract:
  "wire_format (box_lib :: (string, string \<times> string, unit, string, 's) oak_lib)"
  "seals (box_lib :: (string, string \<times> string, unit, string, 's) oak_lib)
     (encryption_provider negation_service) (Pair ''k1'') (\<lambda>_. Ok)"
  "\<not> service_debug negation_service"
  "executor_service negation_service = server decimal_atoi negation_stack"
  "number_codec (StrCat_id decimal_atoi) (SimpleAtoi_id decimal_atoi)"
  "tracked_inv worker_state" "unat (next_value_id worker_state) + 3 < 2 ^ 64"
  "tracked_inv (sub_state worker_state)" "unat (next_value_id (sub_state worker_state)) + 3 < 2 ^ 64"
  using box_lib_contract
  by (simp_all add: negation_service_def decimal_atoi_def dec64.number_codec_axioms worker_state_def
      tracked_inv_def initial_state_def)

lemma worker_negates:
  "run_values negation_stack negation_call (plain (KBoolean True)) (sub_state (sub_state worker_state)) =
     (Ok (plain (KBoolean False)), new_process)"
proof -
  have s: "sub_state (sub_state worker_state) = new_process" by (simp add: worker_state_def initial_state_def)
  show ?thesis unfolding s negation_call_def by (rule run_negation)
qed


section \<open>The confidential computation intrinsic\<close>

text \<open>
  The intrinsic takes the steps of a run on the remote executor but lets its handles die
  with it; the outcome is that of the run.
\<close>

lemma fst_finally_release: "fst (finally_release ex hs p s) = fst (p s)"
  by (simp add: finally_release_def split: prod.split outcome.split)

lemma fst_GENC_TRY_cong:
  "(\<And>x t. p s = (Ok x, t) \<Longrightarrow> fst (f x t) = fst (g x t)) \<Longrightarrow> fst (GENC_TRY p f s) = fst (GENC_TRY p g s)"
  by (cases "p s") (auto simp: GENC_TRY_apply split: outcome.split)

lemma run_outcome_session:
  "fst (RunInternal ex computation arg s) =
   try_value (fst (remote_session ex computation arg s)) (\<lambda>r. Ok (or_default r))"
proof -
  have "fst (RunInternal ex computation arg s) =
      fst (GENC_TRY (remote_session ex computation arg) (\<lambda>r. return (or_default r)) s)"
    unfolding RunInternal_def remote_session_def GENC_TRY_assoc
    by (intro fst_GENC_TRY_cong, simp only: fst_finally_release)+
      (simp add: Materialize_pb_def or_default_def GENC_TRY_apply return_apply split: prod.split outcome.split option.split)
  then show ?thesis
    by (cases "remote_session ex computation arg s"; cases "fst (remote_session ex computation arg s)")
      (auto simp: GENC_TRY_apply return_apply)
qed

lemma in_sub_eq_Ok:
  "in_sub p b = (Ok x, b') \<longleftrightarrow> (\<exists>s'. p (sub_state b) = (Ok x, s') \<and> b' = b\<lparr>sub_state := s'\<rparr>)"
  by (auto simp: in_sub_def split: prod.splits)

text \<open>The remote executor never leaves the output message unset.\<close>

lemma session_sets_result:
  assumes "fst (remote_session (oak_executor K sv seal unseal) computation arg b) = Ok r"
  shows "r \<noteq> None"
proof -
  obtain b' where "remote_session (oak_executor K sv seal unseal) computation arg b = (Ok r, b')"
    using assms by (metis prod.collapse)
  then obtain s h c where "materialize (oak_executor K sv seal unseal) h True s = (Ok r, c)"
    unfolding remote_session_def GENC_TRY_eq_Ok by blast
  then obtain fut t t' where
    "Remote_Materialize (OakClient K (sealed_invoke K sv seal unseal) False) fut True t = (Ok r, t')"
    by (auto simp: oak_executor_def base_materialize_def GENC_TRY_eq_Ok in_sub_eq_Ok)
  then show ?thesis
    by (auto simp: Remote_Materialize_def GENC_TRY_eq_Ok return_apply lift_apply split: option.splits)
qed

text \<open>
  C11: a confidential computation gives what the server computes. When the configuration
  names a server, the connection to it is the Oak channel to an executor service, and
  running the computation on the server's executor gives a value, then the confidential
  computation intrinsic gives that value, and writes nothing.
\<close>

theorem confidential_computation_is_remote:
  assumes "wire_format K" and "seals K (encryption_provider sv) seal unseal" and "\<not> service_debug sv"
    and "executor_service sv = server A impl" and "number_codec (StrCat_id A) (SimpleAtoi_id A)"
    and "tracked_inv b" and "unat (next_value_id b) + 3 < 2 ^ 64"
    and "tracked_inv (sub_state b)" and "unat (next_value_id (sub_state b)) + 3 < 2 ^ 64"
    and "ConfidentialComputation_CheckWellFormed i = Ok ()"
    and "read_config (struct_elements (params i ! 1)) ([], []) = (address, digest)" and "address \<noteq> []"
    and "oak_connect lib address (if digest \<noteq> [] then Some digest else None) = Ok (oak_executor K sv seal unseal, b)"
    and "run_values impl (params i ! 0) arg (sub_state (sub_state b)) = (Ok v, s')"
  shows "ConfidentialComputation_ExecuteCall (Ok ()) lib i arg result out = (Ok v, out)"
proof -
  have room: "room_both 3 b" using assms by (simp add: room_both_def room_for_def)
  obtain r b' where run: "RunInternal (oak_executor K sv seal unseal) (params i ! 0) arg b = (r, b')"
    by (cases "RunInternal (oak_executor K sv seal unseal) (params i ! 0) arg b")
  have "r = Ok v"
    using oak_run_future [OF assms(1-5) room run]
      future_run_Ok [of impl "params i ! 0" arg "sub_state (sub_state b)" v s'] assms(14) by simp
  with run run_outcome_session [of "oak_executor K sv seal unseal" "params i ! 0" arg b]
  obtain w where w: "fst (remote_session (oak_executor K sv seal unseal) (params i ! 0) arg b) = Ok w" "or_default w = v"
    by (cases "fst (remote_session (oak_executor K sv seal unseal) (params i ! 0) arg b)") auto
  have "w = Some v"
    using session_sets_result [OF w(1)] w(2) by (auto simp: or_default_def)
  moreover have "length (params i) = 2"
    using assms(10) by (auto simp: ConfidentialComputation_CheckWellFormed_def split: if_splits)
  ultimately show ?thesis
    using assms(11-13) w(1)
    by (simp add: ConfidentialComputation_ExecuteCall_def GENC_TRY_apply lift_apply return_apply)
qed

definition confidential_negation :: intrinsic_pb where
  "confidential_negation = IntrinsicPb kConfidentialComputation (Some (plain (KStruct
     [negation_call, plain (KStruct [set_label kServerAddressLabel (plain (KStr ''host:1''))])])))"

definition worker_libs :: "(pvalue task, unit process) remote_state libs" where
  "worker_libs = \<lparr>PartialMatch = PartialMatch sample_libs, FindAndConsume = FindAndConsume sample_libs,
     StrReplaceAll = StrReplaceAll sample_libs, json_parse = json_parse sample_libs,
     inja_render = inja_render sample_libs, libcurl = libcurl sample_libs,
     oak_connect = (\<lambda>address digest.
       if address = ''host:1'' then Ok (oak_executor box_lib negation_service (Pair ''k1'') (\<lambda>_. Ok), worker_state)
       else InternalError [])\<rparr>"

lemma confidential_computation_is_remote_witness:
  "ConfidentialComputation_ExecuteCall (Ok ()) worker_libs confidential_negation (plain (KBoolean True))
     empty_value new_process = (Ok (plain (KBoolean False)), new_process)"
proof (rule confidential_computation_is_remote [OF worker_contract])
  have params: "params confidential_negation =
      [negation_call, plain (KStruct [set_label kServerAddressLabel (plain (KStr ''host:1''))])]"
    by (simp add: confidential_negation_def static_parameter_def or_default_def)
  show "ConfidentialComputation_CheckWellFormed confidential_negation = Ok ()"
    unfolding ConfidentialComputation_CheckWellFormed_def params
    by (simp add: confidential_negation_def static_parameter_def or_default_def kServerAddressLabel_def)
  show "read_config (struct_elements (params confidential_negation ! 1)) ([], []) = (''host:1'', [])"
    unfolding params by simp
  show "''host:1'' \<noteq> []" by simp
  show "oak_connect worker_libs ''host:1'' (if [] \<noteq> [] then Some [] else None) =
      Ok (oak_executor box_lib negation_service (Pair ''k1'') (\<lambda>_. Ok), worker_state)"
    by (simp add: worker_libs_def)
  show "run_values negation_stack (params confidential_negation ! 0) (plain (KBoolean True))
      (sub_state (sub_state worker_state)) = (Ok (plain (KBoolean False)), new_process)"
    unfolding params using worker_negates by simp
qed

end
