(* ===== verification/Llamacpp.thy ===== *)
theory Llamacpp
  imports Inline_Intrinsics
begin

text \<open>
  \<^verbatim>\<open>genc/cc/interop/backends/llamacpp.cc\<close>: the model backend around llama.cpp, with its
  loop that samples a token, appends its text and feeds it back. The library is a
  parameter: its models \<open>'m\<close>, contexts \<open>'c\<close> and floating-point logits \<open>'f\<close>. Log output is
  left out.
\<close>

section \<open>The library\<close>

type_synonym llama_token = i32

text \<open>An entry of a batch: the token, its position and whether its logits are wanted.\<close>

type_synonym batch_entry = "llama_token \<times> int \<times> bool"

text \<open>
  Calls that fill a buffer get its size and give back the returned count and the buffer
  as it is afterwards.
\<close>

record ('m, 'c, 'f) llama_lib =
  load_model_from_file :: "string \<Rightarrow> 'm option"
  new_context_with_model :: "'m \<Rightarrow> int \<Rightarrow> 'c option"
  kv_cache_clear :: "'c \<Rightarrow> 'c"
  tokenize :: "'m \<Rightarrow> string \<Rightarrow> nat \<Rightarrow> int \<times> llama_token list"
  n_ctx :: "'c \<Rightarrow> nat"
  n_batch :: "'c \<Rightarrow> nat"
  decode :: "batch_entry list \<Rightarrow> 'c \<Rightarrow> bool \<times> 'c"
  n_vocab :: "'m \<Rightarrow> nat"
  get_logits_ith :: "'c \<Rightarrow> int \<Rightarrow> nat \<Rightarrow> 'f"
  float_zero :: 'f
  sample_token_greedy :: "(llama_token \<times> 'f) list \<Rightarrow> llama_token"
  token_eos :: "'m \<Rightarrow> llama_token"
  token_to_piece :: "'m \<Rightarrow> llama_token \<Rightarrow> nat \<Rightarrow> int \<times> string"

definition kMaxTokenLength :: nat where
  "kMaxTokenLength = 32"

text \<open>\<open>vector::resize\<close> cuts the vector or fills it up.\<close>

definition resize :: "'a \<Rightarrow> nat \<Rightarrow> 'a list \<Rightarrow> 'a list" where
  "resize z n xs = take n xs @ replicate (n - length xs) z"

text \<open>A batch has room for a fixed number of entries; writing past it is undefined.\<close>

definition llama_batch_add ::
  "nat \<Rightarrow> llama_token \<Rightarrow> int \<Rightarrow> bool \<Rightarrow> batch_entry list \<Rightarrow> batch_entry list outcome" where
  "llama_batch_add capacity token pos logits batch =
     (if length batch < capacity then Ok (batch @ [(token, pos, logits)]) else Crash IndexOutOfRange)"

section \<open>The client\<close>

record ('m, 'c) llama_client =
  model :: "'m option"
  context_ptr :: "'c option"
  max_tokens :: int

definition fresh_client :: "('m, 'c) llama_client" where
  "fresh_client = \<lparr>model = None, context_ptr = None, max_tokens = 0\<rparr>"

definition is_initialized :: "('m, 'c) llama_client \<Rightarrow> bool" where
  "is_initialized c \<longleftrightarrow> context_ptr c \<noteq> None \<and> model c \<noteq> None"

definition getIntParam :: "(string \<Rightarrow> i32 option) \<Rightarrow> pvalue \<Rightarrow> int outcome" where
  "getIntParam atoi param =
     (if has_int_32 param then Ok (sint (int_32 param))
      else if has_str param then
        (case atoi (str param) of
           Some n \<Rightarrow> Ok (sint n)
         | None \<Rightarrow> InvalidArgumentError [Txt ''Unable to parse param''])
      else InvalidArgumentError [Txt ''Invalid param type''])"

definition InitModel ::
  "('m, 'c, 'f) llama_lib \<Rightarrow> string \<Rightarrow> int \<Rightarrow> int \<Rightarrow> (('m, 'c) llama_client, unit) prog" where
  \<open>InitModel L model_path num_threads max_toks c =
     (case load_model_from_file L model_path of
        None \<Rightarrow> (InvalidArgumentError [Txt ''LlamaCpp unable to load a model from file "'',
           Txt model_path, Txt ''" with the default params.''], c\<lparr>model := None\<rparr>)
      | Some m \<Rightarrow> (Ok (), \<lparr>model = Some m, context_ptr = new_context_with_model L m num_threads,
                         max_tokens = max_toks\<rparr>))\<close>

text \<open>The settings read from the elements of the configuration; a bad number keeps the default.\<close>

fun read_llama_param ::
  "(string \<Rightarrow> i32 option) \<Rightarrow> pvalue \<Rightarrow> string \<times> int \<times> int \<Rightarrow> string \<times> int \<times> int" where
  "read_llama_param atoi param (path, threads, toks) =
     (if label param = ''model_path'' then (str param, threads, toks)
      else if label param = ''num_threads'' then
        (path, case getIntParam atoi param of Ok n \<Rightarrow> n | _ \<Rightarrow> threads, toks)
      else if label param = ''max_tokens'' then
        (path, threads, case getIntParam atoi param of Ok n \<Rightarrow> n | _ \<Rightarrow> toks)
      else (path, threads, toks))"

definition InitModel_config ::
  "('m, 'c, 'f) llama_lib \<Rightarrow> (string \<Rightarrow> i32 option) \<Rightarrow> pvalue
     \<Rightarrow> (('m, 'c) llama_client, unit) prog" where
  "InitModel_config L atoi config =
     (case fold (read_llama_param atoi) (struct_elements config) ([], 1, 32) of
        (path, threads, toks) \<Rightarrow> InitModel L path threads toks)"

definition CreateRequest :: "string \<Rightarrow> pvalue" where
  "CreateRequest prompt = set_label ''prompt'' (set_case (KStr prompt) empty_value)"

section \<open>A call\<close>

definition tokenize_prompt :: "('m, 'c, 'f) llama_lib \<Rightarrow> 'm \<Rightarrow> string \<Rightarrow> llama_token list" where
  "tokenize_prompt L m prompt =
     (case tokenize L m prompt (length prompt + 1) of (n, tokens) \<Rightarrow>
        if n < 0 then snd (tokenize L m prompt (nat (- n))) else resize 0 (nat n) tokens)"

fun add_prompt ::
  "nat \<Rightarrow> llama_token list \<Rightarrow> int \<Rightarrow> batch_entry list \<Rightarrow> batch_entry list outcome" where
  "add_prompt capacity [] i batch = Ok batch"
| "add_prompt capacity (t # ts) i batch =
     try_value (llama_batch_add capacity t i False batch) (add_prompt capacity ts (i + 1))"

text \<open>\<open>batch.logits[batch.n_tokens - 1] = true\<close>\<close>

fun want_last_logits :: "batch_entry list \<Rightarrow> batch_entry list outcome" where
  "want_last_logits [] = Crash IndexOutOfRange"
| "want_last_logits [(t, p, l)] = Ok [(t, p, True)]"
| "want_last_logits (e # es) = try_value (want_last_logits es) (\<lambda>es'. Ok (e # es'))"

text \<open>
  The vector of candidates is constructed with \<open>n_vocab\<close> zero entries, and the entry of
  every token is appended behind them.
\<close>

definition candidates :: "('m, 'c, 'f) llama_lib \<Rightarrow> 'm \<Rightarrow> (nat \<Rightarrow> 'f) \<Rightarrow> (llama_token \<times> 'f) list" where
  "candidates L m logits =
     replicate (n_vocab L m) (0, float_zero L)
     @ map (\<lambda>i. (of_nat i, logits i)) [0..<n_vocab L m]"

definition sample :: "('m, 'c, 'f) llama_lib \<Rightarrow> 'm \<Rightarrow> int \<Rightarrow> 'c \<Rightarrow> llama_token" where
  "sample L m i ctx = sample_token_greedy L (candidates L m (get_logits_ith L ctx i))"

definition piece_of :: "('m, 'c, 'f) llama_lib \<Rightarrow> 'm \<Rightarrow> llama_token \<Rightarrow> string" where
  "piece_of L m token =
     (case token_to_piece L m token kMaxTokenLength of (n_chars, piece) \<Rightarrow>
        if n_chars < 0 then snd (token_to_piece L m token (nat (- n_chars)))
        else resize (CHR 0x00) (nat n_chars) piece)"

text \<open>
  The prediction loop, with the number of entries of the batch whose last logits are
  read. It ends because the number of tokens grows towards the limit.
\<close>

function predict ::
  "('m, 'c, 'f) llama_lib \<Rightarrow> 'm \<Rightarrow> int \<Rightarrow> int \<Rightarrow> int \<Rightarrow> string list \<Rightarrow> ('c, string list) prog" where
  "predict L m limit n_current batch_n result ctx =
     (if n_current \<le> limit then
        let new_token_id = sample L m (batch_n - 1) ctx
        in if new_token_id = token_eos L m then (Ok result, ctx)
           else case llama_batch_add (n_batch L ctx) new_token_id n_current True [] of
             Ok batch \<Rightarrow> (case decode L batch ctx of
                 (True, ctx') \<Rightarrow> (InternalError [Txt ''Failed to eval batch''], ctx')
               | (False, ctx') \<Rightarrow>
                   predict L m limit (n_current + 1) 1 (result @ [piece_of L m new_token_id]) ctx')
           | Err e \<Rightarrow> (Err e, ctx)
           | Crash c \<Rightarrow> (Crash c, ctx)
           | Diverge \<Rightarrow> (Diverge, ctx)
      else (Ok result, ctx))"
  by pat_completeness auto
termination
  by (relation "measure (\<lambda>(L, m, limit, n_current, batch_n, result, ctx). nat (limit + 1 - n_current))") auto

declare predict.simps [simp del]

text \<open>The call on a context, after the check that there is one.\<close>

definition run_prompt ::
  "('m, 'c, 'f) llama_lib \<Rightarrow> 'm \<Rightarrow> int \<Rightarrow> string \<Rightarrow> ('c, string list) prog" where
  "run_prompt L m limit prompt ctx0 =
     (let ctx = kv_cache_clear L ctx0; tokens = tokenize_prompt L m prompt
      in if length tokens > n_ctx L ctx
         then (InternalError [Txt ''Prompt length is too large for context''], ctx)
         else GENC_TRY (lift (try_value (add_prompt (n_batch L ctx) tokens 0 []) want_last_logits)) (\<lambda>batch c.
           case decode L batch c of
             (True, c') \<Rightarrow> (InternalError [Txt ''llama_decode() of initial prompt failed''], c')
           | (False, c') \<Rightarrow>
               predict L m limit (int (length batch)) (int (length batch)) [] c') ctx)"

definition LlamaCppCall ::
  "('m, 'c, 'f) llama_lib \<Rightarrow> pvalue \<Rightarrow> (('m, 'c) llama_client, pvalue) prog" where
  "LlamaCppCall L input client =
     (case (context_ptr client, model client) of
        (Some ctx, Some m) \<Rightarrow> (case run_prompt L m (max_tokens client) (str input) ctx of
            (r, ctx') \<Rightarrow> (try_value r (\<lambda>result. Ok (set_case (KStr (concat result)) empty_value)),
                        client\<lparr>context_ptr := Some ctx'\<rparr>))
      | _ \<Rightarrow> (InternalError [Txt ''LlamaCpp wasn't initialized.''], client))"

definition SetInferenceMap ::
  "('m, 'c, 'f) llama_lib \<Rightarrow> string
     \<Rightarrow> (string \<rightharpoonup> (pvalue \<Rightarrow> (('m, 'c) llama_client, pvalue) prog))
     \<Rightarrow> (string \<rightharpoonup> (pvalue \<Rightarrow> (('m, 'c) llama_client, pvalue) prog))" where
  "SetInferenceMap L model_uri inference_map = inference_map(model_uri \<mapsto> LlamaCppCall L)"

section \<open>The shared client\<close>

text \<open>The process-wide pointer to the client, which the first call creates.\<close>

definition CallLlamaCpp ::
  "('m, 'c, 'f) llama_lib \<Rightarrow> (string \<Rightarrow> i32 option) \<Rightarrow> pvalue \<Rightarrow> pvalue
     \<Rightarrow> (('m, 'c) llama_client option, pvalue) prog" where
  "CallLlamaCpp L atoi config arg shared =
     (let client = (case shared of Some c \<Rightarrow> c | None \<Rightarrow> fresh_client)
      in case GENC_TRY (if is_initialized client then return () else InitModel_config L atoi config)
                (\<lambda>_. LlamaCppCall L arg) client of
           (r, client') \<Rightarrow> (r, Some client'))"

definition GetLlamaCppInferenceFn ::
  "('m, 'c, 'f) llama_lib \<Rightarrow> (string \<Rightarrow> i32 option) \<Rightarrow> intrinsic_pb \<Rightarrow> pvalue
     \<Rightarrow> (('m, 'c) llama_client option, pvalue) prog" where
  "GetLlamaCppInferenceFn L atoi intrinsic_pb arg =
     GENC_TRY (lift (element (struct_elements (static_parameter intrinsic_pb)) 1)) (\<lambda>config.
       CallLlamaCpp L atoi config arg)"

section \<open>What the loop generates\<close>

text \<open>
  The reference: tokens are sampled and fed back one after the other, each at the next
  position; \<open>k\<close> is the number of entries of the batch that was evaluated last.
\<close>

inductive generates ::
  "('m, 'c, 'f) llama_lib \<Rightarrow> 'm \<Rightarrow> int \<Rightarrow> int \<Rightarrow> 'c \<Rightarrow> llama_token list \<Rightarrow> int \<Rightarrow> 'c \<Rightarrow> bool"
  for L :: "('m, 'c, 'f) llama_lib" and m :: 'm where
  generates_Nil: "generates L m n k ctx [] k ctx"
| generates_Cons: "sample L m (k - 1) ctx = t \<Longrightarrow> t \<noteq> token_eos L m \<Longrightarrow> 0 < n_batch L ctx \<Longrightarrow>
    decode L [(t, n, True)] ctx = (False, ctx1) \<Longrightarrow> generates L m (n + 1) 1 ctx1 ts k' ctx' \<Longrightarrow>
    generates L m n k ctx (t # ts) k' ctx'"

inductive_simps generates_simps:
  "generates L m n k ctx [] k' ctx'"
  "generates L m n k ctx (t # ts) k' ctx'"

lemma predict_done: "\<not> n \<le> limit \<Longrightarrow> predict L m limit n k res ctx = (Ok res, ctx)"
  by (subst predict.simps) simp

lemma predict_eos:
  "n \<le> limit \<Longrightarrow> sample L m (k - 1) ctx = token_eos L m \<Longrightarrow> predict L m limit n k res ctx = (Ok res, ctx)"
  by (subst predict.simps) simp

lemma predict_step:
  assumes "n \<le> limit" and "sample L m (k - 1) ctx = t" and "t \<noteq> token_eos L m"
  shows "predict L m limit n k res ctx =
    (if n_batch L ctx = 0 then (Crash IndexOutOfRange, ctx)
     else case decode L [(t, n, True)] ctx of
       (True, ctx') \<Rightarrow> (InternalError [Txt ''Failed to eval batch''], ctx')
     | (False, ctx') \<Rightarrow> predict L m limit (n + 1) 1 (res @ [piece_of L m t]) ctx')"
  using assms by (subst predict.simps) (simp add: llama_batch_add_def Let_def)

lemma predict_Ok:
  assumes "predict L m limit n k res ctx = (Ok out, ctx')"
  shows "\<exists>ts k'. generates L m n k ctx ts k' ctx' \<and> out = res @ map (piece_of L m) ts
    \<and> int (length ts) \<le> max 0 (limit + 1 - n)
    \<and> (int (length ts) = max 0 (limit + 1 - n) \<or> sample L m (k' - 1) ctx' = token_eos L m)"
  using assms
proof (induction "nat (limit + 1 - n)" arbitrary: n k res ctx)
  case 0
  then have "\<not> n \<le> limit" by simp
  then show ?case using "0.prems" by (auto simp: predict_done intro!: exI [of _ "[]"] generates_Nil)
next
  case (Suc d)
  then have n: "n \<le> limit" by simp
  show ?case
  proof (cases "sample L m (k - 1) ctx = token_eos L m")
    case True
    then show ?thesis using Suc.prems n
      by (auto simp: predict_eos intro!: exI [of _ "[]"] generates_Nil)
  next
    case False
    then obtain ctx1 where b: "0 < n_batch L ctx"
      and d: "decode L [(sample L m (k - 1) ctx, n, True)] ctx = (False, ctx1)"
      and p: "predict L m limit (n + 1) 1 (res @ [piece_of L m (sample L m (k - 1) ctx)]) ctx1 = (Ok out, ctx')"
      using Suc.prems predict_step [OF n refl False]
      by (auto split: if_splits prod.splits bool.splits)
    have "d = nat (limit + 1 - (n + 1))" using Suc.hyps(2) by simp
    from Suc.hyps(1) [OF this p] obtain ts k' where
      g: "generates L m (n + 1) 1 ctx1 ts k' ctx'"
      "out = (res @ [piece_of L m (sample L m (k - 1) ctx)]) @ map (piece_of L m) ts"
      "int (length ts) \<le> max 0 (limit + 1 - (n + 1))"
      "int (length ts) = max 0 (limit + 1 - (n + 1)) \<or> sample L m (k' - 1) ctx' = token_eos L m"
      by blast
    show ?thesis
      using g n generates_Cons [OF refl False b d g(1)]
      by (intro exI [of _ "sample L m (k - 1) ctx # ts"] exI [of _ k']) auto
  qed
qed

lemma generates_no_eos: "generates L m n k ctx ts k' ctx' \<Longrightarrow> token_eos L m \<notin> set ts"
  by (induction rule: generates.induct) auto

lemma generates_index: "generates L m n k ctx ts k' ctx' \<Longrightarrow> k' = (if ts = [] then k else 1)"
  by (induction rule: generates.induct) auto

section \<open>The batch of the prompt\<close>

text \<open>The tokens of the prompt at their positions; only the last one's logits are wanted.\<close>

definition prompt_batch :: "llama_token list \<Rightarrow> batch_entry list" where
  "prompt_batch ts = map (\<lambda>j. (ts ! j, int j, Suc j = length ts)) [0..<length ts]"

lemma add_prompt_room:
  "length batch + length ts \<le> capacity \<Longrightarrow>
   add_prompt capacity ts i batch =
     Ok (batch @ map (\<lambda>j. (ts ! j, i + int j, False)) [0..<length ts])"
proof (induction ts arbitrary: i batch)
  case (Cons t ts)
  then show ?case
    by (simp add: llama_batch_add_def upt_conv_Cons map_Suc_upt [symmetric] o_def add.assoc del: upt_Suc)
qed simp

lemma add_prompt_overflow:
  "capacity < length batch + length ts \<Longrightarrow> length batch \<le> capacity \<Longrightarrow>
   add_prompt capacity ts i batch = Crash IndexOutOfRange"
  by (induction ts arbitrary: i batch) (auto simp: llama_batch_add_def)

lemma want_last_logits_snoc: "want_last_logits (es @ [(t, p, l)]) = Ok (es @ [(t, p, True)])"
proof (induction es)
  case (Cons e es)
  then show ?case by (cases es) (cases e; simp)+
qed simp

lemma prompt_batch_built:
  "try_value (add_prompt capacity ts 0 []) want_last_logits =
     (if ts = [] \<or> capacity < length ts then Crash IndexOutOfRange else Ok (prompt_batch ts))"
proof (cases "ts = [] \<or> capacity < length ts")
  case True
  then show ?thesis by (auto simp: add_prompt_overflow)
next
  case False
  then obtain n where n: "length ts = Suc n" by (cases ts) auto
  have "map (\<lambda>j. (ts ! j, int j, False)) [0..<n] = map (\<lambda>j. (ts ! j, int j, j = n)) [0..<n]"
    by (rule map_cong) auto
  then show ?thesis
    using False n add_prompt_room [of "[]" ts capacity 0]
    by (simp add: want_last_logits_snoc prompt_batch_def)
qed

lemma length_prompt_batch [simp]: "length (prompt_batch ts) = length ts"
  by (simp add: prompt_batch_def)

lemma run_prompt_Ok:
  assumes "run_prompt L m limit prompt ctx0 = (Ok out, ctx')"
  defines "tokens \<equiv> tokenize_prompt L m prompt"
  shows "\<exists>ctx1. decode L (prompt_batch tokens) (kv_cache_clear L ctx0) = (False, ctx1)
    \<and> predict L m limit (int (length tokens)) (int (length tokens)) [] ctx1 = (Ok out, ctx')"
  using assms(1) unfolding run_prompt_def Let_def tokens_def [symmetric] prompt_batch_built
  by (auto simp: GENC_TRY_apply lift_def split: if_splits prod.splits bool.splits)


section \<open>Greedy sampling\<close>

text \<open>The sampler of the library returns the token of an entry with the largest logit.\<close>

definition picks_largest :: "((llama_token \<times> 'f::linorder) list \<Rightarrow> llama_token) \<Rightarrow> bool" where
  "picks_largest greedy \<longleftrightarrow>
     (\<forall>cs. cs \<noteq> [] \<longrightarrow> (\<exists>x \<in> set cs. greedy cs = fst x \<and> (\<forall>y \<in> set cs. snd y \<le> snd x)))"

lemma picks_largestD:
  "picks_largest greedy \<Longrightarrow> cs \<noteq> [] \<Longrightarrow>
   \<exists>x \<in> set cs. greedy cs = fst x \<and> (\<forall>y \<in> set cs. snd y \<le> snd x)"
  by (simp add: picks_largest_def)

lemma set_candidates:
  "0 < n_vocab L m \<Longrightarrow> set (candidates L m logits) =
     insert (0, float_zero L) ((\<lambda>i. (of_nat i, logits i)) ` {..<n_vocab L m})"
  by (auto simp: candidates_def)

text \<open>
  With a greedy sampler, the backend takes a token with the largest logit as long as
  some logit is positive. When all logits are negative it takes token 0, whatever its
  logit: the vector of candidates starts with as many zero entries as there are tokens.
\<close>

lemma sample_phantom_candidates:
  fixes L :: "('m, 'c, 'f::linorder) llama_lib"
  assumes greedy: "picks_largest (sample_token_greedy L)" and vocab: "0 < n_vocab L m"
    and logits: "logits = get_logits_ith L ctx i"
  shows "((\<exists>j < n_vocab L m. float_zero L < logits j) \<longrightarrow>
      (\<exists>j < n_vocab L m. sample L m i ctx = of_nat j \<and> (\<forall>j' < n_vocab L m. logits j' \<le> logits j)))
    \<and> ((\<forall>j < n_vocab L m. logits j < float_zero L) \<longrightarrow> sample L m i ctx = 0)"
proof -
  have "candidates L m logits \<noteq> []"
    using vocab by (simp add: candidates_def)
  from picks_largestD [OF greedy this] obtain x where x: "x \<in> set (candidates L m logits)"
    and s: "sample L m i ctx = fst x" and top: "\<forall>y \<in> set (candidates L m logits). snd y \<le> snd x"
    by (auto simp: sample_def logits)
  have top: "float_zero L \<le> snd x" "\<And>j. j < n_vocab L m \<Longrightarrow> logits j \<le> snd x"
    using top by (simp_all add: set_candidates [OF vocab])
  show ?thesis
  proof (cases "x = (0, float_zero L)")
    case True
    then show ?thesis using s top by (auto simp: not_less [symmetric])
  next
    case False
    then obtain j where "j < n_vocab L m" "x = (of_nat j, logits j)"
      using x by (auto simp: set_candidates [OF vocab])
    then show ?thesis using s top by (auto simp: not_less [symmetric])
  qed
qed

section \<open>A small model\<close>

text \<open>
  A model with four tokens, the last of them the end token, that prefers token 2 until
  five tokens are in its cache and the end token from then on; each character of the
  prompt is a token.
\<close>

definition greedy_int :: "(llama_token \<times> int) list \<Rightarrow> llama_token" where
  "greedy_int cs = fst (fold (\<lambda>c b. if snd b < snd c then c else b) (tl cs) (hd cs))"

definition toy_llama :: "(unit, nat, int) llama_lib" where
  "toy_llama = \<lparr>load_model_from_file = (\<lambda>p. if p = ''toy'' then Some () else None),
     new_context_with_model = (\<lambda>_ _. Some 0), kv_cache_clear = (\<lambda>_. 0),
     tokenize = (\<lambda>_ s n. (int (length s), replicate (length s) 1 @ replicate (n - length s) 0)),
     n_ctx = (\<lambda>_. 8), n_batch = (\<lambda>_. 4), decode = (\<lambda>b c. (False, c + length b)),
     n_vocab = (\<lambda>_. 4),
     get_logits_ith = (\<lambda>c i j. if (if c < 5 then j = 2 else j = 3) then 1 else - 1),
     float_zero = 0, sample_token_greedy = greedy_int, token_eos = (\<lambda>_. 3),
     token_to_piece = (\<lambda>_ t n. (2, ''ab'' @ replicate (n - 2) (CHR 0x00)))\<rparr>"

definition toy_client :: "(unit, nat) llama_client" where
  "toy_client = \<lparr>model = Some (), context_ptr = Some 0, max_tokens = 9\<rparr>"

lemma fold_larger:
  "fold (\<lambda>c b. if snd b < snd c then c else b) cs x \<in> insert x (set cs)
   \<and> (\<forall>y \<in> insert x (set cs). snd y \<le> snd (fold (\<lambda>c b. if snd b < snd c then c else b) cs (x :: 'a \<times> 'b::linorder)))"
proof (induction cs arbitrary: x)
  case (Cons c cs)
  from Cons [of c] Cons [of x] show ?case by (auto intro: order_trans less_imp_le)
qed simp

lemma greedy_int_largest: "picks_largest greedy_int"
  unfolding picks_largest_def
proof (intro allI impI)
  fix cs :: "(llama_token \<times> int) list"
  assume "cs \<noteq> []"
  then have cs: "cs = hd cs # tl cs" by simp
  show "\<exists>x \<in> set cs. greedy_int cs = fst x \<and> (\<forall>y \<in> set cs. snd y \<le> snd x)"
    using fold_larger [of "tl cs" "hd cs"]
    by (subst (1 3) cs, unfold set_simps greedy_int_def) blast
qed

lemma sample_phantom_candidates_witness:
  "(\<exists>j < 4. sample toy_llama () 0 2 = of_nat j \<and> j = 2)"
proof -
  have "\<exists>j < n_vocab toy_llama (). sample toy_llama () 0 2 = of_nat j \<and>
      (\<forall>j' < n_vocab toy_llama (). get_logits_ith toy_llama 2 0 j' \<le> get_logits_ith toy_llama 2 0 j)"
    using sample_phantom_candidates [of toy_llama "()" _ 2 0]
    by (simp add: toy_llama_def greedy_int_largest)
  then show ?thesis
    by (fastforce simp: toy_llama_def split: if_splits)
qed

lemma toy_call:
  "LlamaCppCall toy_llama (set_case (KStr ''hey'') empty_value) toy_client =
     (Ok (set_case (KStr ''abab'') empty_value), toy_client\<lparr>context_ptr := Some 5\<rparr>)"
proof -
  have c: "sample toy_llama () k c = (if c < 5 then 2 else 3)" for k c
    by (simp add: sample_def candidates_def toy_llama_def greedy_int_def upt_rec numeral_eq_Suc)
  have p: "piece_of toy_llama () 2 = ''ab''"
    by (simp add: piece_of_def toy_llama_def kMaxTokenLength_def resize_def)
  have t: "tokenize_prompt toy_llama () ''hey'' = [1, 1, 1]"
    by (simp add: tokenize_prompt_def toy_llama_def resize_def numeral_eq_Suc)
  have sel: "n_ctx toy_llama c = 8" "n_batch toy_llama c = 4" "kv_cache_clear toy_llama c = 0"
    "decode toy_llama b c = (False, c + length b)" "token_eos toy_llama () = 3" for b c
    by (simp_all add: toy_llama_def)
  have e: "predict toy_llama () 9 5 1 [''ab'', ''ab''] 5 = (Ok [''ab'', ''ab''], 5)"
    by (rule predict_eos) (simp_all add: c sel)
  have r: "run_prompt toy_llama () 9 ''hey'' 0 = (Ok [''ab'', ''ab''], 5)"
    unfolding run_prompt_def t Let_def prompt_batch_built
    using e by (simp add: lift_def GENC_TRY_apply sel predict_step [OF _ c] p numeral_eq_Suc)
  show ?thesis
    by (simp add: LlamaCppCall_def toy_client_def r)
qed


section \<open>Prompts and configurations the backend does not handle\<close>

text \<open>
  The prompt is checked against the size of the context only: a longer prompt than the
  batch has room for is written past its end. An empty one sets the flag before its
  first entry.
\<close>

lemma prompt_overflows_batch:
  assumes "model client = Some m" and "context_ptr client = Some ctx"
    and "length (tokenize_prompt L m (str input)) \<le> n_ctx L (kv_cache_clear L ctx)"
    and "n_batch L (kv_cache_clear L ctx) < length (tokenize_prompt L m (str input))
      \<or> tokenize_prompt L m (str input) = []"
  shows "fst (LlamaCppCall L input client) = Crash IndexOutOfRange"
  using assms by (auto simp: LlamaCppCall_def run_prompt_def Let_def prompt_batch_built lift_def
      GENC_TRY_apply split: prod.splits)

text \<open>Once the shared client is initialized, the configuration of a later call is not read.\<close>

lemma later_config_ignored:
  assumes "is_initialized client"
  shows "CallLlamaCpp L atoi config arg (Some client) = CallLlamaCpp L atoi config' arg (Some client)"
  using assms by (simp add: CallLlamaCpp_def)

end
