(* ===== verification/React.thy ===== *)
theory React
  imports Inline_Intrinsics
begin

text \<open>
  \<^verbatim>\<open>genc/cc/modules/agents/react.cc\<close>: the helper functions of a ReAct agent, which cut
  thoughts, actions and code out of the replies of a model, and
  \<^verbatim>\<open>modules/templates/inja_status_or.cc\<close>. The regular expressions are a parameter: what a
  partial match of a pattern with one group captures. The search for the word
  \<^verbatim>\<open>Observation\<close>, which keeps an agent from reading observations the model made up, is
  modelled.
\<close>

section \<open>Searching\<close>

text \<open>\<open>text.substr(0, text.find(pattern))\<close>, the whole text when there is none.\<close>

fun before_first :: "string \<Rightarrow> string \<Rightarrow> string" where
  "before_first pattern [] = []"
| "before_first pattern (c # cs) =
     (if take (length pattern) (c # cs) = pattern then [] else c # before_first pattern cs)"

definition kObservation :: string where
  "kObservation = ''Observation''"

definition BeforeFirstObservationOrOriginalText :: "string \<Rightarrow> string" where
  "BeforeFirstObservationOrOriginalText s = before_first kObservation s"

section \<open>The functions\<close>

text \<open>The option \<open>dot_nl\<close> is an argument of the match.\<close>

type_synonym re_capture = "bool \<Rightarrow> string \<Rightarrow> string \<Rightarrow> string option"

definition captured :: "string option \<Rightarrow> string" where
  "captured m = (case m of Some s \<Rightarrow> s | None \<Rightarrow> [])"

definition str_value :: "string \<Rightarrow> pvalue" where
  "str_value s = set_case (KStr s) empty_value"

definition backslash :: string where
  "backslash = [CHR 0x5C]"

definition kPythonBlock :: string where "kPythonBlock = ''```python(.*?)```''"

definition kJsBlock :: string where "kJsBlock = ''```(?:javascript|js)?(.*?)```''"

definition kMathPattern :: string where
  "kMathPattern = ''Math'' @ backslash @ ''[(.*?)'' @ backslash @ '']''"

definition kFinishPattern :: string where
  "kFinishPattern = ''(Finish'' @ backslash @ ''[.*?'' @ backslash @ ''])''"

definition kThoughtPattern :: string where
  "kThoughtPattern = ''Thought:'' @ backslash @ ''s*(?:\<newline>)?(.*?)\<newline>''"

definition kActionPattern :: string where
  "kActionPattern = ''Action:'' @ backslash @ ''s*(?:\<newline>)?([^'' @ backslash @ ''n]+)''"

definition ExtractPythonCode :: "re_capture \<Rightarrow> pvalue \<Rightarrow> ('w process, pvalue) prog" where
  "ExtractPythonCode R input s =
     (Ok (str_value (captured (R True kPythonBlock (str input)) @ ''result = compute()\<newline>print(result)\<newline>'')),
      case R True kPythonBlock (str input) of
        Some _ \<Rightarrow> s
      | None \<Rightarrow> write_console [Txt ''No Python code block found in the input.''] s)"

definition ExtractJsCode :: "re_capture \<Rightarrow> pvalue \<Rightarrow> ('w process, pvalue) prog" where
  "ExtractJsCode R input s =
     (Ok (str_value (captured (R True kJsBlock (str input))
        @ ''let resultValue = compute();\<newline>resultValue.toString()'')),
      case R True kJsBlock (str input) of
        Some _ \<Rightarrow> s
      | None \<Rightarrow> write_console [Txt ''No JS code block found in the input. input:'', Txt (str input)] s)"

definition ExtractMathQuestion :: "re_capture \<Rightarrow> pvalue \<Rightarrow> ('w process, pvalue) prog" where
  "ExtractMathQuestion R input = return (str_value (captured (R False kMathPattern (str input))))"

definition ExtractFinish :: "re_capture \<Rightarrow> string \<Rightarrow> string" where
  "ExtractFinish R s = captured (R False kFinishPattern s)"

definition thought_action :: "string \<Rightarrow> string \<Rightarrow> string" where
  "thought_action thought action =
     ''Thought: '' @ thought @ ''\<newline>Action: '' @ action @ ''\<newline>''"

definition ParseThoughtAction :: "re_capture \<Rightarrow> pvalue \<Rightarrow> ('w process, pvalue) prog" where
  "ParseThoughtAction R input =
     (let sanitized_input = BeforeFirstObservationOrOriginalText (str input);
          thought = captured (R False kThoughtPattern sanitized_input);
          action = (case R False kActionPattern sanitized_input of
             Some a \<Rightarrow> a
           | None \<Rightarrow> ExtractFinish R sanitized_input)
      in return (str_value (thought_action thought action)))"

definition FormatObservation :: "pvalue \<Rightarrow> ('w process, pvalue) prog" where
  "FormatObservation input = return (str_value (''Observation: '' @ str input @ ''\<newline>''))"

definition ReAct_SetCustomFunctions :: "re_capture \<Rightarrow> 'w FunctionMap \<Rightarrow> 'w FunctionMap" where
  "ReAct_SetCustomFunctions R fn_map = fn_map(
     ''/react/format_observation'' \<mapsto> FormatObservation,
     ''/react/parse_thought_action'' \<mapsto> ParseThoughtAction R,
     ''/react/extract_math_question'' \<mapsto> ExtractMathQuestion R,
     ''/react/extract_python_code'' \<mapsto> ExtractPythonCode R,
     ''/react/extract_js_code'' \<mapsto> ExtractJsCode R)"

section \<open>Templates that do not throw\<close>

text \<open>What the template library does: a text, an exception with its message, or another one.\<close>

datatype inja_result = Rendered string | Thrown string | ThrownOther

definition Environment_render :: "(string \<Rightarrow> json \<Rightarrow> inja_result) \<Rightarrow> string \<Rightarrow> json \<Rightarrow> string outcome" where
  "Environment_render render input data = (case render input data of
      Rendered s \<Rightarrow> Ok s
    | Thrown what \<Rightarrow> InternalError [Txt ''Render: '', Txt what]
    | ThrownOther \<Rightarrow> InternalError [Txt ''Render: something went wrong.''])"

section \<open>Made-up observations are not read\<close>

text \<open>
  A pattern whose first letter does not come again in it cannot start inside a text that
  does not contain it and end in an occurrence that follows.
\<close>

definition occurs :: "string \<Rightarrow> string \<Rightarrow> bool" where
  "occurs pattern s \<longleftrightarrow> (\<exists>u v. s = u @ pattern @ v)"

lemma occurs_tail: "occurs pattern s \<Longrightarrow> occurs pattern (c # s)"
  unfolding occurs_def by (metis append_Cons)

lemma before_first_occurrence:
  assumes "\<not> occurs (c # p) s" and "c \<notin> set p"
  shows "before_first (c # p) (s @ (c # p) @ y) = s"
  using assms(1)
proof (induction s)
  case Nil
  then show ?case by simp
next
  case (Cons a s)
  have "take (length (c # p)) (a # s @ (c # p) @ y) \<noteq> c # p"
  proof
    assume eq: "take (length (c # p)) (a # s @ (c # p) @ y) = c # p"
    show False
    proof (cases "length (c # p) \<le> length (a # s)")
      case True
      then have "take (length (c # p)) (a # s) = c # p" using eq by simp
      then have "a # s = [] @ (c # p) @ drop (length (c # p)) (a # s)"
        by (metis append_Nil append_take_drop_id)
      then have "occurs (c # p) (a # s)" unfolding occurs_def by blast
      then show False using Cons.prems by simp
    next
      case False
      then have "(a # s @ (c # p) @ y) ! length (a # s) = c" and i: "length (a # s) < length (c # p)"
        by (simp_all add: nth_append)
      then have "(c # p) ! length (a # s) = c" using eq by (metis nth_take)
      then have "p ! length s = c" by simp
      then show False using assms(2) i by (auto dest: nth_mem)
    qed
  qed
  moreover have "\<not> occurs (c # p) s" using Cons.prems occurs_tail by blast
  ultimately show ?case using Cons.IH by simp
qed

lemma before_first_absent: "\<not> occurs pattern s \<Longrightarrow> before_first pattern s = s"
proof (induction s)
  case (Cons c cs)
  have "take (length pattern) (c # cs) \<noteq> pattern"
    using Cons.prems unfolding occurs_def by (metis append_Nil append_take_drop_id)
  moreover have "\<not> occurs pattern cs" using Cons.prems occurs_tail by blast
  ultimately show ?case using Cons.IH by simp
qed simp

lemma observation_cut:
  "\<not> occurs kObservation s \<Longrightarrow> BeforeFirstObservationOrOriginalText (s @ kObservation @ y) = s"
  using before_first_occurrence [of "CHR ''O''" "''bservation''" s y]
  by (simp add: BeforeFirstObservationOrOriginalText_def kObservation_def)

text \<open>
  What a model writes after the word Observation is not read. The thought and the
  action parsed from a reply are those of the text before the first occurrence, whatever
  follows it, in particular an observation as the agent formats it.
\<close>

lemma ParseThoughtAction_ignores_observations:
  assumes "\<not> occurs kObservation reply"
  shows "ParseThoughtAction R (str_value (reply @ kObservation @ rest)) = ParseThoughtAction R (str_value reply)
    \<and> (\<exists>observation. FormatObservation result out = (Ok (str_value observation), out)
        \<and> ParseThoughtAction R (str_value (reply @ observation @ rest)) = ParseThoughtAction R (str_value reply))"
proof -
  have str: "str (str_value s) = s" for s by (simp add: str_value_def accessor_simps)
  have cut: "ParseThoughtAction R (str_value (reply @ kObservation @ y)) = ParseThoughtAction R (str_value reply)" for y
    using observation_cut [OF assms, of y] before_first_absent [OF assms]
    by (simp add: ParseThoughtAction_def str BeforeFirstObservationOrOriginalText_def)
  have f: "FormatObservation result out =
      (Ok (str_value (kObservation @ '': '' @ str result @ ''\<newline>'')), out)"
    by (simp add: FormatObservation_def return_def kObservation_def)
  show ?thesis
    by (intro conjI exI [of _ "kObservation @ '': '' @ str result @ ''\<newline>''"])
      (simp_all only: f cut append.assoc)
qed

text \<open>A matcher that captures the text before the first end of line.\<close>

definition first_line :: re_capture where
  "first_line dot_nl pattern s = Some (takeWhile (\<lambda>c. c \<noteq> CHR 0x0A) s)"

lemma ParseThoughtAction_ignores_observations_witness:
  "ParseThoughtAction first_line (str_value (''Finish'' @ kObservation @ ''Action: x'')) =
   ParseThoughtAction first_line (str_value ''Finish'')"
proof -
  have "\<not> occurs kObservation ''Finish''"
    by (auto simp: occurs_def kObservation_def Cons_eq_append_conv)
  then show ?thesis using ParseThoughtAction_ignores_observations by blast
qed

end
