(* ===== verification/Java_Authoring.thy ===== *)
theory Java_Authoring
  imports Authoring Wire
begin

text \<open>
  \<^verbatim>\<open>genc/java/src/native/org/genc/authoring/constructor.cc\<close> with the string conversions of
  \<^verbatim>\<open>genc/java/src/jni/jni_utils.cc\<close>: the constructors as the Java class calls them, on
  strings, byte arrays and lists. A null reference is \<open>None\<close>, and dereferencing it crashes
  the virtual machine; an error of any kind is logged, which is not modelled, and gives
  null.
\<close>

section \<open>The Java native interface\<close>

text \<open>
  What the calls of the interface give: the UTF-8 text of a string, whether an array of a
  size can be allocated and its elements obtained, whether the list class has its two
  methods; and the wire format.
\<close>

type_synonym jstring = "string option"
type_synonym jbyteArray = "string option"
type_synonym jlist = "jbyteArray list option"

record jni =
  env_is_null :: bool
  GetStringUTFChars :: "string \<Rightarrow> string option"
  NewByteArray :: "nat \<Rightarrow> bool"
  GetByteArrayElements :: "string \<Rightarrow> bool"
  list_has_size :: bool
  list_has_get :: bool
  SerializeToArray :: "pvalue \<Rightarrow> string"
  serialize_ok :: "pvalue \<Rightarrow> bool"
  ParseFromArray :: "string \<Rightarrow> pvalue option"

definition GetString :: "jni \<Rightarrow> jstring \<Rightarrow> string" where
  "GetString J java_string = (case java_string of
      None \<Rightarrow> []
    | Some s \<Rightarrow> (case GetStringUTFChars J s of None \<Rightarrow> [] | Some chars \<Rightarrow> chars))"

definition GetJbyteArrayFromProto :: "jni \<Rightarrow> pvalue \<Rightarrow> string outcome" where
  "GetJbyteArrayFromProto J message =
     (if env_is_null J then InvalidArgumentError [Txt ''JNI environment is null.'']
      else let bytes = SerializeToArray J message in
        if \<not> NewByteArray J (length bytes) then InternalError [Txt ''Failed to allocate buffer.'']
        else if \<not> GetByteArrayElements J bytes then InternalError [Txt ''Failed to get byte array elements.'']
        else if \<not> serialize_ok J message then InternalError [Txt ''Proto serialization to array failed.'']
        else Ok bytes)"

definition ParseProtoFromByteArray :: "jni \<Rightarrow> jbyteArray \<Rightarrow> pvalue outcome" where
  "ParseProtoFromByteArray J jbyte_array =
     (if env_is_null J then InvalidArgumentError [Txt ''JNI environment is null.'']
      else case jbyte_array of
        None \<Rightarrow> Crash NullDereference
      | Some bytes \<Rightarrow>
          if \<not> GetByteArrayElements J bytes then InternalError [Txt ''Failed to get byte array elements.'']
          else case ParseFromArray J bytes of
            None \<Rightarrow> InvalidArgumentError [Txt ''Failed to parse proto from Java byte array'']
          | Some proto \<Rightarrow> Ok proto)"

fun GetValueOrLogError :: "'a outcome \<Rightarrow> 'a option outcome" where
  "GetValueOrLogError (Ok x) = Ok (Some x)"
| "GetValueOrLogError (Err e) = Ok None"
| "GetValueOrLogError (Crash c) = Crash c"
| "GetValueOrLogError Diverge = Diverge"

text \<open>Every element is parsed in turn; the first that fails empties the vector.\<close>

fun parse_elements :: "jni \<Rightarrow> jbyteArray list \<Rightarrow> pvalue list \<Rightarrow> pvalue list outcome" where
  "parse_elements J [] vec = Ok vec"
| "parse_elements J (e # es) vec = (case ParseProtoFromByteArray J e of
      Ok v \<Rightarrow> parse_elements J es (vec @ [v])
    | Err _ \<Rightarrow> Ok []
    | Crash c \<Rightarrow> Crash c
    | Diverge \<Rightarrow> Diverge)"

definition GetValueVectorFromJavaList :: "jni \<Rightarrow> jlist \<Rightarrow> pvalue list outcome" where
  "GetValueVectorFromJavaList J list = (case list of
      None \<Rightarrow> Crash NullDereference
    | Some es \<Rightarrow>
        if \<not> list_has_size J then Ok []
        else if \<not> list_has_get J then Ok []
        else parse_elements J es [])"

section \<open>The pattern of the constructors\<close>

text \<open>
  All arguments are parsed before any result is looked at, so a null array crashes even
  when an earlier argument does not parse.
\<close>

fun all_parsed :: "pvalue outcome list \<Rightarrow> pvalue list option outcome" where
  "all_parsed [] = Ok (Some [])"
| "all_parsed (Ok v # rs) = try_value (all_parsed rs) (\<lambda>vs. Ok (map_option (Cons v) vs))"
| "all_parsed (Err e # rs) = try_value (all_parsed rs) (\<lambda>vs. Ok None)"
| "all_parsed (Crash c # rs) = Crash c"
| "all_parsed (Diverge # rs) = Diverge"

definition computation_bytes :: "jni \<Rightarrow> pvalue outcome \<Rightarrow> jbyteArray outcome" where
  "computation_bytes J computation =
     GetValueOrLogError (try_value computation (GetJbyteArrayFromProto J))"

definition with_protos ::
  "jni \<Rightarrow> jbyteArray list \<Rightarrow> (pvalue list \<Rightarrow> pvalue outcome) \<Rightarrow> jbyteArray outcome" where
  "with_protos J arrays construct =
     try_value (all_parsed (map (ParseProtoFromByteArray J) arrays)) (\<lambda>protos. case protos of
       None \<Rightarrow> Ok None
     | Some vs \<Rightarrow> computation_bytes J (construct vs))"

definition with_list ::
  "jni \<Rightarrow> jlist \<Rightarrow> (pvalue list \<Rightarrow> pvalue outcome) \<Rightarrow> jbyteArray outcome" where
  "with_list J list construct =
     try_value (GetValueVectorFromJavaList J list) (\<lambda>vec.
       if vec = [] then Ok None else computation_bytes J (construct vec))"

section \<open>The constructors\<close>

definition GC_create_model_inference :: "jni \<Rightarrow> jstring \<Rightarrow> jbyteArray outcome" where
  "GC_create_model_inference J model_uri =
     (if model_uri = None then Ok None
      else computation_bytes J (CreateModelInference (GetString J model_uri)))"

definition GC_create_model_inference_with_config ::
  "jni \<Rightarrow> jstring \<Rightarrow> jbyteArray \<Rightarrow> jbyteArray outcome" where
  "GC_create_model_inference_with_config J model_uri config =
     (if model_uri = None then Ok None
      else with_protos J [config] (\<lambda>vs. CreateModelInferenceWithConfig (GetString J model_uri) (vs ! 0)))"

definition GC_create_prompt_template :: "jni \<Rightarrow> jstring \<Rightarrow> jbyteArray outcome" where
  "GC_create_prompt_template J template_str = computation_bytes J (CreatePromptTemplate (GetString J template_str))"

definition GC_create_custom_function :: "jni \<Rightarrow> jstring \<Rightarrow> jbyteArray outcome" where
  "GC_create_custom_function J fn_uri = computation_bytes J (CreateCustomFunction (GetString J fn_uri))"

definition GC_create_inja_template :: "jni \<Rightarrow> jstring \<Rightarrow> jbyteArray outcome" where
  "GC_create_inja_template J template_str = computation_bytes J (CreateInjaTemplate (GetString J template_str))"

definition GC_create_wolfram_alpha :: "jni \<Rightarrow> jstring \<Rightarrow> jbyteArray outcome" where
  "GC_create_wolfram_alpha J app_id = computation_bytes J (CreateWolframAlpha (GetString J app_id))"

definition GC_create_reference :: "jni \<Rightarrow> jstring \<Rightarrow> jbyteArray outcome" where
  "GC_create_reference J arg_name = computation_bytes J (CreateReference (GetString J arg_name))"

definition GC_create_regex_partial_match :: "jni \<Rightarrow> jstring \<Rightarrow> jbyteArray outcome" where
  "GC_create_regex_partial_match J pattern_str = computation_bytes J (CreateRegexPartialMatch (GetString J pattern_str))"

definition GC_create_fallback :: "jni \<Rightarrow> jlist \<Rightarrow> jbyteArray outcome" where
  "GC_create_fallback J list = with_list J list CreateFallback"

definition GC_create_serial_chain :: "jni \<Rightarrow> jlist \<Rightarrow> jbyteArray outcome" where
  "GC_create_serial_chain J list = with_list J list CreateSerialChain"

definition GC_create_struct :: "jni \<Rightarrow> jlist \<Rightarrow> jbyteArray outcome" where
  "GC_create_struct J list = with_list J list CreateStruct"

definition GC_create_breakable_chain :: "jni \<Rightarrow> jlist \<Rightarrow> jbyteArray outcome" where
  "GC_create_breakable_chain J list = with_list J list CreateBreakableChain"

definition GC_create_repeated_conditional_chain :: "jni \<Rightarrow> i32 \<Rightarrow> jlist \<Rightarrow> jbyteArray outcome" where
  "GC_create_repeated_conditional_chain J num_steps list =
     with_list J list (CreateRepeatedConditionalChain num_steps)"

definition GC_create_conditional ::
  "jni \<Rightarrow> jbyteArray \<Rightarrow> jbyteArray \<Rightarrow> jbyteArray \<Rightarrow> jbyteArray outcome" where
  "GC_create_conditional J condition positive_branch negative_branch =
     with_protos J [condition, positive_branch, negative_branch]
       (\<lambda>vs. CreateConditional (vs ! 0) (vs ! 1) (vs ! 2))"

definition GC_create_lambda_for_conditional ::
  "jni \<Rightarrow> jbyteArray \<Rightarrow> jbyteArray \<Rightarrow> jbyteArray \<Rightarrow> jbyteArray outcome" where
  "GC_create_lambda_for_conditional J condition positive_branch negative_branch =
     with_protos J [condition, positive_branch, negative_branch]
       (\<lambda>vs. CreateLambdaForConditional (vs ! 0) (vs ! 1) (vs ! 2))"

definition GC_create_parallel_map :: "jni \<Rightarrow> jbyteArray \<Rightarrow> jbyteArray outcome" where
  "GC_create_parallel_map J map_fn = with_protos J [map_fn] (\<lambda>vs. CreateParallelMap (vs ! 0))"

definition GC_create_call :: "jni \<Rightarrow> jbyteArray \<Rightarrow> jbyteArray \<Rightarrow> jbyteArray outcome" where
  "GC_create_call J fn arg = with_protos J [fn, arg] (\<lambda>vs. CreateCall (vs ! 0) (vs ! 1))"

definition GC_create_while :: "jni \<Rightarrow> jbyteArray \<Rightarrow> jbyteArray \<Rightarrow> jbyteArray outcome" where
  "GC_create_while J condition_fn body_fn =
     with_protos J [condition_fn, body_fn] (\<lambda>vs. CreateWhile (vs ! 0) (vs ! 1))"

definition GC_create_repeat :: "jni \<Rightarrow> i32 \<Rightarrow> jbyteArray \<Rightarrow> jbyteArray outcome" where
  "GC_create_repeat J num_steps body_fn =
     with_protos J [body_fn] (\<lambda>vs. CreateRepeat num_steps (vs ! 0))"

definition GC_create_lambda :: "jni \<Rightarrow> jstring \<Rightarrow> jbyteArray \<Rightarrow> jbyteArray outcome" where
  "GC_create_lambda J arg_name body =
     with_protos J [body] (\<lambda>vs. CreateLambda (GetString J arg_name) (vs ! 0))"

definition GC_create_selection :: "jni \<Rightarrow> jbyteArray \<Rightarrow> i32 \<Rightarrow> jbyteArray outcome" where
  "GC_create_selection J source index =
     with_protos J [source] (\<lambda>vs. CreateSelection (vs ! 0) index)"

definition GC_create_logical_not :: "jni \<Rightarrow> jbyteArray outcome" where
  "GC_create_logical_not J = computation_bytes J CreateLogicalNot"

definition GC_create_logger :: "jni \<Rightarrow> jbyteArray outcome" where
  "GC_create_logger J = computation_bytes J CreateLogger"

section \<open>The exported methods\<close>

text \<open>
  One constructor of the Java class per native method, with its arguments; each method
  passes them on.
\<close>

datatype java_call =
    nativeCreateModelInference jstring
  | nativeCreateModelInferenceWithConfig jstring jbyteArray
  | nativeCreatePromptTemplate jstring
  | nativeCreateFallback jlist
  | nativeCreateConditional jbyteArray jbyteArray jbyteArray
  | nativeCreateCustomFunction jstring
  | nativeCreateInjaTemplate jstring
  | nativeCreateParallelMap jbyteArray
  | nativeCreateSerialChain jlist
  | nativeCreateStruct jlist
  | nativeCreateCall jbyteArray jbyteArray
  | nativeCreateWolframAlpha jstring
  | nativeCreateRepeat i32 jbyteArray
  | nativeCreateLambda jstring jbyteArray
  | nativeCreateReference jstring
  | nativeCreateRegexPartialMatch jstring
  | nativeCreateLogicalNot
  | nativeCreateRepeatedConditionalChain i32 jlist
  | nativeCreateBreakableChain jlist
  | nativeCreateLogger
  | nativeCreateSelection jbyteArray i32
  | nativeCreateLambdaForConditional jbyteArray jbyteArray jbyteArray
  | nativeCreateWhile jbyteArray jbyteArray

fun native_call :: "jni \<Rightarrow> java_call \<Rightarrow> jbyteArray outcome" where
  "native_call J (nativeCreateModelInference u) = GC_create_model_inference J u"
| "native_call J (nativeCreateModelInferenceWithConfig u c) = GC_create_model_inference_with_config J u c"
| "native_call J (nativeCreatePromptTemplate t) = GC_create_prompt_template J t"
| "native_call J (nativeCreateFallback l) = GC_create_fallback J l"
| "native_call J (nativeCreateConditional c p n) = GC_create_conditional J c p n"
| "native_call J (nativeCreateCustomFunction u) = GC_create_custom_function J u"
| "native_call J (nativeCreateInjaTemplate t) = GC_create_inja_template J t"
| "native_call J (nativeCreateParallelMap f) = GC_create_parallel_map J f"
| "native_call J (nativeCreateSerialChain l) = GC_create_serial_chain J l"
| "native_call J (nativeCreateStruct l) = GC_create_struct J l"
| "native_call J (nativeCreateCall f a) = GC_create_call J f a"
| "native_call J (nativeCreateWolframAlpha k) = GC_create_wolfram_alpha J k"
| "native_call J (nativeCreateRepeat n f) = GC_create_repeat J n f"
| "native_call J (nativeCreateLambda a b) = GC_create_lambda J a b"
| "native_call J (nativeCreateReference a) = GC_create_reference J a"
| "native_call J (nativeCreateRegexPartialMatch p) = GC_create_regex_partial_match J p"
| "native_call J nativeCreateLogicalNot = GC_create_logical_not J"
| "native_call J (nativeCreateRepeatedConditionalChain n l) = GC_create_repeated_conditional_chain J n l"
| "native_call J (nativeCreateBreakableChain l) = GC_create_breakable_chain J l"
| "native_call J nativeCreateLogger = GC_create_logger J"
| "native_call J (nativeCreateSelection s i) = GC_create_selection J s i"
| "native_call J (nativeCreateLambdaForConditional c p n) = GC_create_lambda_for_conditional J c p n"
| "native_call J (nativeCreateWhile c b) = GC_create_while J c b"

section \<open>The Java constructors and the C++ ones\<close>

text \<open>A virtual machine that is not out of memory, and a wire format that reads back.\<close>

definition working_jni :: "jni \<Rightarrow> bool" where
  "working_jni J \<longleftrightarrow> \<not> env_is_null J \<and> list_has_size J \<and> list_has_get J
     \<and> (\<forall>n. NewByteArray J n) \<and> (\<forall>b. GetByteArrayElements J b) \<and> (\<forall>v. serialize_ok J v)
     \<and> (\<forall>s. GetStringUTFChars J s = Some s) \<and> round_trips (SerializeToArray J) (ParseFromArray J)"

definition wire :: "jni \<Rightarrow> pvalue \<Rightarrow> jbyteArray" where
  "wire J v = Some (SerializeToArray J v)"

text \<open>The reply of a call stands for the result of a C++ constructor.\<close>

definition mirrors :: "jni \<Rightarrow> java_call \<Rightarrow> pvalue outcome \<Rightarrow> bool" where
  "mirrors J call r \<longleftrightarrow> (\<exists>v b. r = Ok v \<and> native_call J call = Ok (Some b) \<and> ParseFromArray J b = Some v)"

lemmas native_defs =
  GC_create_model_inference_def GC_create_model_inference_with_config_def GC_create_prompt_template_def
  GC_create_custom_function_def GC_create_inja_template_def GC_create_wolfram_alpha_def
  GC_create_reference_def GC_create_regex_partial_match_def GC_create_fallback_def
  GC_create_serial_chain_def GC_create_struct_def GC_create_breakable_chain_def
  GC_create_repeated_conditional_chain_def GC_create_conditional_def GC_create_lambda_for_conditional_def
  GC_create_parallel_map_def GC_create_call_def GC_create_while_def GC_create_repeat_def
  GC_create_lambda_def GC_create_selection_def GC_create_logical_not_def GC_create_logger_def

lemma working_parse: "working_jni J \<Longrightarrow> ParseProtoFromByteArray J (wire J v) = Ok v"
  by (simp add: ParseProtoFromByteArray_def working_jni_def wire_def round_trips_def)

lemma working_string: "working_jni J \<Longrightarrow> GetString J (Some s) = s"
  by (simp add: GetString_def working_jni_def)

lemma working_elements:
  "working_jni J \<Longrightarrow> parse_elements J (map (wire J) vs) vec = Ok (vec @ vs)"
  by (induction vs arbitrary: vec) (simp_all add: working_parse)

lemma working_list: "working_jni J \<Longrightarrow> GetValueVectorFromJavaList J (Some (map (wire J) vs)) = Ok vs"
  using working_elements [of J vs "[]"] by (simp add: GetValueVectorFromJavaList_def working_jni_def)

lemma working_bytes:
  "working_jni J \<Longrightarrow> computation_bytes J (Ok v) = Ok (wire J v)"
  by (simp add: computation_bytes_def GetJbyteArrayFromProto_def working_jni_def wire_def Let_def)

lemma mirrors_iff:
  "working_jni J \<Longrightarrow> native_call J call = computation_bytes J r \<Longrightarrow> mirrors J call r \<longleftrightarrow> (\<exists>v. r = Ok v)"
proof (cases r)
  case (Ok v)
  assume "working_jni J" and "native_call J call = computation_bytes J r"
  then show ?thesis
    by (simp add: mirrors_def Ok working_bytes) (simp add: wire_def working_jni_def round_trips_def)
qed (simp_all add: mirrors_def)

lemma constructors_Ok:
  "\<exists>v. CreateModelInference u = Ok v" "\<exists>v. CreateModelInferenceWithConfig u c = Ok v"
  "\<exists>v. CreatePromptTemplate u = Ok v" "\<exists>v. CreateConditional c f g = Ok v"
  "\<exists>v. CreateCustomFunction u = Ok v" "\<exists>v. CreateInjaTemplate u = Ok v"
  "\<exists>v. CreateParallelMap f = Ok v" "\<exists>v. CreateCall f c = Ok v" "\<exists>v. CreateWolframAlpha u = Ok v"
  "\<exists>v. CreateRepeat n f = Ok v" "\<exists>v. CreateLambda u f = Ok v" "\<exists>v. CreateReference u = Ok v"
  "\<exists>v. CreateRegexPartialMatch u = Ok v" "\<exists>v. CreateLogicalNot = Ok v" "\<exists>v. CreateLogger = Ok v"
  "\<exists>v. CreateSelection c n = Ok v" "\<exists>v. CreateLambdaForConditional c f g = Ok v"
  "\<exists>v. CreateWhile c f = Ok v" "\<exists>v. CreateFallback fs = Ok v" "\<exists>v. CreateSerialChain fs = Ok v"
  "\<exists>v. CreateStruct fs = Ok v" "\<exists>v. CreateRepeatedConditionalChain n fs = Ok v"
  "\<exists>v. CreateBreakableChain fs = Ok v"
  by (simp_all add: constructor_defs Let_def CreateConditional_def CreateLambdaForConditional_def
      CreateReference_def CreateLambda_def CreateCall_def CreateSelection_def)

lemma native_protos:
  "working_jni J \<Longrightarrow> with_protos J [wire J a] k = computation_bytes J (k [a])"
  "working_jni J \<Longrightarrow> with_protos J [wire J a, wire J b] k = computation_bytes J (k [a, b])"
  "working_jni J \<Longrightarrow> with_protos J [wire J a, wire J b, wire J c] k = computation_bytes J (k [a, b, c])"
  by (simp_all add: with_protos_def working_parse)

lemma native_list:
  "working_jni J \<Longrightarrow> with_list J (Some (map (wire J) vs)) k =
     (if vs = [] then Ok None else computation_bytes J (k vs))"
  by (simp add: with_list_def working_list)

text \<open>
  C26: the Java constructors make what the C++ constructors make. On a virtual machine that
  is not out of memory, a call on the wire format of values and on strings returns bytes
  that parse to the value the C++ constructor returns for them; a list has to be
  non-empty, and an empty one gives null.
\<close>

theorem java_constructors_mirror:
  assumes J: "working_jni J"
  shows "mirrors J (nativeCreateModelInference (Some u)) (CreateModelInference u)
    \<and> mirrors J (nativeCreateModelInferenceWithConfig (Some u) (wire J c)) (CreateModelInferenceWithConfig u c)
    \<and> mirrors J (nativeCreatePromptTemplate (Some u)) (CreatePromptTemplate u)
    \<and> mirrors J (nativeCreateConditional (wire J c) (wire J f) (wire J g)) (CreateConditional c f g)
    \<and> mirrors J (nativeCreateCustomFunction (Some u)) (CreateCustomFunction u)
    \<and> mirrors J (nativeCreateInjaTemplate (Some u)) (CreateInjaTemplate u)
    \<and> mirrors J (nativeCreateParallelMap (wire J f)) (CreateParallelMap f)
    \<and> mirrors J (nativeCreateCall (wire J f) (wire J c)) (CreateCall f c)
    \<and> mirrors J (nativeCreateWolframAlpha (Some u)) (CreateWolframAlpha u)
    \<and> mirrors J (nativeCreateRepeat n (wire J f)) (CreateRepeat n f)
    \<and> mirrors J (nativeCreateLambda (Some u) (wire J f)) (CreateLambda u f)
    \<and> mirrors J (nativeCreateReference (Some u)) (CreateReference u)
    \<and> mirrors J (nativeCreateRegexPartialMatch (Some u)) (CreateRegexPartialMatch u)
    \<and> mirrors J nativeCreateLogicalNot CreateLogicalNot
    \<and> mirrors J nativeCreateLogger CreateLogger
    \<and> mirrors J (nativeCreateSelection (wire J c) n) (CreateSelection c n)
    \<and> mirrors J (nativeCreateLambdaForConditional (wire J c) (wire J f) (wire J g)) (CreateLambdaForConditional c f g)
    \<and> mirrors J (nativeCreateWhile (wire J c) (wire J f)) (CreateWhile c f)
    \<and> (let list = Some (map (wire J) fs) in
        if fs = [] then (\<forall>call \<in> {nativeCreateFallback list, nativeCreateSerialChain list, nativeCreateStruct list,
            nativeCreateRepeatedConditionalChain n list, nativeCreateBreakableChain list}.
              native_call J call = Ok None)
        else mirrors J (nativeCreateFallback list) (CreateFallback fs)
          \<and> mirrors J (nativeCreateSerialChain list) (CreateSerialChain fs)
          \<and> mirrors J (nativeCreateStruct list) (CreateStruct fs)
          \<and> mirrors J (nativeCreateRepeatedConditionalChain n list) (CreateRepeatedConditionalChain n fs)
          \<and> mirrors J (nativeCreateBreakableChain list) (CreateBreakableChain fs))"
proof (cases "fs = []")
  case True
  then show ?thesis
    using native_list [OF J, of "[]"]
    by (simp add: mirrors_iff [OF J] native_defs native_protos [OF J] working_string [OF J] constructors_Ok)
next
  case False
  then show ?thesis
    by (simp add: Let_def mirrors_iff [OF J] native_defs native_protos [OF J] native_list [OF J]
        working_string [OF J] constructors_Ok)
qed

section \<open>What Java receives is well-formed\<close>

definition well_formed_computation :: "pvalue \<Rightarrow> bool" where
  "well_formed_computation v \<longleftrightarrow>
     (has_intrinsic v \<longrightarrow> (\<exists>h :: unit handler. handler_uri h = uri (intrinsic v) \<and> CheckWellFormed h (intrinsic v) = Ok ()))"

definition well_formed_result :: "pvalue outcome \<Rightarrow> bool" where
  "well_formed_result r \<longleftrightarrow> (\<forall>v. r = Ok v \<longrightarrow> well_formed_computation v)"

lemma accepted_well_formed: "accepted_by (h :: unit handler) r \<Longrightarrow> well_formed_result r"
  by (auto simp: accepted_by_def well_formed_result_def well_formed_computation_def accessor_simps)

lemma plain_well_formed:
  "\<not> has_intrinsic v \<Longrightarrow> well_formed_result (Ok v)"
  by (simp add: well_formed_result_def well_formed_computation_def)

lemma computation_bytes_Some:
  "computation_bytes J r = Ok (Some b) \<Longrightarrow> \<exists>v. r = Ok v \<and> b = SerializeToArray J v"
  by (cases r) (auto simp: computation_bytes_def GetJbyteArrayFromProto_def Let_def split: if_splits)

definition replies :: "jni \<Rightarrow> jbyteArray outcome \<Rightarrow> bool" where
  "replies J r \<longleftrightarrow> (\<forall>b. r = Ok (Some b) \<longrightarrow> (\<exists>v. b = SerializeToArray J v \<and> well_formed_computation v))"

lemma replies_bytes: "well_formed_result r \<Longrightarrow> replies J (computation_bytes J r)"
  by (auto simp: replies_def well_formed_result_def dest!: computation_bytes_Some)

lemma replies_null: "replies J (Ok None)"
  by (simp add: replies_def)

lemma replies_protos: "(\<And>vs. well_formed_result (k vs)) \<Longrightarrow> replies J (with_protos J arrays k)"
  using replies_bytes [of "k vs" J for vs]
  by (auto simp: with_protos_def replies_def try_value_eq_Ok split: option.splits)

lemma replies_list: "(\<And>vs. vs \<noteq> [] \<Longrightarrow> well_formed_result (k vs)) \<Longrightarrow> replies J (with_list J list k)"
  using replies_bytes [of "k vs" J for vs]
  by (auto simp: with_list_def replies_def try_value_eq_Ok split: if_splits)

lemma intrinsics_well_formed:
  "well_formed_result (CreateModelInference u)" "well_formed_result (CreateModelInferenceWithConfig u c)"
  "well_formed_result (CreatePromptTemplate u)" "well_formed_result (CreateCustomFunction u)"
  "well_formed_result (CreateInjaTemplate u)" "well_formed_result (CreateWolframAlpha u)"
  "well_formed_result (CreateRegexPartialMatch u)" "well_formed_result CreateLogicalNot"
  "well_formed_result CreateLogger" "well_formed_result (CreateWhile c f)"
  "well_formed_result (CreateRepeat n f)" "well_formed_result (CreateParallelMap f)"
  "well_formed_result (CreateFallback fs)"
  by (rule accepted_well_formed, rule simple_constructors_accepted)+

lemma chains_well_formed:
  "fs \<noteq> [] \<Longrightarrow> well_formed_result (CreateSerialChain fs)"
  "fs \<noteq> [] \<Longrightarrow> well_formed_result (CreateBreakableChain fs)"
  "fs \<noteq> [] \<Longrightarrow> well_formed_result (CreateRepeatedConditionalChain n fs)"
  by (simp_all only: accepted_well_formed [OF chain_constructors_accepted(3) [THEN iffD2]]
      accepted_well_formed [OF chain_constructors_accepted(2) [THEN iffD2]]
      accepted_well_formed [OF chain_constructors_accepted(1) [THEN iffD2]] not_False_eq_True)

lemma others_well_formed:
  "well_formed_result (CreateStruct fs)" "well_formed_result (CreateCall f c)"
  "well_formed_result (CreateReference u)" "well_formed_result (CreateLambda u f)"
  "well_formed_result (CreateSelection c n)" "well_formed_result (CreateConditional c f g)"
  "well_formed_result (CreateLambdaForConditional c f g)"
  by (simp_all add: CreateStruct_def CreateCall_def CreateReference_def CreateLambda_def CreateSelection_def
      CreateConditional_def CreateLambdaForConditional_def well_formed_result_def
      well_formed_computation_def accessor_simps)

lemma native_call_replies: "replies J (native_call J call)"
  by (cases call)
    (auto simp: native_defs intro!: replies_bytes replies_null replies_protos replies_list
      intrinsics_well_formed chains_well_formed others_well_formed)

text \<open>
  Whatever the Java code passes, null, broken bytes or an empty list, bytes that a
  constructor returns to it parse to a computation that the handler of its intrinsic
  accepts. In particular no ill-formed chain reaches Java, although the C++ constructors
  make one of no functions.
\<close>

lemma java_results_well_formed:
  assumes "round_trips (SerializeToArray J) (ParseFromArray J)"
    and "native_call J call = Ok (Some bytes)"
  shows "\<exists>v. ParseFromArray J bytes = Some v \<and> well_formed_computation v"
  using native_call_replies [of J call] assms by (auto simp: replies_def round_trips_def)

text \<open>A virtual machine with the numbered wire format.\<close>

definition sample_jni :: jni where
  "sample_jni = \<lparr>env_is_null = False, GetStringUTFChars = Some, NewByteArray = (\<lambda>_. True),
     GetByteArrayElements = (\<lambda>_. True), list_has_size = True, list_has_get = True,
     SerializeToArray = numbered_text, serialize_ok = (\<lambda>_. True), ParseFromArray = read_numbered\<rparr>"

lemma sample_jni_working: "working_jni sample_jni"
  by (simp add: working_jni_def sample_jni_def numbered_round_trips)

lemma sample_call: "native_call sample_jni nativeCreateLogger = Ok (Some (numbered_text (plain (KIntrinsic (IntrinsicPb kLogger None)))))"
  using working_bytes [OF sample_jni_working]
  by (simp add: GC_create_logger_def CreateLogger_def wire_def sample_jni_def)

lemma java_results_well_formed_witness:
  "\<exists>v. ParseFromArray sample_jni (numbered_text (plain (KIntrinsic (IntrinsicPb kLogger None)))) = Some v
     \<and> well_formed_computation v"
  using java_results_well_formed [OF _ sample_call] by (simp add: sample_jni_def numbered_round_trips)

theorem java_constructors_mirror_witness:
  "mirrors sample_jni nativeCreateLogger CreateLogger
     \<and> native_call sample_jni (nativeCreateSerialChain (Some [])) = Ok None"
  using java_constructors_mirror [OF sample_jni_working, of "[]" empty_value empty_value empty_value 0 "[]"]
  by (simp add: Let_def)

end
