(* ===== verification/C_Interface.thy ===== *)
theory C_Interface
  imports Runner Ownership Wire
begin

text \<open>
  The C interface of the runtime (\<^verbatim>\<open>genc/c/runtime/c_api.cc\<close>, \<^verbatim>\<open>gc_buffer.cc\<close>) and the Java
  native methods over it (\<^verbatim>\<open>genc/java/src/native/org/genc/runtime/executor.cc\<close>,
  \<^verbatim>\<open>owned_value_id.cc\<close>). Values cross as handles and as buffers of serialized bytes that
  their receiver has to delete. Errors do not cross at all: a call that fails returns
  null or leaves its output as it was.
\<close>

section \<open>Memory\<close>

text \<open>
  The data of a buffer is the address of a block of \<open>malloc\<close>, or null; its deallocator is
  null or \<open>free\<close>. Buffers, blocks and owned values are kept by address; \<open>None\<close> is a
  deleted buffer or a freed block.
\<close>

record GC_Buffer =
  data :: "nat option"
  buffer_length :: nat
  data_deallocator :: bool

record 's c_world =
  executor_state :: 's
  owned_values :: "OwnedValueId list"
  buffers :: "GC_Buffer option list"
  blocks :: "string option list"

text \<open>
  The allocator may fail for a size; the wire format of \<open>Value\<close>. Parsing gives the
  message it leaves, which is what was parsed before the error when it fails.
\<close>

record c_lib =
  malloc_ok :: "nat \<Rightarrow> bool"
  Serialize :: "pvalue \<Rightarrow> string"
  ParseArray :: "string \<Rightarrow> bool \<times> pvalue"

definition on_executor :: "('s, 'a) prog \<Rightarrow> ('s c_world, 'a) prog" where
  "on_executor p w = (case p (executor_state w) of (r, s') \<Rightarrow> (r, w\<lparr>executor_state := s'\<rparr>))"

definition the_buffer :: "nat \<Rightarrow> ('s c_world, GC_Buffer) prog" where
  "the_buffer p w =
     (if p < length (buffers w)
      then (case buffers w ! p of Some b \<Rightarrow> (Ok b, w) | None \<Rightarrow> (Crash NullDereference, w))
      else (Crash NullDereference, w))"

definition store_block :: "string \<Rightarrow> 's c_world \<Rightarrow> nat \<times> 's c_world" where
  "store_block bytes w = (length (blocks w), w\<lparr>blocks := blocks w @ [Some bytes]\<rparr>)"

definition block_bytes :: "nat option \<Rightarrow> nat \<Rightarrow> 's c_world \<Rightarrow> string outcome" where
  "block_bytes d n w = (case d of
      None \<Rightarrow> if n = 0 then Ok [] else Crash NullDereference
    | Some p \<Rightarrow>
        if p < length (blocks w)
        then (case blocks w ! p of Some s \<Rightarrow> Ok (take n s) | None \<Rightarrow> Crash NullDereference)
        else Crash NullDereference)"

section \<open>Buffers\<close>

definition GC_NewBuffer :: "('s c_world, nat) prog" where
  "GC_NewBuffer w =
     (Ok (length (buffers w)),
      w\<lparr>buffers := buffers w @ [Some \<lparr>data = None, buffer_length = 0, data_deallocator = False\<rparr>]\<rparr>)"

definition GC_NewBufferFromString :: "c_lib \<Rightarrow> string \<Rightarrow> ('s c_world, nat option) prog" where
  "GC_NewBufferFromString L proto w =
     (if \<not> malloc_ok L (length proto) then (Ok None, w)
      else case store_block proto w of (p, w1) \<Rightarrow>
        (Ok (Some (length (buffers w1))),
         w1\<lparr>buffers := buffers w1 @ [Some \<lparr>data = Some p, buffer_length = length proto, data_deallocator = True\<rparr>]\<rparr>))"

definition free_block :: "nat option \<Rightarrow> 's c_world \<Rightarrow> 's c_world" where
  "free_block d w = (case d of None \<Rightarrow> w | Some p \<Rightarrow> w\<lparr>blocks := (blocks w)[p := None]\<rparr>)"

definition GC_DeleteBuffer :: "nat option \<Rightarrow> ('s c_world, unit) prog" where
  "GC_DeleteBuffer buffer = (case buffer of
      None \<Rightarrow> return ()
    | Some p \<Rightarrow> GENC_TRY (the_buffer p) (\<lambda>b w.
        (Ok (), (if data_deallocator b then free_block (data b) w else w)\<lparr>buffers := (buffers w)[p := None]\<rparr>)))"

definition GC_GetBuffer :: "nat \<Rightarrow> ('s c_world, GC_Buffer) prog" where
  "GC_GetBuffer p = the_buffer p"

text \<open>A buffer that already holds data is left alone.\<close>

definition MessageToBuffer :: "c_lib \<Rightarrow> pvalue \<Rightarrow> nat \<Rightarrow> ('s c_world, unit) prog" where
  "MessageToBuffer L message out =
     GENC_TRY (the_buffer out) (\<lambda>b w.
       if data b \<noteq> None then (Ok (), w)
       else if \<not> malloc_ok L (length (Serialize L message)) then (Ok (), w)
       else case store_block (Serialize L message) w of (p, w1) \<Rightarrow>
         (Ok (), w1\<lparr>buffers := (buffers w1)[out := Some \<lparr>data = Some p,
            buffer_length = length (Serialize L message), data_deallocator = True\<rparr>]\<rparr>))"

definition BufferToMessage :: "c_lib \<Rightarrow> nat option \<Rightarrow> ('s c_world, pvalue) prog" where
  "BufferToMessage L buffer = (case buffer of
      None \<Rightarrow> return empty_value
    | Some p \<Rightarrow> GENC_TRY (the_buffer p) (\<lambda>b w.
        (try_value (block_bytes (data b) (buffer_length b) w) (\<lambda>bytes. Ok (snd (ParseArray L bytes))), w)))"

section \<open>The calls\<close>

definition GC_GetValue :: "nat option \<Rightarrow> ('s c_world, ValueId) prog" where
  "GC_GetValue owned_value_id w = (case owned_value_id of
      None \<Rightarrow> (Crash NullDereference, w)
    | Some k \<Rightarrow> (if k < length (owned_values w) then owned_ref (owned_values w ! k) else Crash NullDereference, w))"

definition GC_create :: "nat \<Rightarrow> 'c libs \<Rightarrow> (ValueId, 'w local_state) executor option" where
  "GC_create n lib = Some (CreateDefaultLocalExecutor n lib)"

text \<open>A new owner for the handle, or null when the call failed.\<close>

definition own_or_null :: "('s, ValueId) prog \<Rightarrow> ('s c_world, nat option) prog" where
  "own_or_null p w = (case on_executor p w of
      (Ok vid, w') \<Rightarrow> (Ok (Some (length (owned_values w'))),
         w'\<lparr>owned_values := owned_values w' @ [\<lparr>owned_exec = True, owned_id = vid\<rparr>]\<rparr>)
    | (Err e, w') \<Rightarrow> (Ok None, w')
    | (Crash c, w') \<Rightarrow> (Crash c, w')
    | (Diverge, w') \<Rightarrow> (Diverge, w'))"

definition GC_create_value ::
  "c_lib \<Rightarrow> (ValueId, 's) executor \<Rightarrow> nat option \<Rightarrow> ('s c_world, nat option) prog" where
  "GC_create_value L ex value =
     GENC_TRY (BufferToMessage L value) (\<lambda>value_proto. own_or_null (create_value ex value_proto))"

definition GC_create_call ::
  "(ValueId, 's) executor \<Rightarrow> u64 \<Rightarrow> u64 \<Rightarrow> ('s c_world, nat option) prog" where
  "GC_create_call ex function arg = own_or_null (create_call ex function (Some arg))"

definition GC_materialize ::
  "c_lib \<Rightarrow> (ValueId, 's) executor \<Rightarrow> u64 \<Rightarrow> nat \<Rightarrow> ('s c_world, unit) prog" where
  "GC_materialize L ex value out w = (case on_executor (Materialize_pb ex value) w of
      (Ok v, w') \<Rightarrow> MessageToBuffer L v out w'
    | (Err e, w') \<Rightarrow> (Ok (), w')
    | (Crash c, w') \<Rightarrow> (Crash c, w')
    | (Diverge, w') \<Rightarrow> (Diverge, w'))"

definition GC_dispose :: "(ValueId, 's) executor \<Rightarrow> u64 \<Rightarrow> ('s c_world, unit) prog" where
  "GC_dispose ex value w = (case on_executor (dispose ex value) w of
      (Err e, w') \<Rightarrow> (Ok (), w')
    | r \<Rightarrow> r)"

section \<open>The native methods of the Java classes\<close>

text \<open>A Java handle is the address of an object, or zero, which is \<open>None\<close>.\<close>

definition Java_createValue ::
  "c_lib \<Rightarrow> (ValueId, 's) executor option \<Rightarrow> string option \<Rightarrow> ('s c_world, nat option) prog" where
  "Java_createValue L executor_handle value = (case executor_handle of
      None \<Rightarrow> return None
    | Some ex \<Rightarrow>
        if value = None \<or> value = Some [] then GC_create_value L ex None
        else GENC_TRY (GC_NewBufferFromString L (the value)) (\<lambda>buf. case buf of
            None \<Rightarrow> return None
          | Some b \<Rightarrow> GENC_TRY (GC_create_value L ex (Some b)) (\<lambda>owned.
              GENC_TRY (GC_DeleteBuffer (Some b)) (\<lambda>_. return owned))))"

definition Java_createCall ::
  "(ValueId, 's) executor option \<Rightarrow> u64 \<Rightarrow> u64 \<Rightarrow> ('s c_world, nat option) prog" where
  "Java_createCall executor_handle function arg = (case executor_handle of
      None \<Rightarrow> return None
    | Some ex \<Rightarrow> GC_create_call ex function arg)"

definition Java_materialize ::
  "c_lib \<Rightarrow> (ValueId, 's) executor option \<Rightarrow> u64 \<Rightarrow> ('s c_world, string option) prog" where
  "Java_materialize L executor_handle value = (case executor_handle of
      None \<Rightarrow> return None
    | Some ex \<Rightarrow>
        GENC_TRY GC_NewBuffer (\<lambda>buf.
        GENC_TRY (GC_materialize L ex value buf) (\<lambda>_.
        GENC_TRY (the_buffer buf) (\<lambda>b w.
          (try_value (block_bytes (data b) (buffer_length b) w) (\<lambda>bytes. Ok (Some bytes)), w)))))"

definition Java_dispose :: "(ValueId, 's) executor option \<Rightarrow> u64 \<Rightarrow> ('s c_world, unit) prog" where
  "Java_dispose executor_handle value = (case executor_handle of
      None \<Rightarrow> return ()
    | Some ex \<Rightarrow> GC_dispose ex value)"

definition Java_OwnedValueId_ref :: "nat option \<Rightarrow> ('s c_world, ValueId) prog" where
  "Java_OwnedValueId_ref value_handle = GC_GetValue value_handle"

section \<open>Buffers own their blocks\<close>

text \<open>The calls of a client, in any order and with any arguments.\<close>

datatype c_op =
    NewBuffer
  | NewBufferFromString string
  | DeleteBuffer "nat option"
  | CreateValue "nat option"
  | CreateCall u64 u64
  | Materialize u64 nat
  | Dispose u64
  | JavaCreateValue "string option"
  | JavaMaterialize u64

fun c_step :: "c_lib \<Rightarrow> (ValueId, 's) executor \<Rightarrow> c_op \<Rightarrow> 's c_world \<Rightarrow> 's c_world" where
  "c_step L ex NewBuffer w = snd (GC_NewBuffer w)"
| "c_step L ex (NewBufferFromString s) w = snd (GC_NewBufferFromString L s w)"
| "c_step L ex (DeleteBuffer b) w = snd (GC_DeleteBuffer b w)"
| "c_step L ex (CreateValue b) w = snd (GC_create_value L ex b w)"
| "c_step L ex (CreateCall f a) w = snd (GC_create_call ex f a w)"
| "c_step L ex (Materialize v b) w = snd (GC_materialize L ex v b w)"
| "c_step L ex (Dispose v) w = snd (GC_dispose ex v w)"
| "c_step L ex (JavaCreateValue s) w = snd (Java_createValue L (Some ex) s w)"
| "c_step L ex (JavaMaterialize v) w = snd (Java_materialize L (Some ex) v w)"

definition c_run :: "c_lib \<Rightarrow> (ValueId, 's) executor \<Rightarrow> c_op list \<Rightarrow> 's c_world \<Rightarrow> 's c_world" where
  "c_run L ex ops w = fold (c_step L ex) ops w"

definition fresh_world :: "'s \<Rightarrow> 's c_world" where
  "fresh_world s = \<lparr>executor_state = s, owned_values = [], buffers = [], blocks = []\<rparr>"

fun buffer_data :: "GC_Buffer option \<Rightarrow> nat list" where
  "buffer_data None = []"
| "buffer_data (Some b) = (case data b of None \<Rightarrow> [] | Some p \<Rightarrow> [p])"

definition live_data :: "'s c_world \<Rightarrow> nat list" where
  "live_data w = concat (map buffer_data (buffers w))"

definition live_blocks :: "'s c_world \<Rightarrow> nat set" where
  "live_blocks w = {p. p < length (blocks w) \<and> blocks w ! p \<noteq> None}"

definition good_buffer :: "string option list \<Rightarrow> GC_Buffer \<Rightarrow> bool" where
  "good_buffer bl b \<longleftrightarrow> (case data b of None \<Rightarrow> buffer_length b = 0
     | Some p \<Rightarrow> data_deallocator b \<and> p < length bl \<and> (\<exists>s. bl ! p = Some s \<and> length s = buffer_length b))"

definition memory_inv :: "'s c_world \<Rightarrow> bool" where
  "memory_inv w \<longleftrightarrow> distinct (live_data w) \<and> set (live_data w) = live_blocks w
     \<and> (\<forall>b. Some b \<in> set (buffers w) \<longrightarrow> good_buffer (blocks w) b)"

definition same_memory :: "'s c_world \<Rightarrow> 's c_world \<Rightarrow> bool" where
  "same_memory w w' \<longleftrightarrow> buffers w' = buffers w \<and> blocks w' = blocks w"

lemma memory_inv_same: "same_memory w w' \<Longrightarrow> memory_inv w \<Longrightarrow> memory_inv w'"
  by (simp add: same_memory_def memory_inv_def live_data_def live_blocks_def)

lemma memory_inv_fresh: "memory_inv (fresh_world s)"
  by (simp add: memory_inv_def live_data_def live_blocks_def fresh_world_def)

lemma good_buffer_append: "good_buffer bl b \<Longrightarrow> good_buffer (bl @ [x]) b"
  by (auto simp: good_buffer_def nth_append split: option.splits)

lemma live_data_append:
  "live_data (w\<lparr>buffers := buffers w @ [b]\<rparr>) = live_data w @ buffer_data b"
  by (simp add: live_data_def)

lemma concat_update:
  assumes "i < length bs"
  shows "concat (map buffer_data (bs[i := x])) =
    concat (map buffer_data (take i bs)) @ buffer_data x @ concat (map buffer_data (drop (Suc i) bs))"
  using assms by (simp add: upd_conv_take_nth_drop)

lemma concat_at:
  assumes "i < length bs"
  shows "concat (map buffer_data bs) =
    concat (map buffer_data (take i bs)) @ buffer_data (bs ! i) @ concat (map buffer_data (drop (Suc i) bs))"
  using concat_update [OF assms, of "bs ! i"] by simp

text \<open>A buffer without data comes and goes.\<close>

lemma memory_inv_new: "memory_inv w \<Longrightarrow> memory_inv (snd (GC_NewBuffer w))"
  by (auto simp: memory_inv_def GC_NewBuffer_def live_data_def live_blocks_def good_buffer_def)

text \<open>A new block, owned by a new buffer or by one that had no data.\<close>

lemma live_blocks_append: "live_blocks (w\<lparr>blocks := blocks w @ [Some s], buffers := bs\<rparr>)
    = insert (length (blocks w)) (live_blocks w)"
  by (auto simp: live_blocks_def nth_append)

lemma live_data_bound: "memory_inv w \<Longrightarrow> length (blocks w) \<notin> set (live_data w)"
  by (simp add: memory_inv_def live_blocks_def)

lemma memory_inv_from_string:
  assumes "memory_inv w"
  shows "memory_inv (snd (GC_NewBufferFromString L s w))"
  using assms live_data_bound [OF assms]
  by (auto simp: memory_inv_def GC_NewBufferFromString_def store_block_def live_data_def live_blocks_def
      good_buffer_def nth_append split: option.splits)

lemma memory_inv_fill:
  assumes w: "memory_inv w" and p: "p < length (buffers w)" "buffers w ! p = Some b" "data b = None"
  shows "memory_inv (w\<lparr>blocks := blocks w @ [Some s],
    buffers := (buffers w)[p := Some \<lparr>data = Some (length (blocks w)), buffer_length = length s,
      data_deallocator = True\<rparr>]\<rparr>)" (is "memory_inv ?w")
proof -
  have at: "live_data w = concat (map buffer_data (take p (buffers w)))
      @ concat (map buffer_data (drop (Suc p) (buffers w)))"
    using concat_at [OF p(1)] p by (simp add: live_data_def)
  have new: "live_data ?w = concat (map buffer_data (take p (buffers w)))
      @ length (blocks w) # concat (map buffer_data (drop (Suc p) (buffers w)))"
    by (simp add: live_data_def concat_update p(1))
  have "good_buffer (blocks w @ [Some s]) c"
    if "Some c \<in> set ((buffers w)[p := Some \<lparr>data = Some (length (blocks w)), buffer_length = length s,
      data_deallocator = True\<rparr>])" for c
  proof -
    have "Some c \<in> insert (Some \<lparr>data = Some (length (blocks w)), buffer_length = length s,
        data_deallocator = True\<rparr>) (set (buffers w))"
      using that set_update_subset_insert by (rule subsetD [rotated])
    then consider "c = \<lparr>data = Some (length (blocks w)), buffer_length = length s, data_deallocator = True\<rparr>"
      | "Some c \<in> set (buffers w)" by auto
    then show ?thesis
    proof cases
      case 1
      then show ?thesis by (simp add: good_buffer_def)
    next
      case 2
      then show ?thesis using w by (simp add: memory_inv_def good_buffer_append)
    qed
  qed
  then show ?thesis
    using w live_data_bound [OF w]
    by (auto simp: memory_inv_def new at live_blocks_append)
qed

lemma memory_inv_delete:
  assumes w: "memory_inv w" and p: "p < length (buffers w)" "buffers w ! p = Some b"
  shows "memory_inv ((if data_deallocator b then free_block (data b) w else w)\<lparr>buffers := (buffers w)[p := None]\<rparr>)"
    (is "memory_inv ?w")
proof -
  have b: "good_buffer (blocks w) b" using w p by (auto simp: memory_inv_def dest: nth_mem)
  have at: "live_data w = concat (map buffer_data (take p (buffers w))) @ buffer_data (Some b)
      @ concat (map buffer_data (drop (Suc p) (buffers w)))"
    using concat_at [OF p(1)] p by (simp add: live_data_def)
  have new: "live_data ?w = concat (map buffer_data (take p (buffers w)))
      @ concat (map buffer_data (drop (Suc p) (buffers w)))"
    by (simp add: live_data_def concat_update p(1))
  have rest: "Some c \<in> set (take p (buffers w)) \<union> set (drop (Suc p) (buffers w))"
    if "Some c \<in> set ((buffers w)[p := None])" for c
    using that p(1) by (auto simp: upd_conv_take_nth_drop)
  have keep: "data c = Some q \<Longrightarrow> q \<in> set (live_data ?w)"
    if "Some c \<in> set ((buffers w)[p := None])" for c q
    using rest [OF that] unfolding new by force
  have old: "good_buffer (blocks w) c" if "Some c \<in> set ((buffers w)[p := None])" for c
    using rest [OF that] w by (auto simp: memory_inv_def dest: in_set_takeD in_set_dropD)
  show ?thesis
  proof (cases "data b")
    case None
    then have "blocks ?w = blocks w" by (simp add: free_block_def)
    then show ?thesis
      using w None old by (auto simp: memory_inv_def at new live_blocks_def)
  next
    case (Some q)
    then have bl: "blocks ?w = (blocks w)[q := None]" and q: "q < length (blocks w)"
      using b by (auto simp: good_buffer_def free_block_def)
    have d: "distinct (live_data w)" "set (live_data w) = live_blocks w"
      using w by (simp_all add: memory_inv_def)
    have nq: "q \<notin> set (live_data ?w)"
      using d(1) Some by (auto simp: at new)
    have lb: "live_blocks ?w = live_blocks w - {q}"
      using q by (auto simp: live_blocks_def bl nth_list_update)
    have "good_buffer (blocks ?w) c" if c: "Some c \<in> set (buffers ?w)" for c
    proof -
      have "Some c \<in> set ((buffers w)[p := None])" using c by (simp add: free_block_def split: if_splits option.splits)
      then show ?thesis
        using old [of c] keep [of c] nq q by (auto simp: good_buffer_def bl nth_list_update split: option.splits)
    qed
    moreover have "distinct (live_data ?w)" using d(1) by (auto simp: at new)
    moreover have "set (live_data ?w) = live_blocks ?w"
      using d(2) nq Some unfolding lb by (auto simp: at new)
    ultimately show ?thesis unfolding memory_inv_def by blast
  qed
qed

section \<open>Every call keeps the memory in order\<close>

text \<open>A step keeps the invariant, whatever it returns.\<close>

definition keeps_memory :: "('s c_world, 'a) prog \<Rightarrow> bool" where
  "keeps_memory p \<longleftrightarrow> (\<forall>w. memory_inv w \<longrightarrow> memory_inv (snd (p w)))"

lemma keeps_memoryD: "keeps_memory p \<Longrightarrow> memory_inv w \<Longrightarrow> memory_inv (snd (p w))"
  by (simp add: keeps_memory_def)

lemma keeps_try:
  assumes "keeps_memory p" and "\<And>x. keeps_memory (k x)"
  shows "keeps_memory (GENC_TRY p k)"
  unfolding keeps_memory_def GENC_TRY_apply
  using assms by (auto dest: keeps_memoryD split: prod.split outcome.split) (metis keeps_memoryD snd_conv)+

lemma keeps_return [intro]: "keeps_memory (return x)"
  by (simp add: keeps_memory_def return_def)

lemma keeps_same: "(\<And>w. same_memory w (snd (p w))) \<Longrightarrow> keeps_memory p"
  by (auto simp: keeps_memory_def intro: memory_inv_same)

lemma keeps_the_buffer: "keeps_memory (the_buffer p)"
  by (rule keeps_same) (simp add: the_buffer_def same_memory_def split: option.split)

lemma keeps_read: "keeps_memory (\<lambda>w. (f w, w))"
  by (simp add: keeps_memory_def)

lemma same_on_executor: "same_memory w (snd (on_executor p w))"
  by (simp add: on_executor_def same_memory_def split: prod.split)

lemma keeps_own_or_null: "keeps_memory (own_or_null p)"
proof (rule keeps_same)
  fix w
  show "same_memory w (snd (own_or_null p w))"
    using same_on_executor [of w p]
    by (auto simp: own_or_null_def same_memory_def split: prod.split outcome.split)
qed

lemma keeps_dispose: "keeps_memory (GC_dispose ex v)"
proof (rule keeps_same)
  fix w
  show "same_memory w (snd (GC_dispose ex v w))"
    using same_on_executor [of w "dispose ex v"]
    by (auto simp: GC_dispose_def split: prod.split outcome.split)
qed

lemma the_buffer_Ok:
  "the_buffer p w = (Ok b, w') \<longleftrightarrow> w' = w \<and> p < length (buffers w) \<and> buffers w ! p = Some b"
  by (auto simp: the_buffer_def split: option.splits)

lemma keeps_with_buffer:
  assumes "\<And>w b. memory_inv w \<Longrightarrow> p < length (buffers w) \<Longrightarrow> buffers w ! p = Some b \<Longrightarrow>
    memory_inv (snd (k b w))"
  shows "keeps_memory (GENC_TRY (the_buffer p) k)"
  using assms by (auto simp: keeps_memory_def GENC_TRY_apply the_buffer_def split: option.split)

lemma keeps_delete: "keeps_memory (GC_DeleteBuffer b)"
  by (auto simp: GC_DeleteBuffer_def intro!: keeps_with_buffer dest: memory_inv_delete split: option.split)

lemma keeps_MessageToBuffer: "keeps_memory (MessageToBuffer L m out)"
  unfolding MessageToBuffer_def
  by (rule keeps_with_buffer) (simp add: store_block_def memory_inv_fill)

lemma keeps_BufferToMessage: "keeps_memory (BufferToMessage L b)"
  unfolding BufferToMessage_def
  by (auto split: option.split intro!: keeps_try keeps_the_buffer keeps_read)

lemma keeps_create_value: "keeps_memory (GC_create_value L ex b)"
  unfolding GC_create_value_def by (intro keeps_try keeps_BufferToMessage keeps_own_or_null)

lemma keeps_create_call: "keeps_memory (GC_create_call ex f a)"
  unfolding GC_create_call_def by (rule keeps_own_or_null)

lemma keeps_materialize: "keeps_memory (GC_materialize L ex v out)"
  unfolding keeps_memory_def
proof (intro allI impI)
  fix w :: "'a c_world"
  assume "memory_inv w"
  then have "memory_inv (snd (on_executor (Materialize_pb ex v) w))"
    by (rule memory_inv_same [OF same_on_executor])
  then show "memory_inv (snd (GC_materialize L ex v out w))"
    using keeps_memoryD [OF keeps_MessageToBuffer]
    by (auto simp: GC_materialize_def split: prod.split outcome.split)
qed

lemma keeps_new: "keeps_memory GC_NewBuffer" "keeps_memory (GC_NewBufferFromString L s)"
  by (simp_all add: keeps_memory_def memory_inv_new memory_inv_from_string)

lemma keeps_java: "keeps_memory (Java_createValue L e s)" "keeps_memory (Java_materialize L e v)"
  unfolding Java_createValue_def Java_materialize_def
  by (auto intro!: keeps_try keeps_new keeps_create_value keeps_delete keeps_materialize
      keeps_the_buffer keeps_read split: option.split)

lemma c_step_memory: "memory_inv w \<Longrightarrow> memory_inv (c_step L ex op w)"
  by (cases op)
    (simp_all add: keeps_memoryD [OF keeps_create_value] keeps_memoryD [OF keeps_create_call]
      keeps_memoryD [OF keeps_materialize] keeps_memoryD [OF keeps_dispose] keeps_memoryD [OF keeps_delete]
      keeps_memoryD [OF keeps_new(1)] keeps_memoryD [OF keeps_new(2)]
      keeps_memoryD [OF keeps_java(1)] keeps_memoryD [OF keeps_java(2)])

lemma c_run_memory: "memory_inv w \<Longrightarrow> memory_inv (c_run L ex ops w)"
  by (induction ops arbitrary: w) (simp_all add: c_run_def c_step_memory)


text \<open>A library with the numbered wire format and an allocator that never fails.\<close>

definition numbered_lib :: c_lib where
  "numbered_lib = \<lparr>malloc_ok = (\<lambda>_. True), Serialize = numbered_text,
     ParseArray = (\<lambda>s. case read_numbered s of Some v \<Rightarrow> (True, v) | None \<Rightarrow> (False, empty_value))\<rparr>"


section \<open>A run through the interface\<close>

text \<open>The calls of \<^verbatim>\<open>Runner.java\<close>, which keeps the handle of the computation.\<close>

definition java_run ::
  "c_lib \<Rightarrow> (ValueId, 's) executor \<Rightarrow> string \<Rightarrow> string \<Rightarrow> ('s c_world, string option) prog" where
  "java_run L ex computation arg =
     GENC_TRY (Java_createValue L (Some ex) (Some computation)) (\<lambda>computation_val.
     GENC_TRY (Java_createValue L (Some ex) (Some arg)) (\<lambda>arg_val.
     GENC_TRY (Java_OwnedValueId_ref computation_val) (\<lambda>f.
     GENC_TRY (Java_OwnedValueId_ref arg_val) (\<lambda>a.
     GENC_TRY (Java_createCall (Some ex) f a) (\<lambda>result_val.
     GENC_TRY (Java_OwnedValueId_ref result_val) (\<lambda>r.
     GENC_TRY (Java_materialize L (Some ex) r) (\<lambda>result.
     GENC_TRY (Java_dispose (Some ex) a) (\<lambda>_.
     GENC_TRY (Java_dispose (Some ex) r) (\<lambda>_. return result)))))))))"


text \<open>
  An allocator that does not fail, and the wire format: it reads back, and the empty
  message has no bytes.
\<close>

definition working_lib :: "c_lib \<Rightarrow> bool" where
  "working_lib L \<longleftrightarrow> (\<forall>n. malloc_ok L n) \<and> (\<forall>v. ParseArray L (Serialize L v) = (True, v))
     \<and> Serialize L empty_value = []"

lemma working_libD:
  assumes "working_lib L"
  shows "malloc_ok L n" "ParseArray L (Serialize L v) = (True, v)" "Serialize L v = [] \<Longrightarrow> v = empty_value"
proof -
  show "malloc_ok L n" "ParseArray L (Serialize L v) = (True, v)"
    using assms by (simp_all add: working_lib_def)
  show "v = empty_value" if nil: "Serialize L v = []"
  proof -
    have r: "ParseArray L (Serialize L u) = (True, u)" for u
      using assms by (simp add: working_lib_def)
    have "Serialize L empty_value = []"
      using assms by (simp only: working_lib_def)
    then show ?thesis using r [of v] r [of empty_value] nil by simp
  qed
qed


text \<open>Where a call leaves the executor and the owned values; the memory is whatever it is.\<close>

definition leaves :: "'a outcome \<times> 's c_world \<Rightarrow> 'a outcome \<Rightarrow> 's \<Rightarrow> OwnedValueId list \<Rightarrow> bool" where
  "leaves rw r s vs \<longleftrightarrow> fst rw = r \<and> executor_state (snd rw) = s \<and> owned_values (snd rw) = vs"

definition fresh_owner :: "ValueId \<Rightarrow> OwnedValueId" where
  "fresh_owner vid = \<lparr>owned_exec = True, owned_id = vid\<rparr>"

lemma leaves_own:
  "p (executor_state w) = (Ok vid, s') \<Longrightarrow>
     leaves (own_or_null p w) (Ok (Some (length (owned_values w)))) s' (owned_values w @ [fresh_owner vid])"
  "p (executor_state w) = (Err e, s') \<Longrightarrow> leaves (own_or_null p w) (Ok None) s' (owned_values w)"
  by (simp_all add: leaves_def own_or_null_def on_executor_def fresh_owner_def)

text \<open>Creating a value from non-empty bytes: the buffer is made, read and deleted.\<close>

lemma java_create_value_bytes:
  assumes L: "working_lib L" and v: "Serialize L v \<noteq> []"
    and own: "leaves (own_or_null (create_value ex v) w1) (Ok r) s' vs"
    and w1: "w1 = w\<lparr>blocks := blocks w @ [Some (Serialize L v)], buffers := buffers w @
      [Some \<lparr>data = Some (length (blocks w)), buffer_length = length (Serialize L v), data_deallocator = True\<rparr>]\<rparr>"
  shows "leaves (Java_createValue L (Some ex) (Some (Serialize L v)) w) (Ok r) s' vs"
proof -
  obtain w' where w': "own_or_null (create_value ex v) w1 = (Ok r, w')"
    using own by (cases "own_or_null (create_value ex v) w1") (simp add: leaves_def)
  have mem: "buffers w' = buffers w1" "blocks w' = blocks w1"
    using w' by (auto simp: own_or_null_def on_executor_def split: prod.splits outcome.splits)
  have new: "GC_NewBufferFromString L (Serialize L v) w = (Ok (Some (length (buffers w))), w1)"
    by (simp add: GC_NewBufferFromString_def store_block_def w1 working_libD [OF L])
  have read: "BufferToMessage L (Some (length (buffers w))) w1 = (Ok v, w1)"
    by (simp add: BufferToMessage_def GENC_TRY_apply the_buffer_def block_bytes_def w1 working_libD [OF L])
  have del: "leaves (GC_DeleteBuffer (Some (length (buffers w))) w') (Ok ()) (executor_state w') (owned_values w')"
    by (simp add: leaves_def GC_DeleteBuffer_def GENC_TRY_apply the_buffer_def free_block_def mem w1)
  then obtain w2 where d: "GC_DeleteBuffer (Some (length (buffers w))) w' = (Ok (), w2)"
    and w2: "executor_state w2 = executor_state w'" "owned_values w2 = owned_values w'"
    by (cases "GC_DeleteBuffer (Some (length (buffers w))) w'") (simp add: leaves_def)
  have "Java_createValue L (Some ex) (Some (Serialize L v)) w = (Ok r, w2)"
    using v by (simp add: Java_createValue_def GC_create_value_def GENC_TRY_apply new read w' d return_def)
  then show ?thesis using own w2 by (simp add: leaves_def w')
qed

lemma java_create_value:
  assumes L: "working_lib L"
  shows "create_value ex v (executor_state w) = (Ok vid, s') \<Longrightarrow>
      leaves (Java_createValue L (Some ex) (Some (Serialize L v)) w)
        (Ok (Some (length (owned_values w)))) s' (owned_values w @ [fresh_owner vid])"
    and "create_value ex v (executor_state w) = (Err e, s') \<Longrightarrow>
      leaves (Java_createValue L (Some ex) (Some (Serialize L v)) w) (Ok None) s' (owned_values w)"
proof -
  let ?w1 = "w\<lparr>blocks := blocks w @ [Some (Serialize L v)], buffers := buffers w @
      [Some \<lparr>data = Some (length (blocks w)), buffer_length = length (Serialize L v), data_deallocator = True\<rparr>]\<rparr>"
  have null: "Java_createValue L (Some ex) (Some (Serialize L v)) w = own_or_null (create_value ex v) w"
    if "Serialize L v = []"
    using working_libD(3) [OF L that] that
    by (simp add: Java_createValue_def GC_create_value_def BufferToMessage_def)
  show "leaves (Java_createValue L (Some ex) (Some (Serialize L v)) w)
        (Ok (Some (length (owned_values w)))) s' (owned_values w @ [fresh_owner vid])"
    if "create_value ex v (executor_state w) = (Ok vid, s')"
    using leaves_own(1) [of "create_value ex v" w, OF that] leaves_own(1) [of "create_value ex v" ?w1] that null
      java_create_value_bytes [OF L _ _ refl, of v ex w]
    by (cases "Serialize L v = []") simp_all
  show "leaves (Java_createValue L (Some ex) (Some (Serialize L v)) w) (Ok None) s' (owned_values w)"
    if "create_value ex v (executor_state w) = (Err e, s')"
    using leaves_own(2) [of "create_value ex v" w, OF that] leaves_own(2) [of "create_value ex v" ?w1] that null
      java_create_value_bytes [OF L _ _ refl, of v ex w]
    by (cases "Serialize L v = []") simp_all
qed

lemma leavesE:
  assumes "leaves rw r s vs"
  obtains w' where "rw = (r, w')" "executor_state w' = s" "owned_values w' = vs"
  using assms by (cases rw) (simp add: leaves_def)

lemma java_materialize:
  assumes L: "working_lib L"
  shows "Materialize_pb ex r (executor_state w) = (Ok v, s') \<Longrightarrow>
      leaves (Java_materialize L (Some ex) r w) (Ok (Some (Serialize L v))) s' (owned_values w)"
    and "Materialize_pb ex r (executor_state w) = (Err e, s') \<Longrightarrow>
      leaves (Java_materialize L (Some ex) r w) (Ok (Some [])) s' (owned_values w)"
  by (simp_all add: leaves_def Java_materialize_def GC_NewBuffer_def GENC_TRY_apply GC_materialize_def
      on_executor_def MessageToBuffer_def the_buffer_def store_block_def block_bytes_def working_libD [OF L])

lemma java_dispose:
  assumes "dispose ex a (executor_state w) = (r, s')" and "r = Ok () \<or> (\<exists>e. r = Err e)"
  shows "leaves (Java_dispose (Some ex) a w) (Ok ()) s' (owned_values w)"
  using assms by (auto simp: leaves_def Java_dispose_def GC_dispose_def on_executor_def)

lemma java_create_call:
  "create_call ex f (Some a) (executor_state w) = (Ok vid, s') \<Longrightarrow>
     leaves (Java_createCall (Some ex) f a w) (Ok (Some (length (owned_values w)))) s'
       (owned_values w @ [fresh_owner vid])"
  "create_call ex f (Some a) (executor_state w) = (Err e, s') \<Longrightarrow>
     leaves (Java_createCall (Some ex) f a w) (Ok None) s' (owned_values w)"
  using leaves_own [of "create_call ex f (Some a)" w]
  by (simp_all add: Java_createCall_def GC_create_call_def)

lemma java_ref:
  "k < length (owned_values w) \<Longrightarrow> owned_values w ! k = fresh_owner vid \<Longrightarrow> vid \<noteq> INVALID_ID \<Longrightarrow>
     Java_OwnedValueId_ref (Some k) w = (Ok vid, w)"
  by (simp add: Java_OwnedValueId_ref_def GC_GetValue_def owned_ref_def fresh_owner_def)

text \<open>The handles of the computation and the argument.\<close>

lemma java_run_start:
  assumes L: "working_lib L" and w: "owned_values w = []"
    and c: "create_value ex computation (executor_state w) = (Ok f, s1)"
    and a: "create_value ex arg s1 = (Ok x, s2)" and valid: "f \<noteq> INVALID_ID" "x \<noteq> INVALID_ID"
  obtains w2 where "executor_state w2 = s2" "owned_values w2 = [fresh_owner f, fresh_owner x]"
    "java_run L ex (Serialize L computation) (Serialize L arg) w =
       GENC_TRY (Java_createCall (Some ex) f x) (\<lambda>result_val.
       GENC_TRY (Java_OwnedValueId_ref result_val) (\<lambda>r.
       GENC_TRY (Java_materialize L (Some ex) r) (\<lambda>result.
       GENC_TRY (Java_dispose (Some ex) x) (\<lambda>_.
       GENC_TRY (Java_dispose (Some ex) r) (\<lambda>_. return result))))) w2"
proof -
  obtain w1 where w1: "Java_createValue L (Some ex) (Some (Serialize L computation)) w = (Ok (Some 0), w1)"
    "executor_state w1 = s1" "owned_values w1 = [fresh_owner f]"
    using java_create_value(1) [where w = w, OF L c] by (rule leavesE) (simp add: w)
  obtain w2 where w2: "Java_createValue L (Some ex) (Some (Serialize L arg)) w1 = (Ok (Some 1), w2)"
    "executor_state w2 = s2" "owned_values w2 = [fresh_owner f, fresh_owner x]"
    using java_create_value(1) [OF L, of ex arg w1 x s2] a w1 by (auto elim!: leavesE)
  have refs: "Java_OwnedValueId_ref (Some 0) w2 = (Ok f, w2)" "Java_OwnedValueId_ref (Some 1) w2 = (Ok x, w2)"
    using valid by (simp_all add: java_ref w2)
  show ?thesis
    using that [OF w2(2,3)]
    by (simp only: java_run_def GENC_TRY_apply [of "Java_createValue _ _ _"]
        GENC_TRY_apply [of "Java_OwnedValueId_ref _" _ w2] w1(1) w2(1) refs prod.case outcome.case)
qed


text \<open>
  When a call fails, Java gets a null handle, and asking for its reference, as the
  runner does next, dereferences it: a failed step of a run crashes the virtual machine
  instead of raising an exception.
\<close>

lemma java_failed_call_crashes:
  fixes ex :: "(ValueId, 's) executor" and w :: "'s c_world"
  assumes L: "working_lib L" and w: "owned_values w = []"
    and c: "create_value ex computation (executor_state w) = (Ok f, s1)"
    and a: "create_value ex arg s1 = (Ok x, s2)"
    and r: "create_call ex f (Some x) s2 = (Err e, s3)"
    and valid: "f \<noteq> INVALID_ID" "x \<noteq> INVALID_ID"
  shows "fst (java_run L ex (Serialize L computation) (Serialize L arg) w) = Crash NullDereference"
proof -
  obtain w2 where w2: "executor_state w2 = s2"
    and run: "java_run L ex (Serialize L computation) (Serialize L arg) w =
       GENC_TRY (Java_createCall (Some ex) f x) (\<lambda>result_val.
       GENC_TRY (Java_OwnedValueId_ref result_val) (\<lambda>r.
       GENC_TRY (Java_materialize L (Some ex) r) (\<lambda>result.
       GENC_TRY (Java_dispose (Some ex) x) (\<lambda>_.
       GENC_TRY (Java_dispose (Some ex) r) (\<lambda>_. return result))))) w2"
    by (rule java_run_start [OF L w c a valid])
  obtain w3 where "Java_createCall (Some ex) f x w2 = (Ok None, w3)"
    using java_create_call(2) [of ex f x w2 e s3] r by (auto elim!: leavesE simp: w2)
  then show ?thesis
    by (simp add: run GENC_TRY_apply Java_OwnedValueId_ref_def GC_GetValue_def)
qed

section \<open>A small executor\<close>

text \<open>The wire format with no bytes for the empty message.\<close>

definition wire_lib :: c_lib where
  "wire_lib = \<lparr>malloc_ok = (\<lambda>_. True),
     Serialize = (\<lambda>v. if v = empty_value then [] else numbered_text v),
     ParseArray = (\<lambda>s. if s = [] then (True, empty_value) else
       case read_numbered s of Some v \<Rightarrow> (True, v) | None \<Rightarrow> (False, empty_value))\<rparr>"

lemma wire_lib_working: "working_lib wire_lib"
proof -
  have "numbered_text v \<noteq> []" for v :: pvalue by (simp add: numbered_text_def)
  then show ?thesis
    by (simp add: working_lib_def wire_lib_def round_tripsD [OF numbered_round_trips])
qed

text \<open>Values are messages, and a call of the logical not gives back its argument.\<close>

definition echo_impl :: "(pvalue, unit) executor_impl" where
  "echo_impl = \<lparr>executor_name = ''echo'', impl_create_value = return,
     impl_create_call = (\<lambda>f a. if has_intrinsic f then return (or_default a) else lift (InternalError [])),
     impl_create_struct = (\<lambda>vs. lift (InternalError [])),
     impl_create_selection = (\<lambda>v i. lift (InternalError [])),
     impl_materialize = (\<lambda>v want. return (Some v))\<rparr>"

definition negation_pb :: pvalue where
  "negation_pb = plain (KIntrinsic (IntrinsicPb kLogicalNot None))"

lemma echo_calls:
  "create_value (ExecutorBase echo_impl) v (initial_state ()) =
     (Ok 0, \<lparr>next_value_id = 1, tracked_values = [0 \<mapsto> v], sub_state = ()\<rparr>)"
  "create_value (ExecutorBase echo_impl) u \<lparr>next_value_id = 1, tracked_values = [0 \<mapsto> v], sub_state = ()\<rparr> =
     (Ok 1, \<lparr>next_value_id = 2, tracked_values = [0 \<mapsto> v, 1 \<mapsto> u], sub_state = ()\<rparr>)"
  "create_call (ExecutorBase echo_impl) 0 (Some 1)
       \<lparr>next_value_id = 2, tracked_values = [0 \<mapsto> v, 1 \<mapsto> u], sub_state = ()\<rparr> =
     (if has_intrinsic v then (Ok 2, \<lparr>next_value_id = 3, tracked_values = [0 \<mapsto> v, 1 \<mapsto> u, 2 \<mapsto> u], sub_state = ()\<rparr>)
      else (InternalError [], \<lparr>next_value_id = 2, tracked_values = [0 \<mapsto> v, 1 \<mapsto> u], sub_state = ()\<rparr>))"
  "Materialize_pb (ExecutorBase echo_impl) 2
       \<lparr>next_value_id = 3, tracked_values = [0 \<mapsto> v, 1 \<mapsto> u, 2 \<mapsto> u], sub_state = ()\<rparr> =
     (Ok u, \<lparr>next_value_id = 3, tracked_values = [0 \<mapsto> v, 1 \<mapsto> u, 2 \<mapsto> u], sub_state = ()\<rparr>)"
  "fst (dispose (ExecutorBase echo_impl) x \<lparr>next_value_id = n, tracked_values = t, sub_state = ()\<rparr>) = Ok ()
   \<or> (\<exists>e. fst (dispose (ExecutorBase echo_impl) x \<lparr>next_value_id = n, tracked_values = t, sub_state = ()\<rparr>) = Err e)"
  by (auto simp: echo_impl_def base_create_value_def base_create_call_def Materialize_pb_def base_materialize_def base_dispose_def GetTracked_def TrackValue_def in_sub_def GENC_TRY_apply return_def lift_def initial_state_def or_default_def split: option.splits)

lemma echo_dispose:
  "dispose (ExecutorBase echo_impl) x b = (r, b') \<Longrightarrow> r = Ok () \<or> (\<exists>e. r = Err e)"
  by (auto simp: base_dispose_def split: option.splits)

lemma echo_ids: "(0 :: ValueId) \<noteq> INVALID_ID" "(1 :: ValueId) \<noteq> INVALID_ID" "(2 :: ValueId) \<noteq> INVALID_ID"
  by (simp_all add: INVALID_ID_def)


lemma java_failed_call_crashes_witness:
  "fst (java_run wire_lib (ExecutorBase echo_impl) (Serialize wire_lib (plain (KBoolean True)))
      (Serialize wire_lib (plain (KBoolean True))) (fresh_world (initial_state ()))) = Crash NullDereference"
proof -
  have w: "owned_values (fresh_world (initial_state ())) = []"
    "executor_state (fresh_world (initial_state ())) = initial_state ()" by (simp_all add: fresh_world_def)
  have call: "create_call (ExecutorBase echo_impl) 0 (Some 1) \<lparr>next_value_id = 2,
      tracked_values = [0 \<mapsto> plain (KBoolean True), 1 \<mapsto> plain (KBoolean True)], sub_state = ()\<rparr> =
      (InternalError [], \<lparr>next_value_id = 2,
      tracked_values = [0 \<mapsto> plain (KBoolean True), 1 \<mapsto> plain (KBoolean True)], sub_state = ()\<rparr>)"
    by (subst echo_calls(3)) (simp add: accessor_simps)
  have first: "create_value (ExecutorBase echo_impl) (plain (KBoolean True))
       (executor_state (fresh_world (initial_state ()))) =
     (Ok 0, \<lparr>next_value_id = 1, tracked_values = [0 \<mapsto> plain (KBoolean True)], sub_state = ()\<rparr>)"
    by (simp only: w echo_calls)
  show ?thesis
    by (rule java_failed_call_crashes [OF wire_lib_working w(1) first echo_calls(2)
        call echo_ids(1,2)])
qed

text \<open>A buffer that is used for a second result keeps the first one.\<close>

lemma materialize_into_full_buffer:
  assumes "p < length (buffers w)" and "buffers w ! p = Some b" and "data b \<noteq> None"
  shows "buffers (snd (GC_materialize L ex v p w)) ! p = Some b"
  using assms
  by (auto simp: GC_materialize_def on_executor_def MessageToBuffer_def GENC_TRY_apply the_buffer_def
      split: prod.split outcome.split)

end
