(* ===== verification/Local_Stack.thy ===== *)
theory Local_Stack
  imports Refinement Runner
begin

text \<open>
  The local stack of \<^verbatim>\<open>executor_stacks.cc\<close> as a whole: the runner over the control flow
  executor over the inline executor, each with a table of handles. A run on the stack is
  a run on the values of the two executors, without the tables.
\<close>

section \<open>Two tables\<close>

text \<open>The steps of a run on the values of the control flow executor, over a table or not.\<close>

lemma sim_run_values:
  fixes impl :: "('v, 's) executor_impl" and hs :: "'w IntrinsicHandlerSet"
  shows "sim m (\<lambda>m. (=)) (run_values (ControlFlowExecutor n hs (ExecutorBase impl)) computation arg)
    (run_values (ControlFlowExecutor n hs (direct impl)) computation arg)"
proof -
  let ?C = "ExecutorBase impl" and ?D = "direct impl"
  let ?create = "\<lambda>child. ConstCreateExecutorValue child (Evaluate n hs child)"
  have ev: "ev_sim (Evaluate n hs ?C) (Evaluate n hs ?D)"
    and cl: "cl_sim (ConstCreateCall n hs ?C) (ConstCreateCall n hs ?D)"
    using interp_sim by blast+
  have create: "sim m1 value_rel (?create ?C v) (?create ?D v)" for m1 v
    by (rule sim_ConstCreateExecutorValue [OF ev])
  have read: "sim m1 (\<lambda>m. (=))
      (GENC_TRY (ConstMaterialize ?C r True) (\<lambda>v. return (case v of None \<Rightarrow> empty_value | Some p \<Rightarrow> p)))
      (GENC_TRY (ConstMaterialize ?D r' True) (\<lambda>v. return (case v of None \<Rightarrow> empty_value | Some p \<Rightarrow> p)))"
    if "value_rel m1 r r'" for m1 :: "'v table" and r r'
    by (rule sim_try [OF sim_Materialize [OF that]]) (auto intro: sim_return)
  have call: "sim m1 (\<lambda>m. (=))
      (GENC_TRY (ConstCreateCall n hs ?C f (Some a)) (\<lambda>r. GENC_TRY (ConstMaterialize ?C r True)
        (\<lambda>v. return (case v of None \<Rightarrow> empty_value | Some p \<Rightarrow> p))))
      (GENC_TRY (ConstCreateCall n hs ?D g (Some a')) (\<lambda>r. GENC_TRY (ConstMaterialize ?D r True)
        (\<lambda>v. return (case v of None \<Rightarrow> empty_value | Some p \<Rightarrow> p))))"
    if "value_rel m1 f g" "value_rel m1 a a'" for m1 :: "'v table" and f g a a'
    using cl that by (intro sim_try [where R = value_rel] read) (auto intro: cl_simD)
  show ?thesis
    unfolding run_values_def ControlFlowExecutor_def executor_impl.simps
  proof (rule sim_try [OF create])
    fix m1 f g assume "m \<subseteq>\<^sub>m m1" and f: "value_rel m1 (f :: (ValueId, 'w) exec_value) g"
    show "sim m1 (\<lambda>m. (=))
        (GENC_TRY (?create ?C arg) (\<lambda>a. GENC_TRY (ConstCreateCall n hs ?C f (Some a)) (\<lambda>r.
          GENC_TRY (ConstMaterialize ?C r True) (\<lambda>v. return (case v of None \<Rightarrow> empty_value | Some p \<Rightarrow> p)))))
        (GENC_TRY (?create ?D arg) (\<lambda>a. GENC_TRY (ConstCreateCall n hs ?D g (Some a)) (\<lambda>r.
          GENC_TRY (ConstMaterialize ?D r True) (\<lambda>v. return (case v of None \<Rightarrow> empty_value | Some p \<Rightarrow> p)))))"
      by (rule sim_then [where Q = "\<lambda>m. value_rel m f g", OF f _ create])
         (auto intro: value_rel_mono call)
  qed
qed

text \<open>The run on the values of both executors, with a budget of handles of the inner one.\<close>

definition local_run ::
  "nat \<Rightarrow> 'w IntrinsicHandlerSet \<Rightarrow> 'c libs \<Rightarrow> pvalue \<Rightarrow> pvalue \<Rightarrow> (nat \<times> 'w process, pvalue) prog" where
  "local_run n hs lib computation arg =
     run_values (ControlFlowExecutor n hs (direct (InlineExecutor hs lib thread_based))) computation arg"

abbreviation returned :: "'a outcome \<Rightarrow> bool" where
  "returned r \<equiv> (\<exists>v. r = Ok v) \<or> (\<exists>e. r = Err e)"

text \<open>A stack with well-formed tables, room for a run above and for a number of values below.\<close>

definition local_room :: "nat \<Rightarrow> 'w local_state \<Rightarrow> bool" where
  "local_room budget b \<longleftrightarrow> tracked_inv b \<and> unat (next_value_id b) + 3 < 2 ^ 64 \<and>
     tracked_inv (sub_state b) \<and> unat (next_value_id (sub_state b)) + budget < 2 ^ 64"

lemma local_room_initial: "budget < 2 ^ 64 \<Longrightarrow> local_room budget (initial_local_state p)"
  by (simp add: local_room_def initial_local_state_def initial_state_def tracked_inv_def)

text \<open>The control flow executor of the stack, without the table in front of it.\<close>

definition local_impl ::
  "nat \<Rightarrow> 'w IntrinsicHandlerSet \<Rightarrow> 'c libs \<Rightarrow> ((ValueId, 'w) exec_value, 'w inline_state) executor_impl" where
  "local_impl n hs lib = ControlFlowExecutor n hs (ExecutorBase (InlineExecutor hs lib thread_based))"

lemma local_impl_stack: "CreateLocalExecutor n hs lib None = ExecutorBase (local_impl n hs lib)"
  by (simp add: CreateLocalExecutor_def CreateControlFlowExecutor_def CreateInlineExecutor_def local_impl_def)

lemma local_impl_values:
  assumes "tracked_inv s" and "unat (next_value_id s) + budget < 2 ^ 64"
    and run: "local_run n hs lib computation arg (budget, sub_state s) = (r, (budget', out))"
    and "r \<noteq> Diverge"
  shows "\<exists>s1. run_values (local_impl n hs lib) computation arg s = (r, s1) \<and> sub_state s1 = out \<and> tracked_inv s1"
proof -
  have st: "st_rel s (budget, sub_state s)" using assms(1,2) by (simp add: st_rel_def)
  have "fst (local_run n hs lib computation arg (budget, sub_state s)) \<noteq> Diverge"
    using run assms(4) by simp
  from simD [OF sim_run_values st map_le_refl this [unfolded local_run_def]]
  obtain r1 s1 where "run_values (local_impl n hs lib) computation arg s = (r1, s1)"
      "st_rel s1 (budget', out)" "rel_outcome (=) r1 r"
    using run by (metis local_run_def local_impl_def prod.inject)
  then show ?thesis by (simp add: outcome.rel_eq st_rel_def)
qed

lemma local_stack_run:
  assumes room: "local_room budget b"
    and run: "local_run n hs lib computation arg (budget, sub_state (sub_state b)) = (r, (budget', out))"
    and "r \<noteq> Diverge"
  shows "\<exists>b'. RunInternal (CreateLocalExecutor n hs lib None) computation arg b = (r, b') \<and>
    sub_state (sub_state b') = out \<and>
    (returned r \<longrightarrow> tracked_values b' = tracked_values b \<and> tracked_inv b') \<and>
    tracked_inv (sub_state b')"
proof -
  obtain s1 where s1: "run_values (local_impl n hs lib) computation arg (sub_state b) = (r, s1)"
      "sub_state s1 = out" "tracked_inv s1"
    using local_impl_values [OF _ _ run assms(3)] room by (auto simp: local_room_def)
  obtain x b' where b': "RunInternal (ExecutorBase (local_impl n hs lib)) computation arg b = (x, b')"
    by (cases "RunInternal (ExecutorBase (local_impl n hs lib)) computation arg b")
  have "restores b (x, b') (r, s1)"
    using RunInternal_restores [of b "local_impl n hs lib" computation arg] room s1(1) b'
    by (simp add: room_for_def local_room_def)
  then show ?thesis
    using b' s1(2,3) unfolding local_impl_stack by (auto simp: restores_def split: outcome.splits)
qed

end
