(* ===== verification/Programs.thy ===== *)
theory Programs
  imports Local_Stack Authoring
begin

text \<open>
  Computations that are written with the constructors of \<^verbatim>\<open>constructor.cc\<close> from inline
  intrinsics, chains, repetitions, while loops and fallbacks. A written program has a
  meaning, a function on values given by recursion on the program; the theorem of this
  theory is that the runner on the local stack computes it.
\<close>

section \<open>Programs and their meaning\<close>

text \<open>
  Programs built from inline intrinsics with the control flow constructors. The loops of
  a program may not end: the meaning gives each of them a number of turns.
\<close>

datatype program =
    Inline intrinsic_pb
  | Chain "program list"
  | Breakable "program list"
  | Repeated i32 program
  | Alternatives "program list"
  | Loop program program
  | Conditional_chain i32 "program list"

fun all_values :: "'a outcome list \<Rightarrow> 'a list outcome" where
  "all_values [] = Ok []"
| "all_values (r # rs) = try_value r (\<lambda>x. try_value (all_values rs) (\<lambda>xs. Ok (x # xs)))"

primrec author :: "program \<Rightarrow> pvalue outcome" where
  "author (Inline i) = Ok (plain (KIntrinsic i))"
| "author (Chain ps) = try_value (all_values (map author ps)) CreateSerialChain"
| "author (Breakable ps) = try_value (all_values (map author ps)) CreateBreakableChain"
| "author (Repeated n p) = try_value (author p) (CreateRepeat n)"
| "author (Alternatives ps) = try_value (all_values (map author ps)) CreateFallback"
| "author (Loop c b) = try_value (author c) (\<lambda>cv. try_value (author b) (CreateWhile cv))"
| "author (Conditional_chain n ps) =
     try_value (all_values (map author ps)) (CreateRepeatedConditionalChain n)"

type_synonym 'w step = "pvalue \<Rightarrow> ('w process, pvalue) prog"

fun breakable :: "'w step list \<Rightarrow> 'w step" where
  "breakable [] x = return x"
| "breakable (f # fs) x = GENC_TRY (f x) (\<lambda>y.
     if \<not> has_boolean y then breakable fs y
     else if boolean y then return x else breakable fs x)"

fun first_success :: "'w step list \<Rightarrow> pvalue \<Rightarrow> status \<Rightarrow> ('w process, pvalue) prog" where
  "first_success [] x e = lift (Err e)"
| "first_success (f # fs) x e = otherwise (f x) (first_success fs x)"

fun loop :: "nat \<Rightarrow> 'w step \<Rightarrow> 'w step \<Rightarrow> 'w step" where
  "loop 0 c b x = lift Diverge"
| "loop (Suc k) c b x = GENC_TRY (c x) (\<lambda>v.
     if \<not> has_boolean v
     then lift (InvalidArgumentError [Txt ''Condition does not have boolean: '', DebugString v])
     else if \<not> boolean v then return x
     else GENC_TRY (b x) (loop k c b))"

text \<open>
  The functions of a conditional chain pass values on by materializing them and creating
  them again, which only keeps a value that holds data as it is. For a value that holds a
  computation the meaning says nothing.
\<close>

definition holds_data :: "pvalue \<Rightarrow> bool" where
  "holds_data v \<longleftrightarrow> \<not> HasComputation v \<and> value_case v \<noteq> NotSet"

definition create_again :: "'w step" where
  "create_again y =
     (if value_case y = NotSet then lift (UnimplementedError [Txt ''Cannot create value of type ['', Num 0, Txt '']''])
      else if HasComputation y then lift Diverge
      else return y)"

fun one_pass :: "'w step list \<Rightarrow> 'w step \<Rightarrow> 'w step" where
  "one_pass [] k x = k x"
| "one_pass (f # fs) k x = GENC_TRY (f x) (\<lambda>y.
     if \<not> has_boolean y then GENC_TRY (create_again y) (one_pass fs k)
     else if boolean y then return x else one_pass fs k x)"

fun passes :: "nat \<Rightarrow> 'w step list \<Rightarrow> 'w step" where
  "passes 0 fs = return"
| "passes (Suc n) fs = one_pass fs (passes n fs)"

primrec meaning :: "nat \<Rightarrow> 'w IntrinsicHandlerSet \<Rightarrow> 'c libs \<Rightarrow> program \<Rightarrow> 'w step" where
  "meaning turns hs lib (Inline i) = run_intrinsic hs lib (plain (KIntrinsic i))"
| "meaning turns hs lib (Chain ps) = fold_try (\<lambda>f. f) (map (meaning turns hs lib) ps)"
| "meaning turns hs lib (Breakable ps) = breakable (map (meaning turns hs lib) ps)"
| "meaning turns hs lib (Repeated n p) = repeat_try (nat (sint n)) (meaning turns hs lib p)"
| "meaning turns hs lib (Alternatives ps) =
     (\<lambda>x. first_success (map (meaning turns hs lib) ps) x no_candidate)"
| "meaning turns hs lib (Loop c b) = loop turns (meaning turns hs lib c) (meaning turns hs lib b)"
| "meaning turns hs lib (Conditional_chain n ps) = passes (nat (sint n)) (map (meaning turns hs lib) ps)"

text \<open>
  A program can run when the handler set has the handlers it names, its inline intrinsics
  are well-formed and its chains are not empty.
\<close>

primrec runnable :: "'w IntrinsicHandlerSet \<Rightarrow> program \<Rightarrow> bool" where
  "runnable hs (Inline i) \<longleftrightarrow> (case GetHandler hs (uri i) of
      Ok h \<Rightarrow> CheckWellFormed h i = Ok () \<and> interface_type h = INLINE | _ \<Rightarrow> False)"
| "runnable hs (Chain ps) \<longleftrightarrow> hs kSerialChain = Some SerialChain \<and> ps \<noteq> [] \<and>
     list_all (\<lambda>r. r) (map (runnable hs) ps)"
| "runnable hs (Breakable ps) \<longleftrightarrow> hs kBreakableChain = Some BreakableChain \<and> ps \<noteq> [] \<and>
     list_all (\<lambda>r. r) (map (runnable hs) ps)"
| "runnable hs (Repeated n p) \<longleftrightarrow> hs kRepeat = Some Repeat \<and> runnable hs p"
| "runnable hs (Alternatives ps) \<longleftrightarrow> hs kFallback = Some Fallback \<and> ps \<noteq> [] \<and>
     list_all (\<lambda>r. r) (map (runnable hs) ps)"
| "runnable hs (Loop c b) \<longleftrightarrow> hs kWhile = Some While \<and> runnable hs c \<and> runnable hs b"
| "runnable hs (Conditional_chain n ps) \<longleftrightarrow>
     hs kRepeatedConditionalChain = Some RepeatedConditionalChain \<and> ps \<noteq> [] \<and>
     list_all (\<lambda>r. r) (map (runnable hs) ps)"

text \<open>The nesting of a program, and the handles that a call of it takes below.\<close>

primrec depth :: "program \<Rightarrow> nat" where
  "depth (Inline i) = 1"
| "depth (Chain ps) = Suc (foldr max (map depth ps) 1)"
| "depth (Breakable ps) = Suc (foldr max (map depth ps) 1)"
| "depth (Repeated n p) = Suc (depth p)"
| "depth (Alternatives ps) = Suc (foldr max (map depth ps) 1)"
| "depth (Loop c b) = Suc (max (depth c) (depth b))"
| "depth (Conditional_chain n ps) = Suc (foldr max (map depth ps) 1)"

primrec handles :: "nat \<Rightarrow> program \<Rightarrow> nat" where
  "handles turns (Inline i) = 1"
| "handles turns (Chain ps) = sum_list (map Suc (map (handles turns) ps))"
| "handles turns (Breakable ps) = sum_list (map Suc (map (handles turns) ps))"
| "handles turns (Repeated n p) = Suc (nat (sint n) * handles turns p)"
| "handles turns (Alternatives ps) = sum_list (map Suc (map (handles turns) ps))"
| "handles turns (Loop c b) = 2 + Suc turns * (handles turns c + handles turns b)"
| "handles turns (Conditional_chain n ps) =
     length ps + nat (sint n) * sum_list (map Suc (map (handles turns) ps))"

section \<open>The intrinsic of a program\<close>

primrec program_pb :: "program \<Rightarrow> intrinsic_pb" where
  "program_pb (Inline i) = i"
| "program_pb (Chain ps) = IntrinsicPb kSerialChain (Some (plain (KStruct
     (numbered (map (\<lambda>i. plain (KIntrinsic i)) (map program_pb ps))))))"
| "program_pb (Breakable ps) = IntrinsicPb kBreakableChain (Some (plain (KStruct
     (numbered (map (\<lambda>i. plain (KIntrinsic i)) (map program_pb ps))))))"
| "program_pb (Repeated n p) = IntrinsicPb kRepeat (Some (plain (KStruct
     [labeled_int_32 ''num_steps'' n, CreateLabeledValue ''body_fn'' (plain (KIntrinsic (program_pb p)))])))"
| "program_pb (Alternatives ps) = IntrinsicPb kFallback (Some (plain (KStruct
     (map (CreateLabeledValue ''candidate_fn'') (map (\<lambda>i. plain (KIntrinsic i)) (map program_pb ps))))))"
| "program_pb (Loop c b) = IntrinsicPb kWhile (Some (plain (KStruct
     [CreateLabeledValue ''condition_fn'' (plain (KIntrinsic (program_pb c))),
      CreateLabeledValue ''body_fn'' (plain (KIntrinsic (program_pb b)))])))"
| "program_pb (Conditional_chain n ps) = IntrinsicPb kRepeatedConditionalChain (Some (plain (KStruct
     (labeled_int_32 ''num_steps'' n # numbered (map (\<lambda>i. plain (KIntrinsic i)) (map program_pb ps))))))"

lemma all_values_Ok: "\<forall>x \<in> set xs. f x = Ok (g x) \<Longrightarrow> all_values (map f xs) = Ok (map g xs)"
  by (induction xs) simp_all

lemma author_Ok: "author p = Ok (plain (KIntrinsic (program_pb p)))"
  by (induction p)
     (simp_all add: all_values_Ok [where f = author and g = "\<lambda>p. plain (KIntrinsic (program_pb p))"] comp_def intrinsic_with_args_def CreateSerialChain_def
        CreateBreakableChain_def CreateFallback_def CreateRepeat_def CreateWhile_def CreateRepeatedConditionalChain_def)

lemma program_params:
  "list_all2 (\<lambda>f p. value_case f = KIntrinsic (program_pb p))
     (numbered (map (\<lambda>i. plain (KIntrinsic i)) (map program_pb ps))) ps"
  "list_all2 (\<lambda>f p. value_case f = KIntrinsic (program_pb p))
     (map (CreateLabeledValue ''candidate_fn'') (map (\<lambda>i. plain (KIntrinsic i)) (map program_pb ps))) ps"
  by (simp_all add: numbered_def list_all2_conv_all_nth CreateLabeledValue_def nth_enumerate_eq)

lemma depth_list: "p \<in> set ps \<Longrightarrow> depth p \<le> foldr max (map depth ps) 1"
  by (induction ps) (auto simp: le_max_iff_disj)

lemma depth_pos: "1 \<le> depth p"
  by (cases p) simp_all

section \<open>Steps that deliver a value\<close>

text \<open>
  What a step on the stack gives for a step on values: the value in a future, or a future
  that holds the error, or the error or the crash at once. At most \<open>c\<close> handles are taken.
\<close>

type_synonym 'w local_value = "(ValueFuture, 'w) exec_value"

definition delivers ::
  "nat \<Rightarrow> nat \<Rightarrow> 'w local_value outcome \<times> nat \<times> 'w process \<Rightarrow> pvalue outcome \<times> 'w process \<Rightarrow> bool" where
  "delivers c k run res \<longleftrightarrow> (fst res \<noteq> Diverge \<longrightarrow>
     snd (snd run) = snd res \<and> k \<le> fst (snd run) + c \<and>
     (case fst run of
        Ok v \<Rightarrow> \<exists>t. v = Embedded t \<and> Task_Get t = fst res
      | Err e \<Rightarrow> fst res = Err e
      | Crash x \<Rightarrow> fst res = Crash x
      | Diverge \<Rightarrow> False))"

definition performs :: "nat \<Rightarrow> ('w local_value \<Rightarrow> (nat \<times> 'w process, 'w local_value) prog) \<Rightarrow> 'w step \<Rightarrow> bool" where
  "performs c g q \<longleftrightarrow> (\<forall>t k out. c \<le> k \<longrightarrow>
     delivers c k (g (Embedded t) (k, out)) (GENC_TRY (lift (Task_Get t)) q out))"

lemma performsD:
  "performs c g q \<Longrightarrow> c \<le> k \<Longrightarrow> delivers c k (g (Embedded t) (k, out)) (GENC_TRY (lift (Task_Get t)) q out)"
  by (simp add: performs_def)

lemma delivers_mono: "delivers c k run res \<Longrightarrow> c \<le> d \<Longrightarrow> delivers d k run res"
  by (auto simp: delivers_def)

lemma delivers_budget: "delivers c' k' run res \<Longrightarrow> k \<le> k' + c \<Longrightarrow> delivers (c + c') k run res"
  by (auto simp: delivers_def)

lemma performs_mono: "performs c g q \<Longrightarrow> c \<le> d \<Longrightarrow> performs d g q"
  unfolding performs_def by (meson delivers_mono le_trans)

lemma performs_return: "performs c return return"
  by (auto simp: performs_def delivers_def return_apply GENC_TRY_apply lift_apply split: outcome.split)

text \<open>The rest of a run, after a step that delivers.\<close>

lemma delivers_then:
  assumes d: "delivers c k run (r, out)"
    and ok: "\<And>t k'. fst run = Ok (Embedded t) \<Longrightarrow> Task_Get t = r \<Longrightarrow> snd run = (k', out) \<Longrightarrow> k \<le> k' + c \<Longrightarrow>
      delivers c' k' (g (Embedded t) (k', out)) (GENC_TRY (lift r) q out)"
  shows "delivers (c + c') k
    (case run of (Ok v, s) \<Rightarrow> g v s | (Err e, s) \<Rightarrow> (Err e, s) | (Crash x, s) \<Rightarrow> (Crash x, s) | (Diverge, s) \<Rightarrow> (Diverge, s))
    (GENC_TRY (lift r) q out)"
proof (cases "r = Diverge")
  case True
  then show ?thesis by (simp add: delivers_def GENC_TRY_apply lift_apply)
next
  case False
  obtain x k' o' where run: "run = (x, (k', o'))" by (metis surj_pair)
  show ?thesis
  proof (cases x)
    case (Ok v)
    then obtain t where t: "v = Embedded t" "Task_Get t = r" "o' = out" "k \<le> k' + c"
      using d False run by (auto simp: delivers_def)
    from delivers_budget [OF ok [of t k'] t(4)] t Ok run show ?thesis by simp
  qed (use d False run in \<open>auto simp: delivers_def GENC_TRY_apply lift_apply\<close>)
qed

lemma performs_then:
  assumes "performs c g q" and "performs c' g' q'"
  shows "performs (c + c') (\<lambda>v. GENC_TRY (g v) g') (\<lambda>x. GENC_TRY (q x) q')"
  unfolding performs_def
proof (intro allI impI)
  fix t k out assume k: "c + c' \<le> k"
  obtain r o1 where r: "GENC_TRY (lift (Task_Get t)) q out = (r, o1)"
    by (cases "GENC_TRY (lift (Task_Get t)) q out")
  have "delivers c k (g (Embedded t) (k, out)) (r, o1)"
    using performsD [OF assms(1), of k t out] k r by simp
  then have "delivers (c + c') k (GENC_TRY (g (Embedded t)) g' (k, out)) (GENC_TRY (lift r) q' o1)"
    unfolding GENC_TRY_def [of "g (Embedded t)"]
    by (rule delivers_then) (use assms(2) k in \<open>auto intro!: performsD\<close>)
  moreover have "GENC_TRY (lift (Task_Get t)) (\<lambda>x. GENC_TRY (q x) q') out = GENC_TRY (lift r) q' o1"
    using r by (cases "Task_Get t") (auto simp: GENC_TRY_apply lift_apply split: outcome.splits prod.splits)
  ultimately show "delivers (c + c') k (GENC_TRY (g (Embedded t)) g' (k, out))
      (GENC_TRY (lift (Task_Get t)) (\<lambda>x. GENC_TRY (q x) q') out)" by simp
qed

section \<open>The operations of the stack\<close>

abbreviation inline_child :: "'w IntrinsicHandlerSet \<Rightarrow> 'c libs \<Rightarrow> (ValueFuture, nat \<times> 'w process) executor" where
  "inline_child hs lib \<equiv> direct (InlineExecutor hs lib thread_based)"

abbreviation call_context ::
  "nat \<Rightarrow> 'w IntrinsicHandlerSet \<Rightarrow> 'c libs \<Rightarrow> (ValueFuture, 'w) scope \<Rightarrow> ('w local_value, nat \<times> 'w process) executor" where
  "call_context m hs lib sc \<equiv> ControlFlowIntrinsicCallContextImpl (inline_child hs lib)
     (Evaluate m hs (inline_child hs lib)) (ConstCreateCall m hs (inline_child hs lib)) sc"

lemma finally_release_Nil: "finally_release child [] p = p"
  by (auto simp: finally_release_def release_handles_def fun_eq_iff split: prod.split outcome.split)

lemma materialize_future:
  "ConstMaterialize (inline_child hs lib) (Embedded t) want =
     GENC_TRY (lift (Task_Get t)) (\<lambda>v. return (if want then Some v else None))"
  by (rule ext, cases "Task_Get t")
     (auto simp: ConstMaterialize_def return_apply GENC_TRY_apply finally_release_Nil slot_list_def
        uncounted_def Inline_Materialize_def Wait_def lift_apply)

lemma materialize_context:
  "materialize (call_context m hs lib sc) = ConstMaterialize (inline_child hs lib)"
  "create_call (call_context m hs lib sc) = ConstCreateCall m hs (inline_child hs lib)"
  by (simp_all add: ControlFlowIntrinsicCallContextImpl_def)

lemma read_future: "Materialize_pb (call_context m hs lib sc) (Embedded t) = lift (Task_Get t)"
  by (rule ext, cases "Task_Get t")
     (auto simp: Materialize_pb_def materialize_context materialize_future GENC_TRY_apply lift_apply return_apply)

lemma RunAsync_delivers:
  assumes "1 \<le> k"
  shows "delivers 1 k (GENC_TRY (counted (RunAsync thread_based job)) (\<lambda>h. return (Embedded h)) (k, out)) (job out)"
proof -
  obtain r o' where "job out = (r, o')" by (cases "job out")
  then show ?thesis
    using assms
    by (cases r) (auto simp: delivers_def GENC_TRY_apply counted_def RunAsync_def thread_based_def return_apply
        Task_Get_def)
qed

lemma embed_delivers:
  assumes "1 \<le> k"
  shows "\<exists>t k'. embed_in_child (inline_child hs lib) v (k, out) = (Ok (Embedded t), (k', out)) \<and>
    k \<le> Suc k' \<and> Task_Get t = Ok v"
  using assms
  by (auto simp: embed_in_child_def Inline_CreateExecutorValue_def GENC_TRY_apply counted_def RunAsync_def
      thread_based_def return_apply Task_Get_def)

lemma call_inline:
  assumes "Task_Get f = Ok v"
  shows "performs 1 (\<lambda>a. call_child (inline_child hs lib) f (Some a)) (run_intrinsic hs lib v)"
proof -
  have "GENC_TRY (Wait f) (\<lambda>fn. GENC_TRY (Wait t) (run_intrinsic hs lib fn)) =
      GENC_TRY (lift (Task_Get t)) (run_intrinsic hs lib v)" for t
    using assms by (simp add: Wait_def lift_Ok)
  then have "call_child (inline_child hs lib) f (Some (Embedded t)) (k, out) =
      GENC_TRY (counted (RunAsync thread_based (GENC_TRY (lift (Task_Get t)) (run_intrinsic hs lib v))))
        (\<lambda>h. return (Embedded h)) (k, out)" for t k out
    by (simp add: call_child_def GENC_TRY_apply [of "return _"] return_apply finally_release_Nil slot_list_def
        Inline_CreateCall_def)
  then show ?thesis
    unfolding performs_def by (metis RunAsync_delivers)
qed

section \<open>Conditional chains of text\<close>

text \<open>
  Steps that give text for text pass it on unchanged, so a pass over such steps is a serial
  chain, and the chain stops at the first step after them that says true.
\<close>

definition text_step :: "'w step \<Rightarrow> bool" where
  "text_step f \<longleftrightarrow> (\<forall>x s v s'. has_str x \<longrightarrow> f x s = (Ok v, s') \<longrightarrow> has_str v)"

lemma text_stepD: "text_step f \<Longrightarrow> has_str x \<Longrightarrow> f x s = (Ok v, s') \<Longrightarrow> has_str v"
  unfolding text_step_def by blast

lemma text_is_data: "has_str v \<Longrightarrow> \<not> has_boolean v \<and> create_again v = return v"
  by (cases v rule: has_str.cases) (simp_all add: create_again_def HasComputation_def)

lemma one_pass_text:
  "list_all text_step fs \<Longrightarrow> has_str x \<Longrightarrow>
   one_pass (fs @ gs) k x = GENC_TRY (fold_try (\<lambda>f. f) fs x) (one_pass gs k)"
proof (induction fs arbitrary: x)
  case (Cons f fs)
  have "one_pass ((f # fs) @ gs) k x s = GENC_TRY (f x) (\<lambda>y. GENC_TRY (fold_try (\<lambda>f. f) fs y) (one_pass gs k)) s" for s
  proof (cases "f x s")
    case (Pair r s')
    show ?thesis
    proof (cases r)
      case (Ok y)
      then have "has_str y" using Cons.prems Pair by (auto simp: text_step_def)
      then show ?thesis
        using Cons.prems Cons.IH [of y] by (simp add: Pair Ok GENC_TRY_apply [of "f x"] text_is_data)
    qed (simp_all add: Pair GENC_TRY_apply)
  qed
  then show ?case by (simp add: fun_eq_iff GENC_TRY_assoc)
qed simp

lemma passes_stop:
  assumes "list_all text_step fs" and "has_str x" and "fold_try (\<lambda>f. f) fs x s = (Ok y, s1)"
    and "f y s1 = (Ok (plain (KBoolean True)), s2)"
  shows "passes (Suc n) (fs @ f # gs) x s = (Ok y, s2)"
  using assms(3,4)
  by (simp add: one_pass_text [OF assms(1,2)] GENC_TRY_apply return_apply)

lemma text_step_fold: "list_all text_step fs \<Longrightarrow> text_step (fold_try (\<lambda>f. f) fs)"
proof (induction fs)
  case (Cons f fs)
  then have f: "text_step f" and fs: "text_step (fold_try (\<lambda>f. f) fs)" by simp_all
  show ?case
    unfolding text_step_def
  proof (intro allI impI)
    fix x s v s' assume x: "has_str x" "fold_try (\<lambda>f. f) (f # fs) x s = (Ok v, s')"
    then obtain y s1 where "f x s = (Ok y, s1)" "fold_try (\<lambda>f. f) fs y s1 = (Ok v, s')"
      by (auto simp: GENC_TRY_eq_Ok)
    then show "has_str v" using f fs x(1) unfolding text_step_def by metis
  qed
qed (simp add: text_step_def return_apply)

section \<open>Evaluating and calling a program\<close>

fun node_handler :: "program \<Rightarrow> 'w handler option" where
  "node_handler (Inline i) = None"
| "node_handler (Chain ps) = Some SerialChain"
| "node_handler (Breakable ps) = Some BreakableChain"
| "node_handler (Repeated n p) = Some Repeat"
| "node_handler (Alternatives ps) = Some Fallback"
| "node_handler (Loop c b) = Some While"
| "node_handler (Conditional_chain n ps) = Some RepeatedConditionalChain"

definition represents :: "program \<Rightarrow> 'w local_value \<Rightarrow> bool" where
  "represents p g \<longleftrightarrow> (case node_handler p of
      None \<Rightarrow> \<exists>t v. g = Embedded t \<and> Task_Get t = Ok v \<and> value_case v = KIntrinsic (program_pb p)
    | Some h \<Rightarrow> \<exists>sc. g = IntrinsicV (program_pb p) h sc)"

lemma has_struct_plain [simp]: "has_struct (plain (KStruct es))" "struct_elements (plain (KStruct es)) = es"
  by simp_all

lemma GetHandler_registered:
  "hs u = Some h \<Longrightarrow> handler_uri h = u \<Longrightarrow> GetHandler hs u = Ok h"
  by (simp add: GetHandler_def)

lemma program_handler:
  assumes "runnable hs p" and "node_handler p = Some h"
  shows "GetHandler hs (uri (program_pb p)) = Ok h \<and> CheckWellFormed h (program_pb p) = Ok () \<and>
    interface_type h = CONTROL_FLOW"
  using assms
  by (cases p) (auto simp: GetHandler_registered CheckWellFormed_defs static_parameter_def or_default_def
      Suc_le_eq)

lemma evaluate_program:
  fixes hs :: "'w IntrinsicHandlerSet"
  assumes "runnable hs p" and "value_case f = KIntrinsic (program_pb p)" and "1 \<le> m" and "1 \<le> k"
  shows "\<exists>g k'. Evaluate m hs (inline_child hs lib) f sc (k, out) = (Ok g, (k', out)) \<and> k \<le> Suc k' \<and>
    represents p g"
proof -
  obtain m' where m: "m = Suc m'" using assms(3) by (cases m) auto
  note ev = m Evaluate_Suc Evaluate_F_def EvaluateIntrinsic_def assms(2)
  show ?thesis
  proof (cases "node_handler p :: 'w handler option")
    case None
    then obtain i where p: "p = Inline i" by (cases p) auto
    with assms(1) obtain h where "GetHandler hs (uri i) = Ok h" "CheckWellFormed h i = Ok ()" "interface_type h = INLINE"
      by (auto split: outcome.splits)
    then have "Evaluate m hs (inline_child hs lib) f sc = embed_in_child (inline_child hs lib) f"
      by (simp add: ev p lift_Ok)
    then show ?thesis
      using embed_delivers [OF assms(4), of hs lib f out] assms(2) p
      by (fastforce simp: represents_def)
  next
    case (Some h)
    note wf = program_handler [OF assms(1) Some]
    then have "Evaluate m hs (inline_child hs lib) f sc = return (IntrinsicV (program_pb p) h sc)"
      by (simp add: ev lift_Ok)
    then show ?thesis using Some by (auto simp: represents_def return_apply)
  qed
qed

lemma created_then:
  assumes "runnable hs p" and "value_case f = KIntrinsic (program_pb p)" and "1 \<le> m" and "1 \<le> k"
    and rest: "\<And>g k'. represents p g \<Longrightarrow> k \<le> Suc k' \<Longrightarrow> delivers c k' (F g (k', out)) res"
  shows "delivers (Suc c) k (GENC_TRY (create_value (call_context m hs lib sc) f) F (k, out)) res"
proof -
  have "create_value (call_context m hs lib sc) f = Evaluate m hs (inline_child hs lib) f sc"
    using assms(2)
    by (simp add: ControlFlowIntrinsicCallContextImpl_def context_CreateValue_def HasComputation_def)
  moreover obtain g k' where "Evaluate m hs (inline_child hs lib) f sc (k, out) = (Ok g, (k', out))"
      "k \<le> Suc k'" "represents p g"
    using evaluate_program [OF assms(1-4)] by blast
  ultimately show ?thesis
    using delivers_budget [OF rest [of g k'], of k 1] by (simp add: GENC_TRY_apply [of "Evaluate _ _ _ _ _"])
qed

lemma step_performs:
  assumes "runnable hs p" and "value_case f = KIntrinsic (program_pb p)" and "1 \<le> m"
    and "\<And>g. represents p g \<Longrightarrow> performs c (\<lambda>a. ConstCreateCall m hs (inline_child hs lib) g (Some a)) q"
  shows "performs (Suc c) (chain_step (call_context m hs lib sc) f) q"
  unfolding performs_def chain_step_def materialize_context
proof (intro allI impI)
  fix t k out assume k: "Suc c \<le> k"
  show "delivers (Suc c) k (GENC_TRY (create_value (call_context m hs lib sc) f)
      (\<lambda>g. ConstCreateCall m hs (inline_child hs lib) g (Some (Embedded t))) (k, out))
      (GENC_TRY (lift (Task_Get t)) q out)"
    by (rule created_then [OF assms(1-3)]) (use k in \<open>auto intro!: performsD [OF assms(4)]\<close>)
qed

section \<open>The loops of the handlers\<close>

lemma performs_fold:
  assumes "list_all2 (\<lambda>f p. performs (Suc (c p)) (chain_step ctx f) (q p)) fs ps"
  shows "performs (sum_list (map Suc (map c ps))) (fold_try (chain_step ctx) fs) (fold_try (\<lambda>f. f) (map q ps))"
  using assms
proof (induction rule: list_all2_induct)
  case Nil
  have "fold_try (chain_step ctx) [] = return" "fold_try (\<lambda>f. f) [] = (return :: _ step)"
    by (simp_all add: fun_eq_iff)
  then show ?case by (simp add: performs_return)
next
  case (Cons f fs p ps)
  have "fold_try (chain_step ctx) (f # fs) = (\<lambda>v. GENC_TRY (chain_step ctx f v) (fold_try (chain_step ctx) fs))"
    "fold_try (\<lambda>f. f) (map q (p # ps)) = (\<lambda>x. GENC_TRY (q p x) (fold_try (\<lambda>f. f) (map q ps)))"
    by (simp_all add: fun_eq_iff)
  then show ?case using performs_then [OF Cons(1,3)] by simp
qed

lemma performs_repeat: "performs c g q \<Longrightarrow> performs (n * c) (repeat_try n g) (repeat_try n q)"
proof (induction n)
  case 0
  have "repeat_try 0 g = return" "repeat_try 0 q = return" by (simp_all add: fun_eq_iff)
  then show ?case by (simp add: performs_return)
next
  case (Suc n)
  have "repeat_try (Suc n) g = (\<lambda>v. GENC_TRY (g v) (repeat_try n g))"
    "repeat_try (Suc n) q = (\<lambda>x. GENC_TRY (q x) (repeat_try n q))"
    by (simp_all add: fun_eq_iff)
  then show ?case using performs_then [OF Suc.prems Suc.IH [OF Suc.prems]] by simp
qed

lemma performs_cong:
  assumes "performs c g q" and "\<And>x out. fst (q' x out) \<noteq> Diverge \<Longrightarrow> q x out = q' x out"
  shows "performs c g q'"
  unfolding performs_def
proof (intro allI impI)
  fix t k out assume k: "c \<le> k"
  show "delivers c k (g (Embedded t) (k, out)) (GENC_TRY (lift (Task_Get t)) q' out)"
  proof (cases "Task_Get t")
    case (Ok x)
    show ?thesis
    proof (cases "fst (q' x out) = Diverge")
      case True
      then show ?thesis using Ok by (simp add: delivers_def lift_Ok)
    next
      case False
      from assms(2) [OF this] show ?thesis using performsD [OF assms(1) k, of t out] Ok by (simp add: lift_Ok)
    qed
  qed (use performsD [OF assms(1) k, of t out] in \<open>simp_all add: GENC_TRY_apply lift_apply\<close>)
qed

text \<open>A step whose value is read, with the state before the step still at hand.\<close>

lemma performs_test:
  assumes "performs c g q"
    and rest: "\<And>t t' x y k out. Task_Get t = Ok x \<Longrightarrow> Task_Get t' = Ok y \<Longrightarrow> c' \<le> k \<Longrightarrow>
      delivers c' k (K (Embedded t) (Embedded t') y (k, out)) (K' x y out)"
  shows "performs (c + c') (\<lambda>v. GENC_TRY (g v) (\<lambda>w. GENC_TRY (Materialize_pb (call_context m hs lib sc) w) (K v w)))
    (\<lambda>x. GENC_TRY (q x) (K' x))"
  unfolding performs_def
proof (intro allI impI)
  fix t k out assume k: "c + c' \<le> k"
  let ?M = "\<lambda>w. GENC_TRY (Materialize_pb (call_context m hs lib sc) w) (K (Embedded t) w)"
  obtain r o1 where r: "GENC_TRY (lift (Task_Get t)) q out = (r, o1)"
    by (cases "GENC_TRY (lift (Task_Get t)) q out")
  define Q where "Q = (case Task_Get t of Ok x \<Rightarrow> K' x | _ \<Rightarrow> return)"
  have "delivers c k (g (Embedded t) (k, out)) (r, o1)"
    using performsD [OF assms(1), of k t out] k r by simp
  then have "delivers (c + c') k (GENC_TRY (g (Embedded t)) ?M (k, out)) (GENC_TRY (lift r) Q o1)"
    unfolding GENC_TRY_def [of "g (Embedded t)"]
  proof (rule delivers_then)
    fix t' k' assume t': "Task_Get t' = r" "k \<le> k' + c"
    show "delivers c' k' (?M (Embedded t') (k', o1)) (GENC_TRY (lift r) Q o1)"
    proof (cases r)
      case (Ok y)
      then obtain x where x: "Task_Get t = Ok x"
        using r by (cases "Task_Get t") (auto simp: lift_apply GENC_TRY_apply)
      have "delivers c' k' (K (Embedded t) (Embedded t') y (k', o1)) (K' x y o1)"
        using rest [OF x] t' k Ok by simp
      then show ?thesis using x Ok t' by (simp add: Q_def read_future lift_Ok)
    qed (use t' in \<open>auto simp: read_future delivers_def GENC_TRY_apply lift_apply\<close>)
  qed
  moreover have "GENC_TRY (lift (Task_Get t)) (\<lambda>x. GENC_TRY (q x) (K' x)) out = GENC_TRY (lift r) Q o1"
    using r by (cases "Task_Get t") (auto simp: Q_def GENC_TRY_apply lift_apply split: outcome.splits prod.splits)
  ultimately show "delivers (c + c') k (GENC_TRY (g (Embedded t)) ?M (k, out))
      (GENC_TRY (lift (Task_Get t)) (\<lambda>x. GENC_TRY (q x) (K' x)) out)" by simp
qed

lemma delivers_future: "Task_Get t = Ok x \<Longrightarrow> delivers c k (return (Embedded t) (k, out)) (return x out)"
  by (simp add: delivers_def return_apply)

lemma delivers_Err: "delivers c k (lift (Err e) (k, out)) (lift (Err e) out)"
  by (simp add: delivers_def lift_apply)

lemma performs_run: "performs c g q \<Longrightarrow> c \<le> k \<Longrightarrow> Task_Get t = Ok x \<Longrightarrow> delivers c k (g (Embedded t) (k, out)) (q x out)"
  using performsD [of c g q k t out] by (simp add: lift_Ok)

lemma performs_breakable:
  assumes "list_all2 (\<lambda>f p. performs (Suc (c p)) (chain_step (call_context m hs lib sc) f) (q p)) fs ps"
  shows "performs (sum_list (map Suc (map c ps))) (BreakableChain_loop (call_context m hs lib sc) fs)
    (breakable (map q ps))"
  using assms
proof (induction rule: list_all2_induct)
  case Nil
  have "BreakableChain_loop (call_context m hs lib sc) [] = return" "breakable [] = return"
    by (simp_all add: fun_eq_iff)
  then show ?case by (simp add: performs_return)
next
  case (Cons f fs p ps)
  let ?ctx = "call_context m hs lib sc"
  let ?rest = "BreakableChain_loop ?ctx fs" and ?qs = "breakable (map q ps)"
  have "BreakableChain_loop ?ctx (f # fs) = (\<lambda>v. GENC_TRY (chain_step ?ctx f v) (\<lambda>w.
      GENC_TRY (Materialize_pb ?ctx w) (\<lambda>y. if \<not> has_boolean y then ?rest w
        else if boolean y then return v else ?rest v)))"
    by (simp add: fun_eq_iff chain_step_def GENC_TRY_assoc)
  moreover have "breakable (map q (p # ps)) = (\<lambda>x. GENC_TRY (q p x) (\<lambda>y. if \<not> has_boolean y then ?qs y
        else if boolean y then return x else ?qs x))"
    by (simp add: fun_eq_iff)
  moreover have "sum_list (map Suc (map c (p # ps))) = Suc (c p) + sum_list (map Suc (map c ps))"
    by simp
  ultimately show ?case
    using performs_run [OF Cons(3)] by (simp only:) (rule performs_test [OF Cons(1)], auto simp: delivers_future)
qed

lemma create_data:
  assumes "holds_data v" and "1 \<le> k"
  shows "\<exists>t k'. ConstCreateExecutorValue (inline_child hs lib) ev v (k, out) = (Ok (Embedded t), (k', out)) \<and>
    k \<le> Suc k' \<and> Task_Get t = Ok v"
proof -
  have "ConstCreateExecutorValue (inline_child hs lib) ev v = embed_in_child (inline_child hs lib) v"
    using assms(1)
    by (cases "value_case v") (simp_all add: ConstCreateExecutorValue_def holds_data_def HasComputation_def)
  then show ?thesis using embed_delivers [OF assms(2)] by simp
qed

lemma create_context_data:
  assumes "1 \<le> k" and rest: "\<And>t k'. Task_Get t = Ok y \<Longrightarrow> k \<le> Suc k' \<Longrightarrow>
      delivers c k' (F (Embedded t) (k', out)) (q y out)"
  shows "delivers (Suc c) k (GENC_TRY (create_value (call_context m hs lib sc) y) F (k, out))
    (GENC_TRY (create_again y) q out)"
proof (cases "holds_data y")
  case True
  then have create: "create_value (call_context m hs lib sc) y =
      ConstCreateExecutorValue (inline_child hs lib) (Evaluate m hs (inline_child hs lib)) y"
    by (simp add: ControlFlowIntrinsicCallContextImpl_def context_CreateValue_def holds_data_def)
  obtain t k' where "ConstCreateExecutorValue (inline_child hs lib) (Evaluate m hs (inline_child hs lib)) y (k, out) =
      (Ok (Embedded t), (k', out))" "k \<le> Suc k'" "Task_Get t = Ok y"
    using create_data [OF True assms(1)] by blast
  then show ?thesis
    using delivers_budget [OF rest [of t k'], of k 1] True
    by (simp add: create GENC_TRY_apply return_apply create_again_def holds_data_def)
next
  case False
  then show ?thesis
    by (cases "value_case y = NotSet")
       (auto simp: holds_data_def create_again_def ControlFlowIntrinsicCallContextImpl_def context_CreateValue_def
          HasComputation_def ConstCreateExecutorValue_def delivers_def lift_apply GENC_TRY_apply)
qed

text \<open>One pass over the functions of a conditional chain, and what follows when none of them stops it.\<close>

lemma performs_pass:
  assumes "list_all2 (\<lambda>g p. performs (c p) (\<lambda>a. create_call (call_context m hs lib sc) g (Some a)) (q p)) gs ps"
    and "performs d L k"
  shows "performs (sum_list (map Suc (map c ps)) + d)
    (\<lambda>v. GENC_TRY (conditional_chain_pass (call_context m hs lib sc) gs v) (\<lambda>(s, stop). if stop then return s else L s))
    (one_pass (map q ps) k)"
  using assms(1)
proof (induction rule: list_all2_induct)
  case Nil
  have "(\<lambda>v. GENC_TRY (conditional_chain_pass (call_context m hs lib sc) [] v) (\<lambda>(s, stop). if stop then return s else L s)) = L"
    "one_pass (map q []) k = k"
    by (simp_all add: fun_eq_iff GENC_TRY_return)
  then show ?case using assms(2) by simp
next
  case (Cons g gs p ps)
  let ?ctx = "call_context m hs lib sc"
  let ?P = "\<lambda>v. GENC_TRY (conditional_chain_pass ?ctx gs v) (\<lambda>(s, stop). if stop then return s else L s)"
  let ?qs = "one_pass (map q ps) k" and ?c = "sum_list (map Suc (map c ps)) + d"
  have run: "(\<lambda>v. GENC_TRY (conditional_chain_pass ?ctx (g # gs) v) (\<lambda>(s, stop). if stop then return s else L s)) =
      (\<lambda>v. GENC_TRY (create_call ?ctx g (Some v)) (\<lambda>w. GENC_TRY (Materialize_pb ?ctx w) (\<lambda>y.
        if \<not> has_boolean y then GENC_TRY (create_value ?ctx y) ?P
        else if boolean y then return v else ?P v)))"
    by (rule ext) (simp add: GENC_TRY_assoc if_distrib [of "\<lambda>p. GENC_TRY p _"] GENC_TRY_return cong: if_cong)
  have want: "one_pass (map q (p # ps)) k = (\<lambda>x. GENC_TRY (q p x) (\<lambda>y.
        if \<not> has_boolean y then GENC_TRY (create_again y) ?qs else if boolean y then return x else ?qs x))"
    by (simp add: fun_eq_iff)
  have total: "sum_list (map Suc (map c (p # ps))) + d = c p + Suc ?c" by simp
  show ?case
    unfolding run want total
  proof (rule performs_test [OF Cons(1)])
    fix t t' :: ValueFuture and x y k' out
    assume t: "Task_Get t = Ok x" and k': "Suc ?c \<le> k'"
    have next_fn: "delivers ?c k1 (?P (Embedded t1) (k1, out)) (?qs y out)"
      if "Task_Get t1 = Ok y" "k' \<le> Suc k1" for t1 :: ValueFuture and k1
      using performs_run [OF Cons(3) _ that(1), of k1 out] k' that(2) by simp
    have same: "delivers (Suc ?c) k' (?P (Embedded t) (k', out)) (?qs x out)"
      by (rule delivers_mono [OF performs_run [OF Cons(3) _ t]]) (use k' in auto)
    have again: "delivers (Suc ?c) k' (GENC_TRY (create_value ?ctx y) ?P (k', out)) (GENC_TRY (create_again y) ?qs out)"
      by (rule create_context_data) (use k' next_fn in auto)
    show "delivers (Suc ?c) k' ((if \<not> has_boolean y then GENC_TRY (create_value ?ctx y) ?P
        else if boolean y then return (Embedded t) else ?P (Embedded t)) (k', out))
      ((if \<not> has_boolean y then GENC_TRY (create_again y) ?qs else if boolean y then return x else ?qs x) out)"
      using again same delivers_future [OF t, of "Suc ?c" k' out] by (simp split del: if_split) simp
  qed
qed

lemma performs_passes:
  assumes "list_all2 (\<lambda>g p. performs (c p) (\<lambda>a. create_call (call_context m hs lib sc) g (Some a)) (q p)) gs ps"
  shows "performs (n * sum_list (map Suc (map c ps))) (conditional_chain_loop n (call_context m hs lib sc) gs)
    (passes n (map q ps))"
proof (induction n)
  case 0
  have "conditional_chain_loop 0 (call_context m hs lib sc) gs = return" by (simp add: fun_eq_iff)
  then show ?case by (simp add: performs_return)
next
  case (Suc n)
  have "conditional_chain_loop (Suc n) (call_context m hs lib sc) gs =
      (\<lambda>v. GENC_TRY (conditional_chain_pass (call_context m hs lib sc) gs v)
        (\<lambda>(s, stop). if stop then return s else conditional_chain_loop n (call_context m hs lib sc) gs s))"
    by (simp add: fun_eq_iff)
  then show ?case using performs_pass [OF assms Suc] by simp
qed

lemma performs_loop:
  assumes "performs cc (\<lambda>a. create_call (call_context m hs lib sc) cf (Some a)) qc"
    and "performs cb (\<lambda>a. create_call (call_context m hs lib sc) bf (Some a)) qb"
    and "Suc turns \<le> n"
  shows "performs (Suc turns * (cc + cb)) (While_loop n (call_context m hs lib sc) cf bf) (loop turns qc qb)"
proof -
  let ?ctx = "call_context m hs lib sc"
  let ?err = "\<lambda>y. lift (InvalidArgumentError [Txt ''Condition does not have boolean: '', DebugString y])"
  have turn: "While_loop (Suc n) ?ctx cf bf = (\<lambda>v. GENC_TRY (create_call ?ctx cf (Some v)) (\<lambda>w.
      GENC_TRY (Materialize_pb ?ctx w) (\<lambda>y. if \<not> has_boolean y then ?err y
        else if \<not> boolean y then return v
        else GENC_TRY (create_call ?ctx bf (Some v)) (While_loop n ?ctx cf bf))))" for n
    by (simp add: fun_eq_iff)
  show ?thesis
    using assms(3)
  proof (induction turns arbitrary: n)
    case 0
    then obtain n' where n: "n = Suc n'" by (cases n) auto
    have "performs (cc + 0) (While_loop n ?ctx cf bf) (\<lambda>x. GENC_TRY (qc x) (\<lambda>y. lift Diverge))"
      unfolding n turn by (rule performs_test [OF assms(1)]) (simp add: delivers_def lift_apply)
    then have "performs (cc + 0) (While_loop n ?ctx cf bf) (loop 0 qc qb)"
      by (rule performs_cong) (simp add: lift_apply)
    then show ?case by (rule performs_mono) simp
  next
    case (Suc turns)
    then obtain n' where n: "n = Suc n'" and n': "Suc turns \<le> n'" by (cases n) auto
    have body: "performs (cb + Suc turns * (cc + cb)) (\<lambda>v. GENC_TRY (create_call ?ctx bf (Some v)) (While_loop n' ?ctx cf bf))
        (\<lambda>x. GENC_TRY (qb x) (loop turns qc qb))"
      by (rule performs_then [OF assms(2) Suc.IH [OF n']])
    have "loop (Suc turns) qc qb = (\<lambda>x. GENC_TRY (qc x) (\<lambda>y. if \<not> has_boolean y then ?err y
        else if \<not> boolean y then return x else GENC_TRY (qb x) (loop turns qc qb)))"
      by (simp add: fun_eq_iff)
    moreover have "Suc (Suc turns) * (cc + cb) = cc + (cb + Suc turns * (cc + cb))" by simp
    ultimately show ?case
      unfolding n turn
      using performs_run [OF body]
      by (simp only:) (rule performs_test [OF assms(1)], auto simp: delivers_future delivers_Err)
  qed
qed

text \<open>A candidate is read before it counts: what it gives, it gives at once.\<close>

lemma attempt_delivers:
  assumes "performs c (chain_step (call_context m hs lib sc) f) q" and "c \<le> k"
    and "GENC_TRY (lift (Task_Get t)) q out = (r, o1)" and "r \<noteq> Diverge"
  shows "\<exists>k'. k \<le> k' + c \<and>
    (case r of
       Ok y \<Rightarrow> \<exists>t'. attempt_candidate (Some (Embedded t)) (call_context m hs lib sc) f (k, out) = (Ok (Embedded t'), (k', o1))
         \<and> Task_Get t' = Ok y
     | Err e \<Rightarrow> attempt_candidate (Some (Embedded t)) (call_context m hs lib sc) f (k, out) = (Err e, (k', o1))
     | Crash x \<Rightarrow> attempt_candidate (Some (Embedded t)) (call_context m hs lib sc) f (k, out) = (Crash x, (k', o1))
     | Diverge \<Rightarrow> False)"
proof -
  let ?ctx = "call_context m hs lib sc"
  have step: "attempt_candidate (Some (Embedded t)) ?ctx f =
      GENC_TRY (chain_step ?ctx f (Embedded t)) (\<lambda>w. GENC_TRY (materialize ?ctx w False) (\<lambda>_. return w))"
    by (simp add: attempt_candidate_def chain_step_def GENC_TRY_assoc)
  obtain x k' o' where run: "chain_step ?ctx f (Embedded t) (k, out) = (x, (k', o'))" by (metis surj_pair)
  have "delivers c k (x, (k', o')) (r, o1)"
    using performsD [OF assms(1,2), of t out] assms(3) run by simp
  then show ?thesis
    using assms(4) run
    by (cases x; cases r) (auto simp: delivers_def step GENC_TRY_apply [of "chain_step _ _ _"]
        materialize_context materialize_future GENC_TRY_apply [of "GENC_TRY _ _"] GENC_TRY_apply [of "lift _"]
        return_apply lift_apply)
qed

text \<open>The candidates are all called with the same argument; a failed argument fails them all.\<close>

text \<open>What a fallback means, when its first candidate fails or does not end.\<close>

lemma first_success_next:
  assumes "GENC_TRY (lift r0) (q p) out = (Err d, o1)"
  shows "GENC_TRY (lift r0) (\<lambda>x. first_success (map q (p # ps)) x e) out = GENC_TRY (lift r0) (\<lambda>x. first_success (map q ps) x d) o1"
  using assms by (cases r0) (auto simp: GENC_TRY_apply lift_apply otherwise_def)

lemma first_success_diverges:
  assumes "GENC_TRY (lift r0) (q p) out = (Diverge, o1)"
  shows "fst (GENC_TRY (lift r0) (\<lambda>x. first_success (map q (p # ps)) x e) out) = Diverge"
  using assms by (cases r0) (auto simp: GENC_TRY_apply lift_apply otherwise_def)

lemma fallback_delivers:
  assumes "list_all2 (\<lambda>f p. performs (Suc (c p)) (chain_step (call_context m hs lib sc) f) (q p)) fs ps"
    and "sum_list (map Suc (map c ps)) \<le> k" and "fs = [] \<Longrightarrow> \<exists>x. Task_Get t = Ok x"
  shows "delivers (sum_list (map Suc (map c ps))) k (Fallback_loop (Some (Embedded t)) (call_context m hs lib sc) fs e (k, out))
    (GENC_TRY (lift (Task_Get t)) (\<lambda>x. first_success (map q ps) x e) out)"
  using assms
proof (induction arbitrary: k e out rule: list_all2_induct)
  case Nil
  then show ?case by (auto simp: delivers_def lift_apply lift_Ok)
next
  case (Cons f fs p ps)
  let ?ctx = "call_context m hs lib sc"
  obtain r o1 where r: "GENC_TRY (lift (Task_Get t)) (q p) out = (r, o1)"
    by (cases "GENC_TRY (lift (Task_Get t)) (q p) out")
  have k: "Suc (c p) \<le> k" using Cons.prems(1) by simp
  let ?want = "GENC_TRY (lift (Task_Get t)) (\<lambda>x. first_success (map q (p # ps)) x e) out"
  show ?case
  proof (cases "r = Diverge")
    case True
    then show ?thesis using first_success_diverges [of "Task_Get t" q p out o1 ps e] r by (simp add: delivers_def)
  next
    case False
    then obtain k' where k': "k \<le> k' + Suc (c p)" and att: "case r of
        Ok y \<Rightarrow> \<exists>t'. attempt_candidate (Some (Embedded t)) ?ctx f (k, out) = (Ok (Embedded t'), (k', o1)) \<and> Task_Get t' = Ok y
      | Err e \<Rightarrow> attempt_candidate (Some (Embedded t)) ?ctx f (k, out) = (Err e, (k', o1))
      | Crash x \<Rightarrow> attempt_candidate (Some (Embedded t)) ?ctx f (k, out) = (Crash x, (k', o1))
      | Diverge \<Rightarrow> False"
      using attempt_delivers [OF Cons(1) k r] by blast
    show ?thesis
    proof (cases r)
      case (Err d)
      have run: "Fallback_loop (Some (Embedded t)) ?ctx (f # fs) e (k, out) = Fallback_loop (Some (Embedded t)) ?ctx fs d (k', o1)"
        using att Err by (simp add: otherwise_def)
      have want: "?want = GENC_TRY (lift (Task_Get t)) (\<lambda>x. first_success (map q ps) x d) o1"
        by (rule first_success_next) (use r Err in simp)
      have budget: "sum_list (map Suc (map c ps)) \<le> k'" using k' Cons.prems(1) by simp
      have "delivers (sum_list (map Suc (map c ps))) k' (Fallback_loop (Some (Embedded t)) ?ctx fs d (k', o1))
          (GENC_TRY (lift (Task_Get t)) (\<lambda>x. first_success (map q ps) x d) o1)"
      proof (cases "fs = [] \<and> (\<nexists>x. Task_Get t = Ok x)")
        case True
        then show ?thesis
          using r Err by (cases "Task_Get t") (auto simp: delivers_def GENC_TRY_apply lift_apply)
      qed (use Cons.IH [OF budget] in blast)
      then have "delivers (Suc (c p) + sum_list (map Suc (map c ps))) k (Fallback_loop (Some (Embedded t)) ?ctx (f # fs) e (k, out)) ?want"
        unfolding run want by (rule delivers_budget [OF _ k'])
      then show ?thesis by simp
    qed (use False att r k' in \<open>cases "Task_Get t"; auto simp: delivers_def otherwise_def GENC_TRY_apply lift_apply\<close>)+
  qed
qed

lemma performs_fallback:
  assumes "list_all2 (\<lambda>f p. performs (Suc (c p)) (chain_step (call_context m hs lib sc) f) (q p)) fs ps"
    and "ps \<noteq> []"
  shows "performs (sum_list (map Suc (map c ps)))
    (\<lambda>v. Fallback_loop (Some v) (call_context m hs lib sc) fs e) (\<lambda>x. first_success (map q ps) x e)"
  unfolding performs_def using fallback_delivers [OF assms(1)] assms by fastforce

section \<open>The stack runs what was written\<close>

lemma run_intrinsic_pb:
  "value_case v = KIntrinsic i \<Longrightarrow> run_intrinsic hs lib v = run_intrinsic hs lib (plain (KIntrinsic i))"
  by (cases v) (simp add: fun_eq_iff run_intrinsic_def)

lemma call_node:
  "interface_type h = CONTROL_FLOW \<Longrightarrow>
   ConstCreateCall (Suc m) hs (inline_child hs lib) (IntrinsicV i h sc) (Some a) =
     control_flow_ExecuteCall m h i (Some a) (call_context m hs lib sc)"
  by (simp add: ConstCreateCall_Suc ConstCreateCall_F_def ScopedIntrinsic_Call_def GetControlFlowInterface_def lift_Ok)

lemma depth_list_pos: "1 \<le> foldr max (map depth ps) 1"
  by (induction ps) auto

lemma children_perform:
  assumes "list_all2 (\<lambda>f p. value_case f = KIntrinsic (program_pb p)) fs ps"
    and "\<And>p g. p \<in> set ps \<Longrightarrow> runnable hs p \<Longrightarrow> represents p g \<Longrightarrow> depth p + turns \<le> m \<Longrightarrow>
      performs (c p) (\<lambda>a. ConstCreateCall m hs (inline_child hs lib) g (Some a)) (q p)"
    and "list_all (\<lambda>r. r) (map (runnable hs) ps)" and "foldr max (map depth ps) 1 + turns \<le> m"
  shows "list_all2 (\<lambda>f p. performs (Suc (c p)) (chain_step (call_context m hs lib sc) f) (q p)) fs ps"
  using assms(1)
proof (rule list.rel_mono_strong)
  fix f p assume p: "p \<in> set ps" and f: "value_case f = KIntrinsic (program_pb p)"
  have r: "runnable hs p" using assms(3) p by (auto simp: list_all_iff)
  have "depth p + turns \<le> m" "1 \<le> m"
    using assms(4) depth_list [OF p] depth_list_pos [of ps] by linarith+
  then show "performs (Suc (c p)) (chain_step (call_context m hs lib sc) f) (q p)"
    using f r assms(2) [OF p] by (auto intro: step_performs)
qed

lemma create_body:
  assumes "runnable hs p" and "value_case f = KIntrinsic (program_pb p)" and "1 \<le> m"
    and "\<And>g. represents p g \<Longrightarrow> performs c (F g) q"
  shows "performs (Suc c) (\<lambda>v. GENC_TRY (create_value (call_context m hs lib sc) f) (\<lambda>g. F g v)) q"
  unfolding performs_def
proof (intro allI impI)
  fix t k out assume k: "Suc c \<le> k"
  show "delivers (Suc c) k (GENC_TRY (create_value (call_context m hs lib sc) f) (\<lambda>g. F g (Embedded t)) (k, out))
      (GENC_TRY (lift (Task_Get t)) q out)"
    by (rule created_then [OF assms(1-3)]) (use k in \<open>auto intro!: performsD [OF assms(4)]\<close>)
qed

text \<open>The functions of a conditional chain are created once, before the first pass.\<close>

lemma create_all:
  assumes "list_all2 (\<lambda>f p. value_case f = KIntrinsic (program_pb p)) fs ps"
    and "list_all (\<lambda>r. r) (map (runnable hs) ps)" and "1 \<le> m" and "length ps \<le> k"
  shows "\<exists>gs k'. map_try (create_value (call_context m hs lib sc)) fs (k, out) = (Ok gs, (k', out)) \<and>
    k \<le> k' + length ps \<and> list_all2 (\<lambda>g p. represents p g) gs ps"
  using assms
proof (induction arbitrary: k rule: list_all2_induct)
  case Nil
  then show ?case by (simp add: return_apply)
next
  case (Cons f fs p ps)
  have ctx: "create_value (call_context m hs lib sc) f = Evaluate m hs (inline_child hs lib) f sc"
    using Cons(1)
    by (simp add: ControlFlowIntrinsicCallContextImpl_def context_CreateValue_def HasComputation_def)
  obtain g k1 where g: "Evaluate m hs (inline_child hs lib) f sc (k, out) = (Ok g, (k1, out))" "k \<le> Suc k1"
      "represents p g"
    using evaluate_program [of hs p f m k lib sc out] Cons(1) Cons.prems by auto
  then obtain gs k' where gs: "map_try (create_value (call_context m hs lib sc)) fs (k1, out) = (Ok gs, (k', out))"
      "k1 \<le> k' + length ps" "list_all2 (\<lambda>g p. represents p g) gs ps"
    using Cons.IH [of k1] Cons.prems by auto
  have "map_try (create_value (call_context m hs lib sc)) (f # fs) (k, out) = (Ok (g # gs), (k', out))"
    by (simp add: GENC_TRY_apply ctx g(1) gs(1) return_apply)
  then show ?case using g(2,3) gs(2,3) by (intro exI [of _ "g # gs"] exI [of _ k']) simp
qed

lemma created_chain:
  assumes "list_all2 (\<lambda>f p. value_case f = KIntrinsic (program_pb p)) fs ps"
    and "list_all (\<lambda>r. r) (map (runnable hs) ps)" and "1 \<le> m"
    and loops: "\<And>gs. list_all2 (\<lambda>g p. represents p g) gs ps \<Longrightarrow> performs c (F gs) q"
  shows "performs (length ps + c) (\<lambda>v. GENC_TRY (map_try (create_value (call_context m hs lib sc)) fs) (\<lambda>gs. F gs v)) q"
  unfolding performs_def
proof (intro allI impI)
  fix t k out assume k: "length ps + c \<le> k"
  obtain gs k' where gs: "map_try (create_value (call_context m hs lib sc)) fs (k, out) = (Ok gs, (k', out))"
      "k \<le> k' + length ps" "list_all2 (\<lambda>g p. represents p g) gs ps"
    using create_all [OF assms(1-3), of k lib sc out] k by auto
  have "delivers c k' (F gs (Embedded t) (k', out)) (GENC_TRY (lift (Task_Get t)) q out)"
    by (rule performsD [OF loops [OF gs(3)]]) (use k gs(2) in simp)
  from delivers_budget [OF this gs(2)]
  show "delivers (length ps + c) k
      (GENC_TRY (map_try (create_value (call_context m hs lib sc)) fs) (\<lambda>gs. F gs (Embedded t)) (k, out))
      (GENC_TRY (lift (Task_Get t)) q out)"
    by (simp add: GENC_TRY_apply [of "map_try _ _"] gs(1))
qed

lemma program_static:
  "params (program_pb (Chain ps)) = numbered (map (\<lambda>i. plain (KIntrinsic i)) (map program_pb ps))"
  "params (program_pb (Breakable ps)) = numbered (map (\<lambda>i. plain (KIntrinsic i)) (map program_pb ps))"
  "params (program_pb (Alternatives ps)) =
     map (CreateLabeledValue ''candidate_fn'') (map (\<lambda>i. plain (KIntrinsic i)) (map program_pb ps))"
  "params (program_pb (Repeated n p)) =
     [labeled_int_32 ''num_steps'' n, CreateLabeledValue ''body_fn'' (plain (KIntrinsic (program_pb p)))]"
  "params (program_pb (Loop c b)) =
     [CreateLabeledValue ''condition_fn'' (plain (KIntrinsic (program_pb c))),
      CreateLabeledValue ''body_fn'' (plain (KIntrinsic (program_pb b)))]"
  "params (program_pb (Conditional_chain n ps)) =
     labeled_int_32 ''num_steps'' n # numbered (map (\<lambda>i. plain (KIntrinsic i)) (map program_pb ps))"
  by (simp_all add: static_parameter_def or_default_def)

text \<open>
  Calling the node of a program does what the program means; the cases of the induction,
  for the node one level of calls down.
\<close>

definition call_means ::
  "'w IntrinsicHandlerSet \<Rightarrow> 'c libs \<Rightarrow> nat \<Rightarrow> nat \<Rightarrow> program \<Rightarrow> 'w local_value \<Rightarrow> bool" where
  "call_means hs lib turns m p g \<longleftrightarrow>
     performs (handles turns p) (\<lambda>a. ConstCreateCall m hs (inline_child hs lib) g (Some a)) (meaning turns hs lib p)"

lemma call_means_inline:
  assumes "represents (Inline i) g" and "depth (Inline i) + turns \<le> m"
  shows "call_means hs lib turns m (Inline i) g"
proof -
  obtain t v m' where g: "g = Embedded t" "Task_Get t = Ok v" "value_case v = KIntrinsic i" and m: "m = Suc m'"
    using assms by (cases m) (auto simp: represents_def)
  show ?thesis
    using call_inline [OF g(2), of hs lib] run_intrinsic_pb [OF g(3), of hs lib]
    by (simp add: g(1) m ConstCreateCall_Suc ConstCreateCall_F_def call_means_def)
qed

lemma kids_perform:
  assumes "\<And>p g. p \<in> set ps \<Longrightarrow> runnable hs p \<Longrightarrow> represents p g \<Longrightarrow> depth p + turns \<le> m \<Longrightarrow> call_means hs lib turns m p g"
    and "list_all (\<lambda>r. r) (map (runnable hs) ps)" and "foldr max (map depth ps) 1 + turns \<le> m"
  shows "list_all2 (\<lambda>f p. performs (Suc (handles turns p)) (chain_step (call_context m hs lib sc) f) (meaning turns hs lib p))
      (numbered (map (\<lambda>i. plain (KIntrinsic i)) (map program_pb ps))) ps"
    and "list_all2 (\<lambda>f p. performs (Suc (handles turns p)) (chain_step (call_context m hs lib sc) f) (meaning turns hs lib p))
      (map (CreateLabeledValue ''candidate_fn'') (map (\<lambda>i. plain (KIntrinsic i)) (map program_pb ps))) ps"
  by (rule children_perform [OF program_params(1), where turns = turns] children_perform [OF program_params(2), where turns = turns];
      use assms in \<open>auto simp: call_means_def\<close>)+

lemma call_means_repeat:
  assumes "\<And>g. represents p g \<Longrightarrow> call_means hs lib turns m p g" and "runnable hs p" and "1 \<le> m"
  shows "call_means hs lib turns (Suc m) (Repeated n p) (IntrinsicV (program_pb (Repeated n p)) Repeat sc)"
proof -
  have call: "performs (nat (sint n) * handles turns p)
      (\<lambda>v. repeat_try (nat (sint n)) (\<lambda>st. ConstCreateCall m hs (inline_child hs lib) g (Some st)) v)
      (repeat_try (nat (sint n)) (meaning turns hs lib p))" if "represents p g" for g
    by (rule performs_repeat) (use assms(1) that in \<open>auto simp: call_means_def\<close>)
  have "performs (handles turns (Repeated n p))
      (\<lambda>v. GENC_TRY (create_value (call_context m hs lib sc) (CreateLabeledValue ''body_fn'' (plain (KIntrinsic (program_pb p)))))
        (\<lambda>g. repeat_try (nat (sint n)) (\<lambda>st. ConstCreateCall m hs (inline_child hs lib) g (Some st)) v))
      (meaning turns hs lib (Repeated n p))"
    unfolding handles.simps meaning.simps
    by (rule create_body) (use assms call in \<open>auto simp: CreateLabeledValue_def\<close>)
  then show ?thesis
    by (simp add: call_node Repeat_ExecuteCall_def program_static element_def arg_value_def lift_Ok call_means_def
        labeled_int_32_def materialize_context del: program_pb.simps)
qed

lemma call_means_loop:
  assumes "\<And>g. represents c g \<Longrightarrow> call_means hs lib turns m c g" and "\<And>g. represents b g \<Longrightarrow> call_means hs lib turns m b g"
    and "runnable hs c" and "runnable hs b" and "Suc turns \<le> m"
  shows "call_means hs lib turns (Suc m) (Loop c b) (IntrinsicV (program_pb (Loop c b)) While sc)"
proof -
  let ?ctx = "call_context m hs lib sc"
  have body: "performs (Suc turns * (handles turns c + handles turns b)) (While_loop m ?ctx f g)
      (loop turns (meaning turns hs lib c) (meaning turns hs lib b))"
    if "represents c f" "represents b g" for f g
    by (rule performs_loop) (use assms(1,2,5) that in \<open>auto simp: materialize_context call_means_def\<close>)
  have "performs (Suc (Suc (Suc turns * (handles turns c + handles turns b))))
      (\<lambda>v. GENC_TRY (create_value ?ctx (CreateLabeledValue ''condition_fn'' (plain (KIntrinsic (program_pb c)))))
        (\<lambda>f. GENC_TRY (create_value ?ctx (CreateLabeledValue ''body_fn'' (plain (KIntrinsic (program_pb b)))))
          (\<lambda>g. While_loop m ?ctx f g v)))
      (meaning turns hs lib (Loop c b))"
    unfolding meaning.simps
    by (rule create_body, use assms(3-5) in \<open>auto simp: CreateLabeledValue_def\<close>,
        rule create_body, use assms(3-5) body in \<open>auto simp: CreateLabeledValue_def\<close>)
  then show ?thesis
    by (simp add: call_node While_ExecuteCall_def program_static element_def arg_value_def lift_Ok call_means_def
        del: program_pb.simps)
qed

lemma call_means_conditional:
  assumes "\<And>p g. p \<in> set ps \<Longrightarrow> runnable hs p \<Longrightarrow> represents p g \<Longrightarrow> depth p + turns \<le> m \<Longrightarrow> call_means hs lib turns m p g"
    and wf: "list_all (\<lambda>r. r) (map (runnable hs) ps)" and fuel: "foldr max (map depth ps) 1 + turns \<le> m"
  shows "call_means hs lib turns (Suc m) (Conditional_chain n ps)
    (IntrinsicV (program_pb (Conditional_chain n ps)) RepeatedConditionalChain sc)"
proof -
  let ?ctx = "call_context m hs lib sc" and ?q = "meaning turns hs lib"
  have m: "1 \<le> m" using fuel depth_list_pos [of ps] by linarith
  have "performs (nat (sint n) * sum_list (map Suc (map (handles turns) ps)))
      (conditional_chain_loop (nat (sint n)) ?ctx gs) (passes (nat (sint n)) (map ?q ps))"
    if "list_all2 (\<lambda>g p. represents p g) gs ps" for gs
  proof (rule performs_passes, rule list.rel_mono_strong [OF that])
    fix g p assume p: "p \<in> set ps" "represents p (g :: 'a local_value)"
    then show "performs (handles turns p) (\<lambda>a. create_call ?ctx g (Some a)) (?q p)"
      unfolding materialize_context
      using assms(1) [of p g] wf fuel depth_list [OF p(1)] by (auto simp: list_all_iff call_means_def)
  qed
  from created_chain [OF program_params(1) wf m this]
  show ?thesis
    by (simp add: call_node RepeatedConditionalChain_ExecuteCall_def program_static element_def arg_value_def
        lift_Ok labeled_int_32_def call_means_def del: program_pb.simps)
qed

lemma call_program:
  fixes hs :: "'w IntrinsicHandlerSet"
  shows "runnable hs p \<Longrightarrow> represents p g \<Longrightarrow> depth p + turns \<le> m \<Longrightarrow> call_means hs lib turns m p g"
proof (induction p arbitrary: g m)
  case (Inline i)
  then show ?case by (intro call_means_inline)
next
  case (Chain ps)
  obtain sc m' where gm: "g = IntrinsicV (program_pb (Chain ps)) SerialChain sc" "m = Suc m'"
    using Chain.prems by (cases m) (auto simp: represents_def)
  from performs_fold [OF kids_perform(1) [of ps hs turns m' lib sc]] show ?case
    using Chain by (simp add: gm call_node SerialChain_ExecuteCall_def arg_value_def program_static lift_Ok call_means_def del: program_pb.simps)
next
  case (Breakable ps)
  obtain sc m' where gm: "g = IntrinsicV (program_pb (Breakable ps)) BreakableChain sc" "m = Suc m'"
    using Breakable.prems by (cases m) (auto simp: represents_def)
  from performs_breakable [OF kids_perform(1) [of ps hs turns m' lib sc]] show ?case
    using Breakable by (simp add: gm call_node BreakableChain_ExecuteCall_def arg_value_def program_static lift_Ok call_means_def del: program_pb.simps)
next
  case (Alternatives ps)
  obtain sc m' where gm: "g = IntrinsicV (program_pb (Alternatives ps)) Fallback sc" "m = Suc m'"
    using Alternatives.prems by (cases m) (auto simp: represents_def)
  from performs_fallback [OF kids_perform(2) [of ps hs turns m' lib sc]] show ?case
    using Alternatives by (simp add: gm call_node Fallback_ExecuteCall_def program_static lift_Ok call_means_def del: program_pb.simps)
next
  case (Repeated n p)
  then obtain sc m' where gm: "g = IntrinsicV (program_pb (Repeated n p)) Repeat sc" "m = Suc m'"
    by (cases m) (auto simp: represents_def)
  show ?case
    unfolding gm by (rule call_means_repeat) (use Repeated depth_pos [of p] gm in \<open>auto\<close>)
next
  case (Loop c b)
  then obtain sc m' where gm: "g = IntrinsicV (program_pb (Loop c b)) While sc" "m = Suc m'"
    by (cases m) (auto simp: represents_def)
  show ?case
    unfolding gm by (rule call_means_loop) (use Loop depth_pos [of c] gm in \<open>auto\<close>)
next
  case (Conditional_chain n ps)
  then obtain sc m' where gm: "g = IntrinsicV (program_pb (Conditional_chain n ps)) RepeatedConditionalChain sc" "m = Suc m'"
    by (cases m) (auto simp: represents_def)
  show ?case
    unfolding gm by (rule call_means_conditional) (use Conditional_chain gm in \<open>auto\<close>)
qed

lemmas call_performs = call_program [unfolded call_means_def]

lemma local_run_program:
  assumes "runnable hs p" and "depth p + turns \<le> n" and "holds_data arg" and "handles turns p + 2 \<le> k"
    and "meaning turns hs lib p arg out = (r, out')" and "r \<noteq> Diverge"
  shows "\<exists>k'. local_run n hs lib (plain (KIntrinsic (program_pb p))) arg (k, out) = (r, (k', out'))"
proof -
  let ?child = "inline_child hs lib" and ?f = "plain (KIntrinsic (program_pb p))"
  have n: "1 \<le> n" using assms(2) depth_pos [of p] by linarith
  obtain g k1 where g: "Evaluate n hs ?child ?f Root (k, out) = (Ok g, (k1, out))" "k \<le> Suc k1" "represents p g"
    using evaluate_program [OF assms(1), of ?f n k lib Root out] n assms(4) by auto
  obtain t k2 where t: "ConstCreateExecutorValue ?child (Evaluate n hs ?child) arg (k1, out) = (Ok (Embedded t), (k2, out))"
      "k1 \<le> Suc k2" "Task_Get t = Ok arg"
    using create_data [OF assms(3), of k1 hs lib "Evaluate n hs ?child" out] g(2) assms(4) by auto
  have "delivers (handles turns p) k2 (ConstCreateCall n hs ?child g (Some (Embedded t)) (k2, out)) (r, out')"
    using performsD [OF call_performs [OF assms(1) g(3) assms(2), of lib], of k2 t out] g(2) t(2,3) assms(4,5)
    by (simp add: lift_Ok)
  moreover obtain x k3 o3 where x: "ConstCreateCall n hs ?child g (Some (Embedded t)) (k2, out) = (x, (k3, o3))"
    by (metis surj_pair)
  ultimately have o3: "o3 = out'" and res: "case x of Ok v \<Rightarrow> \<exists>t. v = Embedded t \<and> Task_Get t = r
      | Err e \<Rightarrow> r = Err e | Crash c \<Rightarrow> r = Crash c | Diverge \<Rightarrow> False"
    using assms(6) by (cases x; auto simp: delivers_def)+
  have start: "ConstCreateExecutorValue ?child (Evaluate n hs ?child) ?f = Evaluate n hs ?child ?f Root"
    by (simp add: ConstCreateExecutorValue_def)
  have "local_run n hs lib ?f arg (k, out) = (case x of
      Ok v \<Rightarrow> GENC_TRY (ConstMaterialize ?child v True)
        (\<lambda>v. return (case v of None \<Rightarrow> empty_value | Some p \<Rightarrow> p)) (k3, out')
    | Err e \<Rightarrow> (Err e, (k3, out')) | Crash c \<Rightarrow> (Crash c, (k3, out')) | Diverge \<Rightarrow> (Diverge, (k3, out')))"
    unfolding local_run_def run_values_def ControlFlowExecutor_def executor_impl.simps start
    by (simp add: GENC_TRY_apply [of "Evaluate _ _ _ _ _"] g(1)
        GENC_TRY_apply [of "ConstCreateExecutorValue _ _ _"] t(1)
        GENC_TRY_apply [of "ConstCreateCall _ _ _ _ _"] x o3)
  also have "\<dots> = (r, (k3, out'))"
    using res assms(6)
    by (cases x; cases r) (auto simp: materialize_future GENC_TRY_apply lift_apply return_apply)
  finally show ?thesis by blast
qed

lemma program_runs:
  assumes "runnable hs p" and "holds_data arg" and "depth p + turns \<le> n" and "local_room (handles turns p + 2) b"
    and "meaning turns hs lib p arg (sub_state (sub_state b)) = (r, out)" and "r \<noteq> Diverge"
  shows "\<exists>b'. RunInternal (CreateLocalExecutor n hs lib None) (plain (KIntrinsic (program_pb p))) arg b = (r, b') \<and>
    sub_state (sub_state b') = out \<and>
    (returned r \<longrightarrow> tracked_values b' = tracked_values b \<and> tracked_inv b') \<and>
    tracked_inv (sub_state b')"
  using local_run_program [OF assms(1,3,2) le_refl assms(5,6)] local_stack_run [OF assms(4) _ assms(6)]
  by blast


text \<open>A loop that logs and negates until the value is false, then a fallback whose first candidate fails.\<close>

definition sample_program :: program where
  "sample_program =
     Chain [Loop (Chain [Inline (IntrinsicPb kLogger None)]) (Inline (IntrinsicPb kLogicalNot None)),
       Alternatives [Inline (IntrinsicPb kRegexPartialMatch (Some (plain (KStr ''x'')))),
         Repeated 3 (Inline (IntrinsicPb kLogicalNot None))]]"

definition program_handlers :: "unit IntrinsicHandlerSet" where
  "program_handlers = fold AddHandler
     [Logger, LogicalNot, RegexPartialMatch, SerialChain, While, Fallback, Repeat] Map.empty"

lemma sample_program_meaning:
  "meaning 3 program_handlers sample_libs sample_program (plain (KBoolean True)) new_process =
     (Ok (plain (KBoolean True)), \<lparr>console_lines = [[DebugString (plain (KBoolean True))], [DebugString (plain (KBoolean False))]],
        memory = ()\<rparr>)"
  by code_simp

lemma sample_program_runnable: "runnable program_handlers sample_program"
  by (simp add: sample_program_def program_handlers_def AddHandler_def GetHandler_def CheckWellFormed_defs
      static_parameter_def or_default_def) (simp add: uri_defs)

lemma sample_program_size: "depth sample_program = 4" "handles 3 sample_program = 23"
  by code_simp+


end
