(* ===== verification/Stacks.thy ===== *)
theory Stacks
  imports Llamacpp React Retrieval Backends Oak Programs
begin

text \<open>
  The executor stacks that applications use (\<^verbatim>\<open>genc/cc/examples/executors\<close>): the default
  one, the one over a Java virtual machine and the one for Android, that is, the
  functions, model backends and custom handlers each registers before it creates the
  local executor; and the worker (\<^verbatim>\<open>modules/worker/run_server.cc\<close>), which puts an executor
  on the network. The functions share state that lives as long as the process: the local
  cache and the client of llama.cpp, the memory of the process.
\<close>

section \<open>The state behind the functions\<close>

record ('m, 'x) stack_memory =
  executor_stacks_context :: "value_cache option"
  llama_cpp_client :: "('m, 'x) llama_client option"

type_synonym ('m, 'x) stack_process = "('m, 'x) stack_memory process"
type_synonym ('m, 'x) stack_fn = "('m, 'x) stack_memory process_fn"
type_synonym ('m, 'x) stack_config = "('m, 'x) stack_memory HandlerSetConfig"

definition on_cache :: "(pvalue \<Rightarrow> (value_cache, pvalue) prog) \<Rightarrow> ('m, 'x) stack_fn" where
  "on_cache f v p = (case executor_stacks_context (memory p) of
      None \<Rightarrow> (Crash NullDereference, p)
    | Some c \<Rightarrow> (case f v c of
        (r, c') \<Rightarrow> (r, p\<lparr>memory := (memory p)\<lparr>executor_stacks_context := Some c'\<rparr>\<rparr>)))"

text \<open>The functions of the local cache are registered in a map, each on its part of the memory.\<close>

definition register ::
  "(('k \<Rightarrow> 'f) \<Rightarrow> 'g) \<Rightarrow> (string \<rightharpoonup> ('k \<Rightarrow> 'f)) \<Rightarrow> (string \<rightharpoonup> 'g) \<Rightarrow> (string \<rightharpoonup> 'g)" where
  "register place fns fn_map = fn_map ++ (\<lambda>u. map_option place (fns u))"

section \<open>Set-up\<close>

definition kOpenAIModelUri :: string where "kOpenAIModelUri = ''/openai/chatgpt''"

definition kGeminiModelUri :: string where "kGeminiModelUri = ''/cloud/gemini''"

definition kGemmaModelUri :: string where "kGemmaModelUri = ''/device/gemma''"

definition kLlmInferenceModelUri :: string where "kLlmInferenceModelUri = ''/device/llm_inference''"

definition kMediapipeModelUri :: string where "kMediapipeModelUri = ''/device/mediapipe''"

definition kLlamaCppModelUri :: string where "kLlamaCppModelUri = ''/device/llamacpp''"

definition MAX_CACHE_SIZE_PER_KEY :: nat where "MAX_CACHE_SIZE_PER_KEY = 200"

text \<open>\<open>call_once\<close> runs the initialization only for the first executor.\<close>

definition InitExecutorStacksContext :: "('m, 'x) stack_process \<Rightarrow> ('m, 'x) stack_process" where
  "InitExecutorStacksContext p =
     p\<lparr>memory := (memory p)\<lparr>executor_stacks_context := Some (LocalCache MAX_CACHE_SIZE_PER_KEY)\<rparr>\<rparr>"

definition init_once :: "('m, 'x) stack_process \<Rightarrow> ('m, 'x) stack_process" where
  "init_once p = (if executor_stacks_context (memory p) = None then InitExecutorStacksContext p else p)"

definition cache_functions :: "string \<rightharpoonup> (pvalue \<Rightarrow> (value_cache, pvalue) prog)" where
  "cache_functions = SetCustomFunctionsForLocalValueCache Map.empty ''\<newline>'' ''default_key''"

section \<open>The llama.cpp client of the process\<close>

definition on_llama ::
  "('m, 'x) llama_client \<Rightarrow> (('m, 'x) llama_client, 'a) prog \<Rightarrow> (('m, 'x) stack_process, 'a) prog" where
  "on_llama llama f p = (case f llama of
      (r, llama') \<Rightarrow> (r, p\<lparr>memory := (memory p)\<lparr>llama_cpp_client := Some llama'\<rparr>\<rparr>))"

text \<open>The default and the Java stack initialize the client until that succeeds.\<close>

definition llama_inference ::
  "('m, 'x, 'f) llama_lib \<Rightarrow> (string \<Rightarrow> i32 option) \<Rightarrow> intrinsic_pb \<Rightarrow> ('m, 'x) stack_fn" where
  "llama_inference L atoi intrinsic_pb arg p =
     (let llama = (case llama_cpp_client (memory p) of Some c \<Rightarrow> c | None \<Rightarrow> fresh_client)
      in on_llama llama
        (GENC_TRY (if is_initialized llama then return ()
                   else GENC_TRY (lift (element (params intrinsic_pb) 1)) (InitModel_config L atoi))
          (\<lambda>_. LlamaCppCall L arg)) p)"

text \<open>The Android stack initializes the client only when it creates it.\<close>

definition android_llama_inference ::
  "('m, 'x, 'f) llama_lib \<Rightarrow> (string \<Rightarrow> i32 option) \<Rightarrow> intrinsic_pb \<Rightarrow> ('m, 'x) stack_fn" where
  "android_llama_inference L atoi intrinsic_pb arg p = (case llama_cpp_client (memory p) of
      Some c \<Rightarrow> on_llama c (LlamaCppCall L arg) p
    | None \<Rightarrow> GENC_TRY (lift (element (params intrinsic_pb) 1)) (\<lambda>config.
        on_llama fresh_client (GENC_TRY (InitModel_config L atoi config) (\<lambda>_. LlamaCppCall L arg))) p)"

definition SetLlamaCppModelInferenceHandler ::
  "(intrinsic_pb \<Rightarrow> ('m, 'x) stack_fn) \<Rightarrow> string \<Rightarrow> ('m, 'x) stack_config \<Rightarrow> ('m, 'x) stack_config" where
  "SetLlamaCppModelInferenceHandler inference model_uri config =
     config\<lparr>model_inference_with_config_map := (model_inference_with_config_map config)(model_uri \<mapsto> inference)\<rparr>"

text \<open>
  An executor of a stack with the bound on its depth, and the creation of one in a process.
\<close>

type_synonym ('m, 'x) stack_executor = "(ValueId, ('m, 'x) stack_memory local_state) executor"

definition create_with ::
  "nat \<Rightarrow> 'c libs \<Rightarrow> schedule option \<Rightarrow> ('m, 'x) stack_config
     \<Rightarrow> (('m, 'x) stack_process, ('m, 'x) stack_executor) prog" where
  "create_with n lib ci config = return (CreateLocalExecutor n (CreateCompleteHandlerSet config) lib ci)"

section \<open>The default stack\<close>

definition default_stack_config ::
  "'c libs \<Rightarrow> (json \<Rightarrow> string outcome) \<Rightarrow> re_capture \<Rightarrow> ('m, 'x, 'f) llama_lib \<Rightarrow> (string \<Rightarrow> i32 option)
     \<Rightarrow> ('m, 'x) stack_config" where
  "default_stack_config lib dump R L atoi =
     (let config = default_config;
          config = config\<lparr>custom_function_map := ReAct_SetCustomFunctions R (custom_function_map config)\<rparr>;
          config = config\<lparr>custom_function_map := GeminiParser_SetCustomFunctions lib (custom_function_map config)\<rparr>;
          config = config\<lparr>custom_intrinsics_list := custom_intrinsics_list config @ [WolframAlpha]\<rparr>;
          config = config\<lparr>model_inference_with_config_map :=
            GoogleAI_SetInferenceMap lib dump (model_inference_with_config_map config)\<rparr>;
          config = SetLlamaCppModelInferenceHandler (llama_inference L atoi) kGemmaModelUri config;
          config = SetLlamaCppModelInferenceHandler (llama_inference L atoi) kLlamaCppModelUri config
      in config\<lparr>custom_function_map := register on_cache cache_functions (custom_function_map config)\<rparr>)"

definition CreateDefaultExecutorWithConcurrencyInterface ::
  "nat \<Rightarrow> 'c libs \<Rightarrow> (json \<Rightarrow> string outcome) \<Rightarrow> re_capture \<Rightarrow> ('m, 'x, 'f) llama_lib \<Rightarrow> (string \<Rightarrow> i32 option)
     \<Rightarrow> schedule option \<Rightarrow> (('m, 'x) stack_process, ('m, 'x) stack_executor) prog" where
  "CreateDefaultExecutorWithConcurrencyInterface n lib dump R L atoi ci p =
     create_with n lib ci (default_stack_config lib dump R L atoi) (init_once p)"

definition CreateDefaultExecutor ::
  "nat \<Rightarrow> 'c libs \<Rightarrow> (json \<Rightarrow> string outcome) \<Rightarrow> re_capture \<Rightarrow> ('m, 'x, 'f) llama_lib \<Rightarrow> (string \<Rightarrow> i32 option)
     \<Rightarrow> (('m, 'x) stack_process, ('m, 'x) stack_executor) prog" where
  "CreateDefaultExecutor n lib dump R L atoi =
     CreateDefaultExecutorWithConcurrencyInterface n lib dump R L atoi (Some thread_based)"

section \<open>The stacks over a Java virtual machine\<close>

text \<open>The clients of the backends, the wire format and the JSON text they use.\<close>

record java_clients =
  open_ai_client :: jni_client
  google_ai_client :: jni_client
  llm_inference_client :: jni_client
  wolfram_alpha_client :: jni_client
  client_ser :: "pvalue \<Rightarrow> string"
  client_parse :: "string \<Rightarrow> json option"
  client_dump :: "json \<Rightarrow> string"

definition SetOpenAiModelInferenceHandler ::
  "java_clients \<Rightarrow> string \<Rightarrow> ('m, 'x) stack_config \<Rightarrow> ('m, 'x) stack_config" where
  "SetOpenAiModelInferenceHandler J model_uri config =
     config\<lparr>model_inference_with_config_map := (model_inference_with_config_map config)(model_uri \<mapsto> (\<lambda>i arg. lift
       (OpenAiCall (open_ai_client J) (client_ser J) (client_parse J) (client_dump J) (plain (KIntrinsic i)) arg)))\<rparr>"

definition SetGoogleAiModelInferenceHandler ::
  "java_clients \<Rightarrow> string \<Rightarrow> ('m, 'x) stack_config \<Rightarrow> ('m, 'x) stack_config" where
  "SetGoogleAiModelInferenceHandler J model_uri config =
     config\<lparr>model_inference_with_config_map := (model_inference_with_config_map config)(model_uri \<mapsto> (\<lambda>i arg. lift
       (GoogleAiCall (google_ai_client J) (client_ser J) (client_parse J) (client_dump J) (plain (KIntrinsic i)) arg)))\<rparr>"

definition SetMediapipeModelInferenceHandler ::
  "java_clients \<Rightarrow> string \<Rightarrow> ('m, 'x) stack_config \<Rightarrow> ('m, 'x) stack_config" where
  "SetMediapipeModelInferenceHandler J model_uri config =
     config\<lparr>model_inference_with_config_map := (model_inference_with_config_map config)(model_uri \<mapsto> (\<lambda>i arg. lift
       (MediapipeLlmInferenceCall (llm_inference_client J) (client_ser J) (plain (KIntrinsic i)) arg)))\<rparr>"

definition SetWolframAlphaIntrinsicHandler ::
  "java_clients \<Rightarrow> ('m, 'x) stack_config \<Rightarrow> ('m, 'x) stack_config" where
  "SetWolframAlphaIntrinsicHandler J config =
     config\<lparr>custom_intrinsics_list := custom_intrinsics_list config @
       [WolframAlphaHandler (wolfram_alpha_client J) (client_ser J)]\<rparr>"

text \<open>The functions both register last.\<close>

definition add_java_functions :: "re_capture \<Rightarrow> ('m, 'x) stack_config \<Rightarrow> ('m, 'x) stack_config" where
  "add_java_functions R config = config\<lparr>custom_function_map :=
     register on_cache cache_functions (ReAct_SetCustomFunctions R (custom_function_map config))\<rparr>"

definition java_stack_config ::
  "java_clients \<Rightarrow> re_capture \<Rightarrow> ('m, 'x, 'f) llama_lib \<Rightarrow> (string \<Rightarrow> i32 option) \<Rightarrow> ('m, 'x) stack_config" where
  "java_stack_config J R L atoi =
     add_java_functions R
       (SetWolframAlphaIntrinsicHandler J
       (SetLlamaCppModelInferenceHandler (llama_inference L atoi) kLlamaCppModelUri
       (SetLlamaCppModelInferenceHandler (llama_inference L atoi) kGemmaModelUri
       (SetOpenAiModelInferenceHandler J kOpenAIModelUri
       (SetGoogleAiModelInferenceHandler J kGeminiModelUri default_config)))))"

definition CreateJavaExecutor ::
  "nat \<Rightarrow> 'c libs \<Rightarrow> java_clients \<Rightarrow> re_capture \<Rightarrow> ('m, 'x, 'f) llama_lib \<Rightarrow> (string \<Rightarrow> i32 option)
     \<Rightarrow> (('m, 'x) stack_process, ('m, 'x) stack_executor) prog" where
  "CreateJavaExecutor n lib J R L atoi p = create_with n lib None (java_stack_config J R L atoi) (init_once p)"

definition android_stack_config ::
  "java_clients \<Rightarrow> re_capture \<Rightarrow> ('m, 'x, 'f) llama_lib \<Rightarrow> (string \<Rightarrow> i32 option)
     \<Rightarrow> ('m, 'x) stack_config \<Rightarrow> ('m, 'x) stack_config" where
  "android_stack_config J R L atoi config =
     add_java_functions R
       (SetWolframAlphaIntrinsicHandler J
       (SetLlamaCppModelInferenceHandler (android_llama_inference L atoi) kGemmaModelUri
       (SetLlamaCppModelInferenceHandler (android_llama_inference L atoi) kLlamaCppModelUri
       (SetMediapipeModelInferenceHandler J kLlmInferenceModelUri
       (SetMediapipeModelInferenceHandler J kMediapipeModelUri
       (SetGoogleAiModelInferenceHandler J kGeminiModelUri
       (SetOpenAiModelInferenceHandler J kOpenAIModelUri config)))))))"

text \<open>
  The HTTP client is made from the object that the application passes; the handler of
  confidential computations uses it only through Oak, so the configuration keeps that it
  is there.
\<close>

definition CreateAndroidExecutor ::
  "nat \<Rightarrow> 'c libs \<Rightarrow> java_clients \<Rightarrow> unit java_http_object \<Rightarrow> re_capture \<Rightarrow> ('m, 'x, 'f) llama_lib
     \<Rightarrow> (string \<Rightarrow> i32 option) \<Rightarrow> (('m, 'x) stack_process, ('m, 'x) stack_executor) prog" where
  "CreateAndroidExecutor n lib J http_object R L atoi p =
     GENC_TRY (lift (CreateCronetBasedAndroidHttpClient http_object)) (\<lambda>http_client.
       create_with n lib None (android_stack_config J R L atoi (default_config\<lparr>http_client_interface := Ok ()\<rparr>)))
       (init_once p)"

section \<open>Memory that outlives an executor\<close>

text \<open>A computation that is run on an executor made for it, in a process that goes on after it.\<close>

definition run_once ::
  "(('m, 'x) stack_process, ('m, 'x) stack_executor) prog \<Rightarrow> pvalue \<Rightarrow> pvalue
     \<Rightarrow> (('m, 'x) stack_process, pvalue) prog" where
  "run_once create computation arg =
     GENC_TRY create (\<lambda>ex p. case RunInternal ex computation arg (initial_local_state p) of
       (r, b) \<Rightarrow> (r, sub_state (sub_state b)))"

text \<open>What the three stacks have in common.\<close>

definition executor_stacks ::
  "nat \<Rightarrow> 'c libs \<Rightarrow> (json \<Rightarrow> string outcome) \<Rightarrow> java_clients \<Rightarrow> unit java_http_object \<Rightarrow> re_capture
     \<Rightarrow> ('m, 'x, 'f) llama_lib \<Rightarrow> (string \<Rightarrow> i32 option)
     \<Rightarrow> (('m, 'x) stack_process, ('m, 'x) stack_executor) prog list" where
  "executor_stacks n lib dump J H R L atoi =
     [CreateDefaultExecutor n lib dump R L atoi, CreateJavaExecutor n lib J R L atoi,
      CreateAndroidExecutor n lib J H R L atoi]"
lemma create_local_default [simp]:
  "CreateLocalExecutor n hs lib (Some thread_based) = CreateLocalExecutor n hs lib None"
  by (simp add: CreateLocalExecutor_def)

lemma executor_stacks_config:
  assumes "create \<in> set (executor_stacks n lib dump J H R L atoi)"
  shows "\<exists>config. (\<forall>p. create p = (Ok (CreateLocalExecutor n (CreateCompleteHandlerSet config) lib None), init_once p)) \<and>
    (\<forall>u f. cache_functions u = Some f \<longrightarrow> custom_function_map config u = Some (on_cache f)) \<and>
    (\<forall>h \<in> set (custom_intrinsics_list config). handler_uri h = kWolframAlpha)"
  using assms
  by (auto simp: executor_stacks_def CreateDefaultExecutor_def CreateDefaultExecutorWithConcurrencyInterface_def
      default_stack_config_def java_stack_config_def android_stack_config_def create_with_def
      CreateJavaExecutor_def CreateAndroidExecutor_def CreateCronetBasedAndroidHttpClient_def
      GENC_TRY_apply lift_apply return_apply add_java_functions_def register_def Let_def default_config_def
      SetLlamaCppModelInferenceHandler_def SetWolframAlphaIntrinsicHandler_def SetMediapipeModelInferenceHandler_def
      SetGoogleAiModelInferenceHandler_def SetOpenAiModelInferenceHandler_def WolframAlphaHandler_def map_add_def)

text \<open>A program that is run once on a new executor does what it means, to the memory too.\<close>

lemma run_once_meaning:
  assumes "create p = (Ok (CreateLocalExecutor n hs lib None), q)" and "runnable hs pr" and "holds_data arg"
    and "depth pr + turns \<le> n" and "handles turns pr + 2 < 2 ^ 64"
    and "meaning turns hs lib pr arg q = (r, q')" and "r \<noteq> Diverge"
  shows "run_once create (plain (KIntrinsic (program_pb pr))) arg p = (r, q')"
proof -
  have q: "sub_state (sub_state (initial_local_state q)) = q"
    by (simp add: initial_local_state_def initial_state_def)
  from program_runs [where b = "initial_local_state q", unfolded q, OF assms(2-4) _ assms(6,7)] show ?thesis
    using assms(1) local_room_initial [OF assms(5), of q] by (auto simp: run_once_def GENC_TRY_apply)
qed

text \<open>The functions of the application under their identifiers, for any configuration.\<close>

lemma complete_built_in:
  assumes "\<forall>h \<in> set (custom_intrinsics_list config). handler_uri h \<noteq> u"
  shows "CreateCompleteHandlerSet config u = fold AddHandler (built_in_handlers config) Map.empty u"
proof -
  have "fold AddHandler hs m u = m u" if "\<forall>h \<in> set hs. handler_uri h \<noteq> u" for hs and m :: "'a IntrinsicHandlerSet"
    using that by (induction hs arbitrary: m) (auto simp: AddHandler_def)
  then show ?thesis using assms by (simp add: CreateCompleteHandlerSet_def)
qed

lemma complete_custom_function:
  assumes "\<forall>h \<in> set (custom_intrinsics_list config). handler_uri h \<noteq> kCustomFunction"
  shows "GetHandler (CreateCompleteHandlerSet config) kCustomFunction = Ok (CustomFunction (custom_function_map config))"
proof -
  have "fold AddHandler (built_in_handlers config) Map.empty kCustomFunction = Some (CustomFunction (custom_function_map config))"
    by (simp add: built_in_handlers_def AddHandler_def) (simp add: uri_defs)
  then show ?thesis by (simp add: GetHandler_def complete_built_in [OF assms])
qed

lemma custom_function_meaning:
  assumes "\<forall>h \<in> set (custom_intrinsics_list config). handler_uri h \<noteq> kCustomFunction"
    and "custom_function_map config u = Some f" and "u \<noteq> []"
  shows "runnable (CreateCompleteHandlerSet config) (Inline (IntrinsicPb kCustomFunction (Some (plain (KStr u)))))"
    and "meaning turns (CreateCompleteHandlerSet config) lib (Inline (IntrinsicPb kCustomFunction (Some (plain (KStr u))))) = f"
  using assms(2,3)
  by (simp_all add: fun_eq_iff complete_custom_function [OF assms(1)] run_intrinsic_def GetInlineInterface_def lift_Ok
      CheckWellFormed_defs static_parameter_def or_default_def CustomFunction_ExecuteCall_def)

text \<open>
  What the process remembers: all messages that were written, of which the cache keeps the
  last two hundred. Without a context there is nothing.
\<close>

definition remembers :: "('m, 'x) stack_process \<Rightarrow> pvalue list \<Rightarrow> bool" where
  "remembers p ms \<longleftrightarrow> (\<exists>c. executor_stacks_context (memory (init_once p)) = Some c \<and>
     max_messages_per_key c = 200 \<and>
     cache c ''default_key'' = (if ms = [] then None else Some (lastn 200 ms)))"

lemma remembers_nothing: "executor_stacks_context (memory p) = None \<Longrightarrow> remembers p []"
  by (simp add: remembers_def init_once_def InitExecutorStacksContext_def LocalCache_def MAX_CACHE_SIZE_PER_KEY_def)

lemma init_once_idem [simp]: "init_once (init_once p) = init_once p"
  by (simp add: init_once_def InitExecutorStacksContext_def)

lemma console_init_once [simp]: "console_lines (init_once p) = console_lines p"
  by (simp add: init_once_def InitExecutorStacksContext_def)

lemma remembers_init_once [simp]: "remembers (init_once p) ms = remembers p ms"
  by (simp add: remembers_def)

lemma remembers_console [simp]: "remembers (write_console l p) ms = remembers p ms"
  by (simp add: remembers_def write_console_def init_once_def InitExecutorStacksContext_def)

lemma write_remembers:
  assumes "remembers p ms" and "init_once p = p"
  shows "\<exists>p'. on_cache (cache_write ''default_key'') v p = (Ok v, p') \<and> remembers p' (ms @ [v]) \<and>
    init_once p' = p' \<and> console_lines p' = console_lines p"
proof -
  obtain c where c: "executor_stacks_context (memory p) = Some c" "max_messages_per_key c = Suc 199"
      "cache c ''default_key'' = (if ms = [] then None else Some (lastn (Suc 199) ms))"
    using assms by (auto simp: remembers_def)
  have "Put ''default_key'' v c = (Ok (), c\<lparr>cache := (cache c)(''default_key'' \<mapsto> lastn (Suc 199) (ms @ [v]))\<rparr>)"
    using c by (cases "ms = []") (simp_all add: Put_messages Put_first)
  then show ?thesis
    using c by (simp add: on_cache_def cache_write_def GENC_TRY_apply return_apply remembers_def init_once_def)
qed

lemma read_remembers:
  assumes "remembers p ms" and "init_once p = p"
  shows "on_cache (cache_read delim ''default_key'') a p =
    (Ok (plain (KStr (concat (map (\<lambda>v. str v @ delim) (lastn 200 ms))))), p)"
proof -
  obtain c where c: "executor_stacks_context (memory p) = Some c"
      "cache c ''default_key'' = (if ms = [] then None else Some (lastn 200 ms))"
    using assms by (auto simp: remembers_def)
  moreover have "p\<lparr>memory := (memory p)\<lparr>executor_stacks_context := Some c\<rparr>\<rparr> = p"
    using c(1) by (cases p; cases "memory p") simp
  ultimately show ?thesis by (simp add: on_cache_def cache_read_def Get_def lastn_def)
qed

lemma cache_function_entries:
  "cache_functions kLocalCacheReadUri = Some (cache_read ''\<newline>'' ''default_key'')"
  "cache_functions kLocalCacheWriteUri = Some (cache_write ''default_key'')"
  by (simp_all add: cache_functions_def SetCustomFunctionsForLocalValueCache_def kLocalCacheReadUri_def
      kLocalCacheWriteUri_def kLocalCacheRemoveUri_def)

lemma cache_function_once:
  assumes create: "create \<in> set (executor_stacks n lib dump J H R L atoi)" and "1 \<le> n"
    and fn: "cache_functions u = Some f" and "u \<noteq> []" and "CreateCustomFunction u = Ok computation"
    and "holds_data v" and run: "on_cache f v (init_once p) = (r, p')" and "r \<noteq> Diverge"
  shows "run_once create computation v p = (r, p')"
proof -
  obtain config where c: "\<And>p. create p = (Ok (CreateLocalExecutor n (CreateCompleteHandlerSet config) lib None), init_once p)"
    and f: "custom_function_map config u = Some (on_cache f)"
    and other: "\<forall>h \<in> set (custom_intrinsics_list config). handler_uri h \<noteq> kCustomFunction"
    using executor_stacks_config [OF create] fn by (fastforce simp: uri_defs)
  note fm = custom_function_meaning [OF other f assms(4)]
  have computation: "computation = plain (KIntrinsic (program_pb (Inline (IntrinsicPb kCustomFunction (Some (plain (KStr u)))))))"
    using assms(5) by (simp add: CreateCustomFunction_def intrinsic_with_str_def)
  show ?thesis
    unfolding computation
    by (rule run_once_meaning [where turns = 0 and lib = lib])
       (use c fm(1) assms(2,6,8) run in \<open>auto simp: fm(2) simp del: meaning.simps\<close>)
qed

lemma write_once:
  assumes create: "create \<in> set (executor_stacks n lib dump J H R L atoi)" and "1 \<le> n"
    and "remembers p ms" and "holds_data v" and "CreateCustomFunction kLocalCacheWriteUri = Ok wr"
  shows "\<exists>p'. run_once create wr v p = (Ok v, p') \<and> remembers p' (ms @ [v])"
proof -
  obtain p' where p': "on_cache (cache_write ''default_key'') v (init_once p) = (Ok v, p')" "remembers p' (ms @ [v])"
    using write_remembers [of "init_once p" ms v] assms(3) by auto
  then show ?thesis
    using cache_function_once [OF create assms(2) cache_function_entries(2) _ assms(5,4) p'(1)]
    by (auto simp: kLocalCacheWriteUri_def)
qed

lemma read_once:
  assumes create: "create \<in> set (executor_stacks n lib dump J H R L atoi)" and "1 \<le> n"
    and "remembers p ms" and "holds_data a" and "CreateCustomFunction kLocalCacheReadUri = Ok rd"
  shows "run_once create rd a p = (Ok (plain (KStr (concat (map (\<lambda>v. str v @ ''\<newline>'') (lastn 200 ms))))), init_once p)"
proof (rule cache_function_once [OF create assms(2) cache_function_entries(1) _ assms(5,4)])
  show "on_cache (cache_read ''\<newline>'' ''default_key'') a (init_once p) =
      (Ok (plain (KStr (concat (map (\<lambda>v. str v @ ''\<newline>'') (lastn 200 ms))))), init_once p)"
    using assms(3) by (simp add: read_remembers)
qed (simp_all add: kLocalCacheReadUri_def)

lemma write_all_once:
  assumes create: "create \<in> set (executor_stacks n lib dump J H R L atoi)" and "1 \<le> n"
    and "remembers p ms" and "list_all holds_data vs" and "CreateCustomFunction kLocalCacheWriteUri = Ok write"
  shows "\<exists>p'. map_try (run_once create write) vs p = (Ok vs, p') \<and> remembers p' (ms @ vs)"
  using assms(3,4)
proof (induction vs arbitrary: p ms)
  case (Cons v vs)
  obtain p1 where p1: "run_once create write v p = (Ok v, p1)" "remembers p1 (ms @ [v])"
    using write_once [OF create assms(2) Cons.prems(1) _ assms(5), of v] Cons.prems(2) by auto
  obtain p2 where "map_try (run_once create write) vs p1 = (Ok vs, p2)" "remembers p2 (ms @ v # vs)"
    using Cons.IH [OF p1(2)] Cons.prems(2) by auto
  then show ?case using p1(1) by (simp add: GENC_TRY_apply return_apply)
qed (simp add: return_apply)

text \<open>
  C31: the memory of the process outlives its executors. With any of the three stacks,
  running the write function on values, each time on an executor that is created for the
  run and gone after it, and then running the read function on another one gives the
  texts of the last two hundred values, each followed by a line break.
\<close>

theorem cache_outlives_executor:
  assumes "create \<in> set (executor_stacks n lib dump J H R L atoi)" and "1 \<le> n"
    and "executor_stacks_context (memory p) = None" and "list_all holds_data vs" and "holds_data a"
  shows "\<exists>write read p'. CreateCustomFunction kLocalCacheWriteUri = Ok write
    \<and> CreateCustomFunction kLocalCacheReadUri = Ok read
    \<and> map_try (run_once create write) vs p = (Ok vs, p')
    \<and> fst (run_once create read a p') = Ok (plain (KStr (concat (map (\<lambda>v. str v @ ''\<newline>'') (lastn 200 vs)))))"
proof -
  obtain wr rd where fns: "CreateCustomFunction kLocalCacheWriteUri = Ok wr"
      "CreateCustomFunction kLocalCacheReadUri = Ok rd"
    by (simp add: CreateCustomFunction_def)
  obtain p' where w: "map_try (run_once create wr) vs p = (Ok vs, p')" "remembers p' vs"
    using write_all_once [OF assms(1,2) remembers_nothing [OF assms(3)] assms(4) fns(1)] by auto
  then show ?thesis using read_once [OF assms(1,2) w(2) assms(5) fns(2)] fns by auto
qed

definition empty_memory :: "('m, 'x) stack_process" where
  "empty_memory = \<lparr>console_lines = [], memory = \<lparr>executor_stacks_context = None, llama_cpp_client = None\<rparr>\<rparr>"

lemma cache_outlives_executor_witness:
  "\<forall>J H R. \<exists>write read p'. CreateCustomFunction kLocalCacheWriteUri = Ok write
    \<and> CreateCustomFunction kLocalCacheReadUri = Ok read
    \<and> map_try (run_once (CreateAndroidExecutor 1 sample_libs J H R toy_llama (\<lambda>_. None)) write)
        [plain (KStr ''a''), plain (KStr ''b'')] empty_memory = (Ok [plain (KStr ''a''), plain (KStr ''b'')], p')
    \<and> fst (run_once (CreateAndroidExecutor 1 sample_libs J H R toy_llama (\<lambda>_. None)) read (plain (KBoolean True)) p')
        = Ok (plain (KStr ''a\<newline>b\<newline>''))"
proof (intro allI)
  fix J H R
  have "CreateAndroidExecutor 1 sample_libs J H R toy_llama (\<lambda>_. None) \<in>
      set (executor_stacks 1 sample_libs (\<lambda>_. Ok []) J H R toy_llama (\<lambda>_. None))"
    by (simp add: executor_stacks_def)
  from cache_outlives_executor [OF this le_refl, of empty_memory "[plain (KStr ''a''), plain (KStr ''b'')]"
      "plain (KBoolean True)"]
  show "\<exists>write read p'. CreateCustomFunction kLocalCacheWriteUri = Ok write
    \<and> CreateCustomFunction kLocalCacheReadUri = Ok read
    \<and> map_try (run_once (CreateAndroidExecutor 1 sample_libs J H R toy_llama (\<lambda>_. None)) write)
        [plain (KStr ''a''), plain (KStr ''b'')] empty_memory = (Ok [plain (KStr ''a''), plain (KStr ''b'')], p')
    \<and> fst (run_once (CreateAndroidExecutor 1 sample_libs J H R toy_llama (\<lambda>_. None)) read (plain (KBoolean True)) p')
        = Ok (plain (KStr ''a\<newline>b\<newline>''))"
    by (simp add: empty_memory_def holds_data_def HasComputation_def lastn_def)
qed

section \<open>A model that cannot be loaded\<close>

lemma call_uninitialized:
  "\<not> is_initialized c \<Longrightarrow> LlamaCppCall L arg c = (InternalError [Txt ''LlamaCpp wasn't initialized.''], c)"
  by (auto simp: LlamaCppCall_def is_initialized_def split: option.splits)

lemma init_fails:
  assumes "InitModel_config L atoi config fresh_client = (Err e, c)"
  shows "c = fresh_client"
  using assms by (auto simp: InitModel_config_def InitModel_def fresh_client_def split: prod.splits option.splits)

text \<open>
  C36: when the first call of the local model cannot load it, the default and the Java
  stack start afresh with the next call, whatever its configuration; the Android stack
  answers every later call with an error, whatever its configuration.
\<close>

theorem failed_llama_init:
  assumes "llama_cpp_client (memory s) = None" and "element (params intrinsic_pb) 1 = Ok config"
    and "InitModel_config L atoi config fresh_client = (Err e, c)"
  shows "\<exists>s'. llama_inference L atoi intrinsic_pb arg s = (Err e, s')
    \<and> android_llama_inference L atoi intrinsic_pb arg s = (Err e, s')
    \<and> llama_inference L atoi i' arg' s' = llama_inference L atoi i' arg' s
    \<and> android_llama_inference L atoi i' arg' s' = (InternalError [Txt ''LlamaCpp wasn't initialized.''], s')"
proof -
  have c: "c = fresh_client" using init_fails [OF assms(3)] .
  let ?s' = "s\<lparr>memory := (memory s)\<lparr>llama_cpp_client := Some fresh_client\<rparr>\<rparr>"
  have fresh: "\<not> is_initialized (fresh_client :: ('a, 'b) llama_client)"
    by (simp add: is_initialized_def fresh_client_def)
  have "llama_inference L atoi intrinsic_pb arg s = (Err e, ?s')"
    "android_llama_inference L atoi intrinsic_pb arg s = (Err e, ?s')"
    using assms fresh
    by (simp_all add: llama_inference_def android_llama_inference_def on_llama_def GENC_TRY_apply lift_def c Let_def)
  moreover have "llama_inference L atoi i' arg' ?s' = llama_inference L atoi i' arg' s"
    using assms(1) by (simp add: llama_inference_def Let_def on_llama_def split: prod.splits)
  moreover have "android_llama_inference L atoi i' arg' ?s' =
      (InternalError [Txt ''LlamaCpp wasn't initialized.''], ?s')"
    by (simp add: android_llama_inference_def on_llama_def call_uninitialized [OF fresh])
  ultimately show ?thesis by blast
qed

lemma failed_llama_init_witness:
  "\<exists>s'. android_llama_inference toy_llama (\<lambda>_. None)
      (IntrinsicPb kModelInferenceWithConfig (Some (plain (KStruct [empty_value, empty_value])))) empty_value
      empty_memory = (InvalidArgumentError [Txt ''LlamaCpp unable to load a model from file \"'', Txt '''',
          Txt ''\" with the default params.''], s')
    \<and> android_llama_inference toy_llama (\<lambda>_. None) (IntrinsicPb [] None) empty_value s' =
        (InternalError [Txt ''LlamaCpp wasn't initialized.''], s')"
proof -
  let ?s = "empty_memory :: (unit, nat) stack_process"
  let ?i = "IntrinsicPb kModelInferenceWithConfig (Some (plain (KStruct [empty_value, empty_value])))"
  have 1: "llama_cpp_client (memory ?s) = None" by (simp add: empty_memory_def)
  have 2: "element (params ?i) 1 = Ok empty_value"
    by (simp add: element_def static_parameter_def or_default_def)
  have 3: "InitModel_config toy_llama (\<lambda>_. None) empty_value fresh_client =
      (InvalidArgumentError [Txt ''LlamaCpp unable to load a model from file \"'', Txt '''',
          Txt ''\" with the default params.''], fresh_client)"
    by (simp add: InitModel_config_def InitModel_def toy_llama_def fresh_client_def)
  show ?thesis using failed_llama_init [OF 1 2 3] by blast
qed

text \<open>
  The identifiers of the two local models share one client: once it is initialized, the
  configuration of a call is not read, whichever model the call names.
\<close>

lemma local_models_share_client:
  assumes "llama_cpp_client (memory s) = Some c" and "is_initialized c"
    and "config = default_stack_config lib dump R L atoi"
  shows "\<exists>f. model_inference_with_config_map config kGemmaModelUri = Some f \<and>
    model_inference_with_config_map config kLlamaCppModelUri = Some f \<and> f i arg s = f i' arg s"
  using assms
  by (auto simp: default_stack_config_def Let_def
      SetLlamaCppModelInferenceHandler_def kGemmaModelUri_def kLlamaCppModelUri_def llama_inference_def)

section \<open>The worker\<close>

datatype ChannelType = INSECURE | SSL | other_channel_type int

record RunServerOptions =
  server_address :: string
  channel_type :: ChannelType
  ssl_cert_path :: string
  ssl_key_path :: string
  use_oak :: bool
  run_debug :: bool

datatype server_credentials =
    InsecureServerCredentials
  | SslServerCredentials (private_key: string) (cert_chain: string) (root_certs: string)

definition GetCreds :: "(string \<Rightarrow> string) \<Rightarrow> RunServerOptions \<Rightarrow> server_credentials outcome" where
  "GetCreds ReadFile opt = (case channel_type opt of
      SSL \<Rightarrow> Ok (SslServerCredentials (ReadFile (ssl_key_path opt)) (ReadFile (ssl_cert_path opt))
        (ReadFile (ssl_cert_path opt)))
    | INSECURE \<Rightarrow> Ok InsecureServerCredentials
    | other_channel_type n \<Rightarrow> InvalidArgumentError [Txt ''Unsupported channel type''])"

text \<open>
  What a server offers. The attestation provider, the start of the server (which gives no
  server when the port is taken) and the wait for its end are parameters.
\<close>

datatype ('kp, 's) registered_service =
    ExecutorService "'s stub"
  | UnarySessionService "('kp, 's) oak_service"

record ('kp, 's) grpc_server =
  listening_port :: string
  port_credentials :: server_credentials
  registered :: "('kp, 's) registered_service"

definition RunServer ::
  "('kp, 'q, 'x, 'e, 's) oak_lib \<Rightarrow> atoi_lib \<Rightarrow> (string \<Rightarrow> string)
     \<Rightarrow> (bool \<Rightarrow> ('s, string \<Rightarrow> ('s, evidence) prog) prog)
     \<Rightarrow> (('kp, 's) grpc_server \<Rightarrow> bool) \<Rightarrow> (('kp, 's) grpc_server \<Rightarrow> ('s, unit) prog)
     \<Rightarrow> (ValueId, 's) executor \<Rightarrow> RunServerOptions \<Rightarrow> ('s, unit) prog" where
  "RunServer K A ReadFile new_provider starts wait executor opts =
     GENC_TRY (lift (GetCreds ReadFile opts)) (\<lambda>creds.
     let executor_service = CreateExecutorService A executor in
     GENC_TRY
       (if use_oak opts then
          GENC_TRY (debug_line K (run_debug opts) [''Exposing Oak's UnarySession service.\<newline>'']) (\<lambda>_.
          GENC_TRY (new_provider (run_debug opts)) (\<lambda>provider.
          GENC_TRY (CreateService K executor_service provider (run_debug opts)) (\<lambda>oak_service.
            return (UnarySessionService oak_service))))
        else
          GENC_TRY (debug_line K (run_debug opts) [''Exposing the regular Executor service.\<newline>'']) (\<lambda>_.
            return (ExecutorService executor_service))) (\<lambda>service.
     let server = \<lparr>listening_port = server_address opts, port_credentials = creds, registered = service\<rparr> in
     GENC_TRY (debug_line K (run_debug opts) [''Server listening on: '', server_address opts, ''\<newline>'']) (\<lambda>_.
     if \<not> starts server then lift (Crash NullDereference)
     else GENC_TRY (wait server) (\<lambda>_.
       GENC_TRY (debug_line K (run_debug opts) [''Server exiting.\<newline>'']) (\<lambda>_. return ())))))"

text \<open>
  A worker that is asked for Oak never serves the plain executor: what it waits for
  offers the Oak service over the executor with the provider that was created, and the
  debug flag of the options is passed to both.
\<close>

lemma worker_offers_oak_only:
  assumes "use_oak opts"
    and "RunServer K A ReadFile new_provider starts wait executor opts s = (Ok u, s')"
  shows "\<exists>creds sv s1 s2. GetCreds ReadFile opts = Ok creds \<and>
    executor_service sv = CreateExecutorService A executor \<and> service_debug sv = run_debug opts \<and>
    wait \<lparr>listening_port = server_address opts, port_credentials = creds,
      registered = UnarySessionService sv\<rparr> s1 = (Ok (), s2)"
  using assms
  by (auto simp: RunServer_def GENC_TRY_apply lift_def return_apply debug_line_def CreateService_def
      OakService_Create_def Let_def split: outcome.splits prod.splits if_splits intro!: exI)

end
