(* ===== verification/Java_Runtime.thy ===== *)
theory Java_Runtime
  imports Java_Authoring Backends
begin

text \<open>
  The native side of the Java virtual machine: the environment of a thread
  (\<^verbatim>\<open>src/genc/java/src/jni/jni_utils.cc\<close>), the calls of the Java clients of the model backends
  (\<^verbatim>\<open>interop/backends/java/*_client_jni.cc\<close>), and the global references to the clients that
  the bindings of the example executors keep
  (\<^verbatim>\<open>java/src/native/org/genc/examples/executors/default_executor.cc\<close> and
  \<^verbatim>\<open>gencdemo/lib/jni.cc\<close>).
\<close>

section \<open>The environment of a thread\<close>

text \<open>
  The state is whether the current thread is attached to the virtual machine. A thread
  has an environment exactly while it is attached; attaching may fail.
\<close>

record java_vm =
  attach_ok :: bool
  vm_env :: jni

definition GetThreadLocalJniEnv :: "java_vm option \<Rightarrow> bool \<Rightarrow> bool" where
  "GetThreadLocalJniEnv jvm attached = (if jvm = None then False else attached)"

text \<open>Without a virtual machine, \<open>AttachCurrentThread\<close> is called on a null pointer.\<close>

definition GetJniEnv :: "java_vm option \<Rightarrow> (bool, bool) prog" where
  "GetJniEnv jvm attached =
     (if GetThreadLocalJniEnv jvm attached then (Ok True, attached)
      else case jvm of
        None \<Rightarrow> (Crash NullDereference, attached)
      | Some vm \<Rightarrow> if attach_ok vm then (Ok True, True) else (Ok False, attached))"

section \<open>The Java clients\<close>

text \<open>
  A client object: its class and its method \<open>call\<close> as far as they are found, and what the
  method returns, a Java string or null.
\<close>

record java_object =
  has_class :: bool
  has_call_method :: bool
  java_call_method :: "string \<Rightarrow> string \<Rightarrow> jstring"

text \<open>
  A class that is not found raises a Java exception, but the native code goes on and
  looks up the method in the null class. The thread is detached at the end.
\<close>

definition call_client ::
  "java_vm option \<Rightarrow> java_object option \<Rightarrow> string \<Rightarrow> string \<Rightarrow> (bool, string) prog" where
  "call_client jvm client_object model_config request =
     (case jvm of
        None \<Rightarrow> lift (Crash CheckFailed)
      | Some vm \<Rightarrow> GENC_TRY (GetJniEnv jvm) (\<lambda>env.
          if \<not> env then return []
          else case client_object of
            None \<Rightarrow> lift (Crash NullDereference)
          | Some obj \<Rightarrow>
              if \<not> has_class obj \<or> \<not> has_call_method obj then lift (Crash NullDereference)
              else (\<lambda>attached.
                (Ok (GetString (vm_env vm) (java_call_method obj model_config request)), False))))"

definition CallGoogleAiClient ::
  "java_vm option \<Rightarrow> java_object option \<Rightarrow> string \<Rightarrow> string \<Rightarrow> (bool, string) prog" where
  "CallGoogleAiClient jvm google_ai_client = call_client jvm google_ai_client"

definition CallOpenAiClient ::
  "java_vm option \<Rightarrow> java_object option \<Rightarrow> string \<Rightarrow> string \<Rightarrow> (bool, string) prog" where
  "CallOpenAiClient jvm open_ai_client = call_client jvm open_ai_client"

definition CallWolframAlphaClient ::
  "java_vm option \<Rightarrow> java_object option \<Rightarrow> string \<Rightarrow> string \<Rightarrow> (bool, string) prog" where
  "CallWolframAlphaClient jvm wolfram_alpha_client = call_client jvm wolfram_alpha_client"

definition CallLlmInferenceClient ::
  "java_vm option \<Rightarrow> java_object option \<Rightarrow> string \<Rightarrow> string \<Rightarrow> (bool, string) prog" where
  "CallLlmInferenceClient jvm llm_inference_client = call_client jvm llm_inference_client"

text \<open>
  The text the backends are given: a call that cannot attach its thread, or whose method
  returns null, gives the empty text, which the backends report as an internal error.
\<close>

lemma call_client_text:
  assumes "jvm = Some vm" and "client_object = Some obj" and "has_class obj" and "has_call_method obj"
  shows "call_client jvm client_object config request attached =
    (if attached \<or> attach_ok vm then (Ok (GetString (vm_env vm) (java_call_method obj config request)), False)
     else (Ok [], False))"
  using assms by (simp add: call_client_def GetJniEnv_def GetThreadLocalJniEnv_def GENC_TRY_apply return_apply)

text \<open>
  Whatever the thread was before, it is detached after the call: a thread that was
  attached already, such as the one that runs Java code, loses its environment.
\<close>

lemma client_call_detaches:
  "call_client jvm client_object config request attached = (Ok response, attached') \<Longrightarrow> \<not> attached'"
  by (auto simp: call_client_def GetJniEnv_def GetThreadLocalJniEnv_def GENC_TRY_apply return_apply lift_apply
      split: option.splits if_splits)

section \<open>Global references to the clients\<close>

text \<open>
  The static references of the two bindings, one per client. References are kept by
  address with whether they are live; the virtual machine may be out of memory for one.
\<close>

datatype client_slot = OpenAiSlot | GoogleAiSlot | LlmInferenceSlot | WolframAlphaSlot | HttpClientSlot

record global_refs =
  slot_ref :: "client_slot \<Rightarrow> nat option"
  live_ref :: "bool list"

definition NewGlobalRef :: "(nat \<Rightarrow> bool) \<Rightarrow> (global_refs, nat option) prog" where
  "NewGlobalRef memory_ok g =
     (if memory_ok (length (live_ref g)) then (Ok (Some (length (live_ref g))), g\<lparr>live_ref := live_ref g @ [True]\<rparr>)
      else (Ok None, g))"

text \<open>Deleting a reference that is not live is undefined.\<close>

definition DeleteGlobalRef :: "nat \<Rightarrow> (global_refs, unit) prog" where
  "DeleteGlobalRef r g =
     (if r < length (live_ref g) \<and> live_ref g ! r then (Ok (), g\<lparr>live_ref := (live_ref g)[r := False]\<rparr>)
      else (Crash NullDereference, g))"

text \<open>One block of the functions that create the references: a null client keeps the slot.\<close>

definition make_ref :: "(nat \<Rightarrow> bool) \<Rightarrow> client_slot \<times> bool \<Rightarrow> (global_refs, bool) prog" where
  "make_ref memory_ok = (\<lambda>(slot, given).
     if \<not> given then return True
     else GENC_TRY (NewGlobalRef memory_ok) (\<lambda>r g.
       (Ok (r \<noteq> None), g\<lparr>slot_ref := (slot_ref g)(slot := r)\<rparr>)))"

fun make_refs :: "(nat \<Rightarrow> bool) \<Rightarrow> (client_slot \<times> bool) list \<Rightarrow> (global_refs, bool) prog" where
  "make_refs memory_ok [] = return True"
| "make_refs memory_ok (c # cs) =
     GENC_TRY (make_ref memory_ok c) (\<lambda>ok. if ok then make_refs memory_ok cs else return False)"

text \<open>
  The result is what the executor stack is created with, the references of the slots, or
  null; whether a client is given is an argument.
\<close>

definition GC_create_default_executor ::
  "(nat \<Rightarrow> bool) \<Rightarrow> bool \<Rightarrow> bool \<Rightarrow> bool \<Rightarrow> (global_refs, nat option list option) prog" where
  "GC_create_default_executor memory_ok open_ai google_ai wolfram_alpha =
     GENC_TRY (make_refs memory_ok [(OpenAiSlot, open_ai), (GoogleAiSlot, google_ai), (WolframAlphaSlot, wolfram_alpha)])
       (\<lambda>ok g. (Ok (if ok then Some (map (slot_ref g) [OpenAiSlot, GoogleAiSlot, WolframAlphaSlot]) else None), g))"

definition GC_create_android_executor ::
  "(nat \<Rightarrow> bool) \<Rightarrow> bool \<Rightarrow> bool \<Rightarrow> bool \<Rightarrow> bool \<Rightarrow> bool \<Rightarrow> (global_refs, nat option list option) prog" where
  "GC_create_android_executor memory_ok open_ai google_ai llm_inference wolfram_alpha http =
     GENC_TRY (make_refs memory_ok [(OpenAiSlot, open_ai), (GoogleAiSlot, google_ai),
         (LlmInferenceSlot, llm_inference), (WolframAlphaSlot, wolfram_alpha), (HttpClientSlot, http)])
       (\<lambda>ok g. (Ok (if ok then Some (map (slot_ref g)
           [OpenAiSlot, GoogleAiSlot, LlmInferenceSlot, WolframAlphaSlot, HttpClientSlot]) else None), g))"

fun delete_refs :: "client_slot list \<Rightarrow> (global_refs, unit) prog" where
  "delete_refs [] = return ()"
| "delete_refs (slot # slots) = (\<lambda>g.
     GENC_TRY (case slot_ref g slot of None \<Rightarrow> return () | Some r \<Rightarrow> DeleteGlobalRef r)
       (\<lambda>_. delete_refs slots) g)"

definition cleanupExecutorState :: "(global_refs, unit) prog" where
  "cleanupExecutorState = delete_refs [OpenAiSlot, GoogleAiSlot, WolframAlphaSlot]"

definition cleanupAndroidExecutorState :: "(global_refs, unit) prog" where
  "cleanupAndroidExecutorState =
     delete_refs [OpenAiSlot, GoogleAiSlot, LlmInferenceSlot, WolframAlphaSlot, HttpClientSlot]"

definition no_refs :: global_refs where
  "no_refs = \<lparr>slot_ref = (\<lambda>_. None), live_ref = []\<rparr>"

section \<open>The life of the references\<close>

text \<open>
  With distinct slots, making references appends one live reference for each client that
  is given, and its slot holds it, until the memory runs out.
\<close>

definition owns_refs :: "client_slot list \<Rightarrow> global_refs \<Rightarrow> bool" where
  "owns_refs slots g \<longleftrightarrow>
     (\<forall>s \<in> set slots. \<forall>r. slot_ref g s = Some r \<longrightarrow> r < length (live_ref g) \<and> live_ref g ! r)
     \<and> (\<forall>s \<in> set slots. \<forall>t \<in> set slots. \<forall>r. slot_ref g s = Some r \<and> slot_ref g t = Some r \<longrightarrow> s = t)
     \<and> (\<forall>r < length (live_ref g). live_ref g ! r \<longrightarrow> (\<exists>s \<in> set slots. slot_ref g s = Some r))"

lemma delete_refs_owned:
  assumes "owns_refs slots g" and "distinct slots"
  shows "\<exists>g'. delete_refs slots g = (Ok (), g') \<and> slot_ref g' = slot_ref g \<and>
    length (live_ref g') = length (live_ref g) \<and> (\<forall>r < length (live_ref g'). \<not> live_ref g' ! r)"
  using assms
proof (induction slots arbitrary: g)
  case Nil
  then show ?case by (auto simp: owns_refs_def return_apply)
next
  case (Cons s slots)
  show ?case
  proof (cases "slot_ref g s")
    case None
    then have "owns_refs slots g" using Cons.prems(1) by (fastforce simp: owns_refs_def)
    then show ?thesis using Cons.IH [of g] Cons.prems(2) None by (simp add: GENC_TRY_apply return_apply)
  next
    case (Some r)
    let ?g = "g\<lparr>live_ref := (live_ref g)[r := False]\<rparr>"
    have r: "r < length (live_ref g)" "live_ref g ! r"
      using Cons.prems(1) Some by (auto simp: owns_refs_def)
    have other: "slot_ref g t \<noteq> Some r" if "t \<in> set slots" for t
      using Cons.prems Some that by (auto simp: owns_refs_def)
    have "owns_refs slots ?g"
      using Cons.prems(1) Some other unfolding owns_refs_def by (auto simp: nth_list_update)
    then obtain g' where "delete_refs slots ?g = (Ok (), g')" "slot_ref g' = slot_ref g"
        "length (live_ref g') = length (live_ref g)" "\<forall>r < length (live_ref g'). \<not> live_ref g' ! r"
      using Cons.IH [of ?g] Cons.prems(2) by auto
    then show ?thesis using Some r by (simp add: GENC_TRY_apply DeleteGlobalRef_def)
  qed
qed

lemma make_refs_owned:
  assumes "owns_refs slots g" and "set (map fst cs) \<subseteq> set slots" and "distinct (map fst cs)"
    and "\<forall>s \<in> set (map fst cs). slot_ref g s = None"
  shows "\<exists>ok g'. make_refs memory_ok cs g = (Ok ok, g') \<and> owns_refs slots g'"
  using assms
proof (induction cs arbitrary: g)
  case Nil
  then show ?case by (auto simp: return_apply intro: exI [of _ True])
next
  case (Cons c cs)
  obtain s given where c: "c = (s, given)" by (cases c)
  have s: "slot_ref g s = None" "s \<in> set slots" "s \<notin> set (map fst cs)" using Cons.prems c by auto
  show ?case
  proof (cases "given \<and> memory_ok (length (live_ref g))")
    case True
    let ?r = "length (live_ref g)"
    let ?g = "g\<lparr>live_ref := live_ref g @ [True], slot_ref := (slot_ref g)(s \<mapsto> ?r)\<rparr>"
    have fresh: "slot_ref g t \<noteq> Some ?r" if "t \<in> set slots" for t
      using Cons.prems(1) that by (auto simp: owns_refs_def)
    have "owns_refs slots ?g"
      using Cons.prems(1) s fresh unfolding owns_refs_def
      by (auto simp: nth_append less_Suc_eq) (metis option.distinct(1))+
    moreover have "\<forall>t \<in> set (map fst cs). slot_ref ?g t = None" using Cons.prems(4) s(3) by auto
    ultimately show ?thesis
      using Cons.IH [of ?g] Cons.prems(2,3) True by (simp add: c make_ref_def NewGlobalRef_def GENC_TRY_apply)
  next
    case False
    have "g\<lparr>slot_ref := (slot_ref g)(s := None)\<rparr> = g" using s(1) by (simp add: fun_upd_idem)
    then show ?thesis
      using Cons.IH [of g] Cons.prems False
      by (auto simp: c make_ref_def NewGlobalRef_def GENC_TRY_apply return_apply)
  qed
qed

lemma owns_no_refs: "owns_refs slots no_refs"
  by (simp add: owns_refs_def no_refs_def)

text \<open>
  One creation and one cleanup release every reference, whatever clients are given and
  also when the memory ran out in between.
\<close>

lemma default_executor_refs_released:
  assumes "GC_create_default_executor memory_ok open_ai google_ai wolfram_alpha no_refs = (Ok refs, g)"
  shows "\<exists>g'. cleanupExecutorState g = (Ok (), g') \<and> slot_ref g' = slot_ref g \<and>
    (\<forall>r < length (live_ref g'). \<not> live_ref g' ! r)"
proof -
  let ?cs = "[(OpenAiSlot, open_ai), (GoogleAiSlot, google_ai), (WolframAlphaSlot, wolfram_alpha)]"
  have "\<exists>ok g'. make_refs memory_ok ?cs no_refs = (Ok ok, g') \<and> owns_refs (map fst ?cs) g'"
    by (rule make_refs_owned [OF owns_no_refs]) (simp_all add: no_refs_def)
  then have "owns_refs (map fst ?cs) g"
    using assms by (auto simp: GC_create_default_executor_def GENC_TRY_apply)
  from delete_refs_owned [OF this] show ?thesis by (simp add: cleanupExecutorState_def) blast
qed

lemma android_executor_refs_released:
  assumes "GC_create_android_executor memory_ok open_ai google_ai llm_inference wolfram_alpha http no_refs = (Ok refs, g)"
  shows "\<exists>g'. cleanupAndroidExecutorState g = (Ok (), g') \<and> slot_ref g' = slot_ref g \<and>
    (\<forall>r < length (live_ref g'). \<not> live_ref g' ! r)"
proof -
  let ?cs = "[(OpenAiSlot, open_ai), (GoogleAiSlot, google_ai), (LlmInferenceSlot, llm_inference),
    (WolframAlphaSlot, wolfram_alpha), (HttpClientSlot, http)]"
  have "\<exists>ok g'. make_refs memory_ok ?cs no_refs = (Ok ok, g') \<and> owns_refs (map fst ?cs) g'"
    by (rule make_refs_owned [OF owns_no_refs]) (simp_all add: no_refs_def)
  then have "owns_refs (map fst ?cs) g"
    using assms by (auto simp: GC_create_android_executor_def GENC_TRY_apply)
  from delete_refs_owned [OF this] show ?thesis by (simp add: cleanupAndroidExecutorState_def) blast
qed

text \<open>
  The slots are not reset: after a cleanup a second one deletes references that are gone,
  and an executor that is created without a client is handed the deleted reference.
\<close>

lemma delete_dead_refs:
  assumes "\<forall>r < length (live_ref g). \<not> live_ref g ! r" and "s \<in> set slots" and "slot_ref g s = Some r"
  shows "fst (delete_refs slots g) = Crash NullDereference"
  using assms(2)
proof (induction slots)
  case (Cons t slots)
  then show ?case
    using assms(1,3)
    by (cases "slot_ref g t") (auto simp: GENC_TRY_apply return_apply DeleteGlobalRef_def)
qed simp

lemma second_cleanup_crashes:
  assumes "GC_create_default_executor memory_ok open_ai google_ai wolfram_alpha no_refs = (Ok refs, g)"
    and "s \<in> {OpenAiSlot, GoogleAiSlot, WolframAlphaSlot}" and "slot_ref g s = Some r"
  shows "fst (GENC_TRY cleanupExecutorState (\<lambda>_. cleanupExecutorState) g) = Crash NullDereference"
proof -
  obtain g' where g': "cleanupExecutorState g = (Ok (), g')" "slot_ref g' = slot_ref g"
    "\<forall>r < length (live_ref g'). \<not> live_ref g' ! r"
    using default_executor_refs_released [OF assms(1)] by blast
  have "fst (cleanupExecutorState g') = Crash NullDereference"
    unfolding cleanupExecutorState_def
    by (rule delete_dead_refs [OF g'(3), of s]) (use assms(2,3) g'(2) in auto)
  then show ?thesis by (simp add: GENC_TRY_apply g'(1))
qed

lemma recreated_executor_gets_dead_refs:
  "\<exists>g. GENC_TRY (GC_create_default_executor (\<lambda>_. True) True False False) (\<lambda>_.
     GENC_TRY cleanupExecutorState (\<lambda>_. GC_create_default_executor (\<lambda>_. True) False False False)) no_refs =
     (Ok (Some [Some 0, None, None]), g) \<and> live_ref g = [False]"
  by (simp add: GC_create_default_executor_def make_ref_def NewGlobalRef_def no_refs_def GENC_TRY_apply
      return_apply cleanupExecutorState_def DeleteGlobalRef_def)

end
