(* ===== verification/Java_Stacks.thy ===== *)
theory Java_Stacks
  imports Java_Runtime Stacks
begin

text \<open>
  The example stacks as a Java application gets them: the native methods that create an
  executor (\<^verbatim>\<open>java/src/native/org/genc/examples/executors/default_executor.cc\<close> and
  \<^verbatim>\<open>gencdemo/lib/jni.cc\<close>) keep global references to the clients and hand them to the stacks of
  \<^verbatim>\<open>examples/executors\<close>, whose model backends call the clients on threads of their own.
\<close>

section \<open>Clients by reference\<close>

text \<open>
  The virtual machine with the objects behind the references, what memory it has for
  references, and the formats of the backends. Each job has a new thread, which is not
  attached to the machine when it calls a client.
\<close>

record java_machine =
  machine :: java_vm
  object_at :: "nat \<Rightarrow> java_object"
  memory_ok :: "nat \<Rightarrow> bool"
  machine_ser :: "pvalue \<Rightarrow> string"
  machine_parse :: "string \<Rightarrow> json option"
  machine_dump :: "json \<Rightarrow> string"

definition client_at ::
  "(java_vm option \<Rightarrow> java_object option \<Rightarrow> string \<Rightarrow> string \<Rightarrow> (bool, string) prog)
     \<Rightarrow> java_machine \<Rightarrow> nat option \<Rightarrow> jni_client" where
  "client_at call M ref = (\<lambda>config request.
     fst (call (Some (machine M)) (map_option (object_at M) ref) config request False))"

definition clients_at :: "java_machine \<Rightarrow> global_refs \<Rightarrow> java_clients" where
  "clients_at M g = \<lparr>open_ai_client = client_at CallOpenAiClient M (slot_ref g OpenAiSlot),
     google_ai_client = client_at CallGoogleAiClient M (slot_ref g GoogleAiSlot),
     llm_inference_client = client_at CallLlmInferenceClient M (slot_ref g LlmInferenceSlot),
     wolfram_alpha_client = client_at CallWolframAlphaClient M (slot_ref g WolframAlphaSlot),
     client_ser = machine_ser M, client_parse = machine_parse M, client_dump = machine_dump M\<rparr>"

section \<open>The native methods\<close>

text \<open>
  The state is that of the references and of the process. Without memory for a reference
  the handle is zero; a stack that cannot be created ends the process.
\<close>

definition with_stack ::
  "(global_refs, nat option list option) prog
     \<Rightarrow> (global_refs \<Rightarrow> (('m, 'x) stack_process, ('m, 'x) stack_executor) prog)
     \<Rightarrow> (global_refs \<times> ('m, 'x) stack_process, ('m, 'x) stack_executor option) prog" where
  "with_stack make_references create = (\<lambda>(g, p). case make_references g of
      (Ok None, g') \<Rightarrow> (Ok None, (g', p))
    | (Ok (Some refs), g') \<Rightarrow> (case create g' p of
        (r, p') \<Rightarrow> (try_value (value_or_die r) (\<lambda>ex. Ok (Some ex)), (g', p')))
    | (Err e, g') \<Rightarrow> (Err e, (g', p))
    | (Crash c, g') \<Rightarrow> (Crash c, (g', p))
    | (Diverge, g') \<Rightarrow> (Diverge, (g', p)))"

definition DefaultExecutor_createDefaultExecutor ::
  "nat \<Rightarrow> 'c libs \<Rightarrow> java_machine \<Rightarrow> re_capture \<Rightarrow> ('m, 'x, 'f) llama_lib \<Rightarrow> (string \<Rightarrow> i32 option)
     \<Rightarrow> bool \<Rightarrow> bool \<Rightarrow> bool \<Rightarrow> (global_refs \<times> ('m, 'x) stack_process, ('m, 'x) stack_executor option) prog" where
  "DefaultExecutor_createDefaultExecutor n lib M R L atoi open_ai google_ai wolfram_alpha =
     with_stack (GC_create_default_executor (memory_ok M) open_ai google_ai wolfram_alpha)
       (\<lambda>g. CreateJavaExecutor n lib (clients_at M g) R L atoi)"

definition DefaultAndroidExecutor_createAndroidExecutor ::
  "nat \<Rightarrow> 'c libs \<Rightarrow> java_machine \<Rightarrow> unit java_http_object \<Rightarrow> re_capture \<Rightarrow> ('m, 'x, 'f) llama_lib \<Rightarrow> (string \<Rightarrow> i32 option)
     \<Rightarrow> bool \<Rightarrow> bool \<Rightarrow> bool \<Rightarrow> bool \<Rightarrow> bool
     \<Rightarrow> (global_refs \<times> ('m, 'x) stack_process, ('m, 'x) stack_executor option) prog" where
  "DefaultAndroidExecutor_createAndroidExecutor n lib M H R L atoi open_ai google_ai llm_inference wolfram_alpha http =
     with_stack (GC_create_android_executor (memory_ok M) open_ai google_ai llm_inference wolfram_alpha http)
       (\<lambda>g. CreateAndroidExecutor n lib (clients_at M g) H R L atoi)"

section \<open>A model call through the stack\<close>

lemma complete_model_inference:
  assumes "\<forall>h \<in> set (custom_intrinsics_list config). handler_uri h \<noteq> kModelInferenceWithConfig"
  shows "GetHandler (CreateCompleteHandlerSet config) kModelInferenceWithConfig =
    Ok (ModelInferenceWithConfig (model_inference_with_config_map config))"
proof -
  have "fold AddHandler (built_in_handlers config) Map.empty kModelInferenceWithConfig =
      Some (ModelInferenceWithConfig (model_inference_with_config_map config))"
    by (simp add: built_in_handlers_def AddHandler_def) (simp add: uri_defs)
  then show ?thesis by (simp add: GetHandler_def complete_built_in [OF assms])
qed

lemma model_call_once:
  assumes "create p = (Ok (CreateLocalExecutor n (CreateCompleteHandlerSet config) lib None), q)" and "1 \<le> n"
    and "\<forall>h \<in> set (custom_intrinsics_list config). handler_uri h \<noteq> kModelInferenceWithConfig"
    and "model_inference_with_config_map config u = Some f" and "u \<noteq> ''test_model''"
    and "CreateModelInferenceWithConfig u model_config = Ok (plain (KIntrinsic i))"
    and "f i (plain (KStr prompt)) q = (r, q')" and "r \<noteq> Diverge"
  shows "run_once create (plain (KIntrinsic i)) (plain (KStr prompt)) p = (r, q')"
proof -
  note handler = complete_model_inference [OF assms(3)]
  have i: "uri i = kModelInferenceWithConfig" "ModelInferenceWithConfig_CheckWellFormed i = Ok ()"
      "element (params i) 0 = Ok (labeled_str ''model_uri'' u)"
    using assms(6) by (auto simp: CreateModelInferenceWithConfig_def Let_def intrinsic_with_args_def CheckWellFormed_defs
        static_parameter_def or_default_def element_def labeled_str_def)
  have "meaning 0 (CreateCompleteHandlerSet config) lib (Inline i) (plain (KStr prompt)) q = (r, q')"
    using assms(4,5,7) by (simp add: run_intrinsic_def handler i GetInlineInterface_def lift_Ok Let_def labeled_str_def
        ModelInferenceWithConfig_ExecuteCall_def)
  moreover have "runnable (CreateCompleteHandlerSet config) (Inline i)"
    by (simp add: handler i)
  ultimately show ?thesis
    using run_once_meaning [of create p n "CreateCompleteHandlerSet config" lib q "Inline i" "plain (KStr prompt)" 0 r q'] assms(1,2,8)
    by (simp add: holds_data_def HasComputation_def)
qed

text \<open>What the clients of the stack give: nothing without a thread of the machine, else a crash or a reply.\<close>

lemma client_at_result:
  assumes "\<And>jvm obj. call jvm obj = call_client jvm obj" and "\<And>r. ref = Some r \<Longrightarrow> has_class (object_at M r) \<and> has_call_method (object_at M r)"
  shows "client_at call M ref config request =
    (if \<not> attach_ok (machine M) then Ok []
     else case ref of
         None \<Rightarrow> Crash NullDereference
       | Some r \<Rightarrow> Ok (GetString (vm_env (machine M)) (java_call_method (object_at M r) config request)))"
  using assms(2)
  by (cases ref) (auto simp: client_at_def assms(1) call_client_def GetJniEnv_def GetThreadLocalJniEnv_def GENC_TRY_apply
      return_apply lift_apply)

lemma created_slots:
  assumes "GC_create_default_executor enough open_ai google_ai wolfram_alpha no_refs = (Ok (Some refs), g)"
  shows "slot_ref g OpenAiSlot = None \<longleftrightarrow> \<not> open_ai" and "slot_ref g GoogleAiSlot = None \<longleftrightarrow> \<not> google_ai"
  using assms
  by (cases open_ai; cases google_ai; cases wolfram_alpha;
      auto simp: GC_create_default_executor_def make_ref_def NewGlobalRef_def no_refs_def GENC_TRY_apply return_apply
        split: if_splits)+

lemma java_stack_models:
  "model_inference_with_config_map (java_stack_config J R L atoi) kOpenAIModelUri = Some (\<lambda>i arg. lift
     (OpenAiCall (open_ai_client J) (client_ser J) (client_parse J) (client_dump J) (plain (KIntrinsic i)) arg))"
  "model_inference_with_config_map (java_stack_config J R L atoi) kGeminiModelUri = Some (\<lambda>i arg. lift
     (GoogleAiCall (google_ai_client J) (client_ser J) (client_parse J) (client_dump J) (plain (KIntrinsic i)) arg))"
  "\<forall>h \<in> set (custom_intrinsics_list (java_stack_config J R L atoi)). handler_uri h \<noteq> kModelInferenceWithConfig"
  by (simp_all add: java_stack_config_def add_java_functions_def SetWolframAlphaIntrinsicHandler_def WolframAlphaHandler_def
      SetLlamaCppModelInferenceHandler_def SetOpenAiModelInferenceHandler_def SetGoogleAiModelInferenceHandler_def
      default_config_def kOpenAIModelUri_def kGeminiModelUri_def kGemmaModelUri_def kLlamaCppModelUri_def uri_defs)


lemma try_value_eq_Diverge: "try_value r f = Diverge \<longleftrightarrow> r = Diverge \<or> (\<exists>x. r = Ok x \<and> f x = Diverge)"
  by (cases r) auto

lemma json_ends [simp]: "json_at k j \<noteq> Diverge" "json_index i j \<noteq> Diverge" "AsString dump j \<noteq> Diverge"
  by (cases j; simp add: AsString_def)+

lemma OpenAiCall_ends:
  assumes "\<And>config request. C config request \<noteq> Diverge"
  shows "OpenAiCall C ser parse dump func arg \<noteq> Diverge"
  unfolding OpenAiCall_def
  by (auto simp: assms Let_def try_value_eq_Diverge split: option.splits if_splits)



text \<open>A machine whose OpenAI client echoes the prompt; the application gives no other client.\<close>

definition echo_object :: java_object where
  "echo_object = \<lparr>has_class = True, has_call_method = True, java_call_method = (\<lambda>config request. Some request)\<rparr>"

definition echo_machine :: java_machine where
  "echo_machine = \<lparr>machine = \<lparr>attach_ok = True, vm_env = sample_jni\<rparr>, object_at = (\<lambda>r. echo_object), memory_ok = (\<lambda>_. True),
     machine_ser = (\<lambda>_. []),
     machine_parse = (\<lambda>s. Some (JObject [(''choices'', JArray [JObject [(''message'', JObject [(''content'', JString s)])]])])),
     machine_dump = (\<lambda>_. [])\<rparr>"


end
