(* ===== verification/Tracing.thy ===== *)
theory Tracing
  imports Authoring
begin

text \<open>
  Authoring by calling computations: \<^verbatim>\<open>genc/cc/base/computation.cc\<close>, the wrapper whose call
  operator passes the call to the current context, and the process-wide stack of contexts
  of \<^verbatim>\<open>genc/cc/base/context.cc\<close>. The only context of the program is the tracing context;
  contexts are kept by address, and the stack is the singleton of the process.
\<close>

section \<open>The process\<close>

record authoring_process =
  the_context_stack :: "nat ContextStack"
  name_to_ir :: "nat \<Rightarrow> trace_locals"

definition start_process :: authoring_process where
  "start_process = \<lparr>the_context_stack = new_ContextStack None, name_to_ir = (\<lambda>_. empty_bi_map)\<rparr>"

definition GetContextStack :: "authoring_process \<Rightarrow> nat ContextStack" where
  "GetContextStack w = the_context_stack w"

definition on_stack :: "(nat ContextStack, 'a) prog \<Rightarrow> (authoring_process, 'a) prog" where
  "on_stack p w = (case p (the_context_stack w) of (r, st) \<Rightarrow> (r, w\<lparr>the_context_stack := st\<rparr>))"

definition on_context :: "nat \<Rightarrow> (trace_locals, 'a) prog \<Rightarrow> (authoring_process, 'a) prog" where
  "on_context ctx p w = (case p (name_to_ir w ctx) of (r, m) \<Rightarrow> (r, w\<lparr>name_to_ir := (name_to_ir w)(ctx := m)\<rparr>))"

section \<open>Computations\<close>

record Computation =
  portable_ir :: pvalue

text \<open>Without any context \<open>CurrentContext\<close> gives a null pointer, whose method is called.\<close>

definition call_operator ::
  "(pvalue \<Rightarrow> string) \<Rightarrow> Computation \<Rightarrow> pvalue list \<Rightarrow> (authoring_process, Computation) prog" where
  "call_operator SerializeAsString computation args w =
     (case CurrentContext (GetContextStack w) of
        None \<Rightarrow> (Crash NullDereference, w)
      | Some ctx \<Rightarrow>
          GENC_TRY (on_context ctx (TracingContext_Call SerializeAsString (portable_ir computation) args))
            (\<lambda>result. return \<lparr>portable_ir = result\<rparr>) w)"

section \<open>Scopes of traces\<close>

text \<open>A program that authors: it calls computations and enters and leaves contexts.\<close>

datatype authoring_step =
    CallStep Computation "pvalue list"
  | EnterStep nat
  | LeaveStep nat

fun author :: "(pvalue \<Rightarrow> string) \<Rightarrow> authoring_step \<Rightarrow> authoring_process \<Rightarrow> authoring_process" where
  "author ser (CallStep c args) w = snd (call_operator ser c args w)"
| "author ser (EnterStep ctx) w = snd (on_stack (\<lambda>st. (Ok (), AppendNestedContext ctx st)) w)"
| "author ser (LeaveStep ctx) w = snd (on_stack (RemoveNestedContext ctx) w)"

lemma call_operator_current:
  assumes "CurrentContext (the_context_stack w) = Some ctx"
    and "TracingContext_Call ser (portable_ir c) args (name_to_ir w ctx) = (r, m)"
  shows "call_operator ser c args w =
    (try_value r (\<lambda>v. Ok \<lparr>portable_ir = v\<rparr>), w\<lparr>name_to_ir := (name_to_ir w)(ctx := m)\<rparr>)"
  using assms by (cases r) (simp_all add: call_operator_def GetContextStack_def on_context_def GENC_TRY_apply return_apply)

text \<open>
  A call is traced in the current context and nowhere else, and leaves the stack alone.
\<close>

lemma call_operator_frame:
  "the_context_stack (snd (call_operator ser c args w)) = the_context_stack w"
  "CurrentContext (the_context_stack w) \<noteq> Some k \<Longrightarrow>
   name_to_ir (snd (call_operator ser c args w)) k = name_to_ir w k"
  by (cases "CurrentContext (the_context_stack w)";
      simp add: call_operator_def GetContextStack_def on_context_def GENC_TRY_apply return_apply split: prod.splits outcome.splits;
      fail)+

text \<open>
  A trace is confined to its scope. Calls made after a context is entered are recorded in
  that context alone, and leaving it gives back the stack of before.
\<close>

lemma scope_confines_trace:
  assumes "w1 = fold (author ser) (map (\<lambda>(c, args). CallStep c args) calls) (author ser (EnterStep ctx) w)"
  shows "(\<forall>k. k \<noteq> ctx \<longrightarrow> name_to_ir w1 k = name_to_ir w k)
    \<and> the_context_stack (author ser (LeaveStep ctx) w1) = the_context_stack w"
proof -
  have "the_context_stack w1 = the_context_stack w0 \<and> (\<forall>k. k \<noteq> ctx \<longrightarrow> name_to_ir w1 k = name_to_ir w0 k)"
    if "w1 = fold (author ser) (map (\<lambda>(c, args). CallStep c args) calls) w0"
      "CurrentContext (the_context_stack w0) = Some ctx" for w0
    using that
  proof (induction calls arbitrary: w0)
    case (Cons call calls)
    obtain c args where call: "call = (c, args)" by (cases call)
    let ?w = "snd (call_operator ser c args w0)"
    have current: "CurrentContext (the_context_stack ?w) = Some ctx"
      using Cons.prems(2) by (simp add: call_operator_frame(1))
    have rest: "w1 = fold (author ser) (map (\<lambda>(c, args). CallStep c args) calls) ?w"
      using Cons.prems(1) call by simp
    have "name_to_ir ?w k = name_to_ir w0 k" if "k \<noteq> ctx" for k
      using Cons.prems(2) that by (intro call_operator_frame(2)) auto
    then show ?case
      using Cons.IH [OF rest current] call_operator_frame(1) [of ser c args w0] by auto
  qed simp
  from this [OF assms] show ?thesis
    by (simp add: on_stack_def AppendNestedContext_def CurrentContext_def RemoveNestedContext_def)
qed

text \<open>Calling a computation where no context was set dereferences a null pointer.\<close>

lemma call_without_context: "fst (call_operator ser c args start_process) = Crash NullDereference"
  by (simp add: call_operator_def GetContextStack_def start_process_def CurrentContext_def new_ContextStack_def)

end
