(* ===== verification/Example_Programs.thy ===== *)
theory Example_Programs
  imports Programs
begin

text \<open>
  The command-line programs under \<^verbatim>\<open>genc/cc/examples\<close>: each creates an executor, writes a
  computation and runs it on an argument. The executor a program creates is an argument
  here (\<^verbatim>\<open>Stacks\<close> models what the example stacks configure); the values of the flags are
  arguments too. The math agent is run on the local stack to the end.
\<close>

section \<open>Running a computation on a fresh executor\<close>

text \<open>\<open>GENC_TRY(CreateDefaultExecutor())\<close>: a status, or a pointer to an executor.\<close>

type_synonym ('h, 's) executor_factory = "('s, ('h, 's) executor option) prog"

definition text_arg :: "string \<Rightarrow> pvalue" where
  "text_arg s = set_case (KStr s) empty_value"

text \<open>The four programs that end the same way; the computation comes before the runner.\<close>

definition run_with ::
  "('h, 's) executor option \<Rightarrow> pvalue \<Rightarrow> string \<Rightarrow> ('s, pvalue) prog" where
  "run_with ex computation text =
     GENC_TRY (lift (Runner_Create ex)) (\<lambda>r. Run_computation r computation (text_arg text))"

definition gemini_request_template :: string where
  "gemini_request_template =
     ''
      {
        \"contents\":[{\"role\":\"user\",\"parts\":[{\"text\":\"PROMPT REPLACES THIS\"}]}],
        \"safety_settings\":[{
          \"category\":\"HARM_CATEGORY_SEXUALLY_EXPLICIT\",
          \"threshold\":\"BLOCK_LOW_AND_ABOVE\"}],
          \"generation_config\":{
          \"temperature\":0.9, \"topP\":1.0, \"maxOutputTokens\":1024}
      }
    ''"

definition RunGeminiOnAIStudio ::
  "('h, 's) executor_factory \<Rightarrow> string \<Rightarrow> string \<Rightarrow> ('s, pvalue) prog" where
  "RunGeminiOnAIStudio create_executor api_key query =
     GENC_TRY create_executor (\<lambda>ex.
     let end_point = ''https://generativelanguage.googleapis.com/v1beta/models/'' @ ''gemini-pro:generateContent'' in
     GENC_TRY (lift (CreateRestModelConfigWithJsonRequestTemplate end_point api_key gemini_request_template)) (\<lambda>model_config.
     GENC_TRY (lift (CreateModelInferenceWithConfig ''/cloud/gemini'' model_config)) (\<lambda>model_call.
     run_with ex model_call query)))"

definition kVertexEndPoint :: string where
  "kVertexEndPoint = ''https://us-central1-aiplatform.googleapis.com/v1/projects/25764558840/'' @
     ''locations/us-central1/publishers/google/models/'' @ ''gemini-pro:streamGenerateContent''"

definition RunGeminiOnVertex ::
  "('h, 's) executor_factory \<Rightarrow> string \<Rightarrow> string \<Rightarrow> ('s, pvalue) prog" where
  "RunGeminiOnVertex create_executor api_key json_request =
     GENC_TRY create_executor (\<lambda>ex.
     GENC_TRY (lift (CreateRestCall kVertexEndPoint api_key ''POST'')) (\<lambda>rest_call.
     run_with ex rest_call json_request))"

definition RunLlamaOnVertex ::
  "('h, 's) executor_factory \<Rightarrow> string \<Rightarrow> string \<Rightarrow> string \<Rightarrow> ('s, pvalue) prog" where
  "RunLlamaOnVertex create_executor api_key endpoint json_request =
     GENC_TRY create_executor (\<lambda>ex.
     GENC_TRY (lift (CreateRestCall endpoint api_key ''POST'')) (\<lambda>rest_call.
     run_with ex rest_call json_request))"

definition kOpenAIEndPoint :: string where
  "kOpenAIEndPoint = ''https://api.openai.com/v1/completions''"

definition RunOpenAI ::
  "('h, 's) executor_factory \<Rightarrow> string \<Rightarrow> string \<Rightarrow> ('s, pvalue) prog" where
  "RunOpenAI create_executor api_key json_request =
     GENC_TRY create_executor (\<lambda>ex.
     GENC_TRY (lift (CreateRestCall kOpenAIEndPoint api_key ''POST'')) (\<lambda>rest_call.
     run_with ex rest_call json_request))"

definition RunWolframAlpha ::
  "('h, 's) executor_factory \<Rightarrow> string \<Rightarrow> string \<Rightarrow> ('s, pvalue) prog" where
  "RunWolframAlpha create_executor appid query =
     GENC_TRY create_executor (\<lambda>ex.
     GENC_TRY (lift (CreateWolframAlpha appid)) (\<lambda>wolfram_alpha_call.
     run_with ex wolfram_alpha_call query))"

text \<open>A program whose steps are all read with \<open>value()\<close>: a status that is not OK ends the process.\<close>

definition or_exit :: "('s, 'a) prog \<Rightarrow> ('s, 'a) prog" where
  "or_exit p = (\<lambda>s. case p s of (r, s') \<Rightarrow> (value_or_die r, s'))"

definition run_local_model_with_llamacpp ::
  "('h, 's) executor_factory \<Rightarrow> string \<Rightarrow> i32 \<Rightarrow> i32 \<Rightarrow> string \<Rightarrow> ('s, pvalue) prog" where
  "run_local_model_with_llamacpp create_executor model_path num_threads token_limit prompt =
     GENC_TRY (or_exit create_executor) (\<lambda>ex.
     GENC_TRY (lift (value_or_die (CreateLlamaCppConfig model_path num_threads token_limit))) (\<lambda>config.
     GENC_TRY (lift (value_or_die (CreateModelInferenceWithConfig ''/device/gemma'' config))) (\<lambda>model_call.
     GENC_TRY (lift (value_or_die (Runner_Create_with model_call ex))) (\<lambda>runner.
     or_exit (Run_arg runner (text_arg prompt))))))"

text \<open>
  The concurrency interface of \<^verbatim>\<open>custom_concurrency_interface.cc\<close> runs a callback at once and
  returns a waitable that is always done; the line it prints is left out.
\<close>

definition MyCustomConcurrencyInterface :: schedule where
  "MyCustomConcurrencyInterface = Ok (Ok ())"

definition custom_concurrency_Run :: "('h, 's) executor_factory \<Rightarrow> ('s, pvalue) prog" where
  "custom_concurrency_Run create_executor =
     GENC_TRY create_executor (\<lambda>ex.
     GENC_TRY (lift (CreateModelInference ''test_model'')) (\<lambda>model.
     GENC_TRY (lift (Runner_Create_with model ex)) (\<lambda>runner.
     Run_arg runner (text_arg ''Boo!''))))"

section \<open>The math agent\<close>

definition kInstructionTemplate :: string where
  "kInstructionTemplate =
     ''Solve a question answering task with interleaving Thought, Action, '' @
     ''Observation steps.\<newline>'' @
     ''Thought can reason about the current situation\<newline>'' @
     ''Action can be only two types:\<newline>'' @
     ''(1) Math[query], Useful for when you need to solve math problems.\<newline>'' @
     ''(2) Finish[answer], which returns the answer as a number terminates.\<newline>'' @
     ''Here's an example:\<newline>'' @
     ''Question: what is the result of power of 2 + 1?\<newline>'' @
     ''Thought: power of 2\<newline>'' @
     ''Action: Math[pow(2)]\<newline>'' @
     ''Observation: 4\<newline>'' @
     ''Thought: I can now process the answer.\<newline>'' @
     ''Action: Math[4+1]\<newline>'' @
     ''Observation: 5\<newline>'' @
     ''Thought: Seems like I got the answer.\<newline>'' @
     ''Action: Finish[5]\<newline>'' @
     ''Please do it step by step.\<newline>'' @
     ''Question: {question}\<newline>''"

text \<open>Piping the parts of a chain one after the other, each a status or a value.\<close>

fun pipe_all :: "SmartChain \<Rightarrow> pvalue outcome list \<Rightarrow> SmartChain outcome" where
  "pipe_all ch [] = Ok ch"
| "pipe_all ch (op # ops) = try_value (pipe_status_or ch op) (\<lambda>ch. pipe_all ch ops)"

definition math_agent_computation :: "string \<Rightarrow> string \<Rightarrow> pvalue outcome" where
  "math_agent_computation api_key appid =
     try_value CreateLogger (\<lambda>log_it.
     try_value (CreateCustomFunction ''/local_cache/read'') (\<lambda>read_context.
     try_value (CreateCustomFunction ''/local_cache/write'') (\<lambda>add_to_context.
     let end_point = ''https://generativelanguage.googleapis.com/v1beta/models/'' @
           ''gemini-pro:generateContent?key='' @ api_key in
     try_value (CreateRestCall end_point '''' ''POST'') (\<lambda>rest_call.
     try_value (CreateCustomFunction ''/gemini_parser/wrap_text_as_input_json'') (\<lambda>str_to_json_request.
     try_value (CreateCustomFunction ''/gemini_parser/get_top_candidate_as_text'') (\<lambda>extrat_top_candidate.
     let model_call = pipe_value (pipe_value (pipe_value new_SmartChain str_to_json_request) rest_call)
           extrat_top_candidate in
     try_value (CreateInjaTemplate (''{% if queryresult.pods %}{{queryresult.pods.0.subpods.0.plaintext}}{% '' @
           ''endif %}'')) (\<lambda>extract_result_from_wolfram.
     try_value (pipe_status_or new_SmartChain (CreateWolframAlpha appid)) (\<lambda>wolfram.
     let solve_math = pipe_value wolfram extract_result_from_wolfram in
     try_value (pipe_chain (pipe_value new_SmartChain read_context) model_call) (\<lambda>ch.
     try_value (pipe_all ch [CreateCustomFunction ''/react/parse_thought_action'', Ok log_it,
         CreateRegexPartialMatch ''Finish'', Ok add_to_context,
         CreateCustomFunction ''/react/extract_math_question'']) (\<lambda>ch.
     try_value (pipe_chain ch solve_math) (\<lambda>ch.
     try_value (pipe_all ch [CreateCustomFunction ''/react/format_observation'', Ok log_it, Ok add_to_context])
       (\<lambda>reasoning_loop.
     let reasoning_loop = SetNumIteration 8 reasoning_loop in
     try_value (pipe_all new_SmartChain [CreatePromptTemplate kInstructionTemplate, Ok add_to_context, Ok log_it])
       (\<lambda>ch.
     try_value (pipe_chain ch reasoning_loop) SmartChain_Build)))))))))))))"

definition RunAgent ::
  "('h, 's) executor_factory \<Rightarrow> string \<Rightarrow> string \<Rightarrow> string \<Rightarrow> ('s, pvalue) prog" where
  "RunAgent create_executor api_key appid question =
     GENC_TRY create_executor (\<lambda>ex.
     GENC_TRY (lift (math_agent_computation api_key appid)) (\<lambda>computation.
     run_with ex computation question))"

section \<open>The main functions\<close>

text \<open>
  Each runs its program on a fixed request and prints the result; \<open>value()\<close> ends the
  process when the run failed. The result is what is printed.
\<close>

definition math_tool_agent_main :: "('h, 's) executor_factory \<Rightarrow> string \<Rightarrow> string \<Rightarrow> ('s, pvalue) prog" where
  "math_tool_agent_main create_executor api_key appid =
     or_exit (RunAgent create_executor api_key appid
       (''what is the result of (square root of 4) + 3 to the power of 2 + 3 *'' @ ''(8 + 4) / 2 - 7''))"

definition printed :: "pvalue \<Rightarrow> message" where
  "printed output = [DebugString output, Txt ''\<newline>'']"

definition run_gemini_on_ai_studio_main :: "('h, 's) executor_factory \<Rightarrow> string \<Rightarrow> ('s, message) prog" where
  "run_gemini_on_ai_studio_main create_executor api_key =
     GENC_TRY (or_exit (RunGeminiOnAIStudio create_executor api_key ''Write a story about a magic backpack.''))
       (\<lambda>output. return (printed output))"

definition run_gemini_on_vertex_main :: "('h, 's) executor_factory \<Rightarrow> string \<Rightarrow> ('s, message) prog" where
  "run_gemini_on_vertex_main create_executor api_key =
     GENC_TRY (or_exit (RunGeminiOnVertex create_executor api_key
       ''
    {
      \"contents\": {
        \"role\": \"user\",
        \"parts\": { \"text\": \"Give me a recipe for banana bread.\" },
      },
      \"safety_settings\": {
        \"category\": \"HARM_CATEGORY_SEXUALLY_EXPLICIT\",
        \"threshold\": \"BLOCK_LOW_AND_ABOVE\"
      },
      \"generation_config\": {
        \"temperature\": 0.9,
        \"topP\": 1.0,
        \"maxOutputTokens\": 2048
      }
    }
  ''))
       (\<lambda>output. return (printed output))"

definition run_llama_on_vertex_main :: "('h, 's) executor_factory \<Rightarrow> string \<Rightarrow> string \<Rightarrow> ('s, message) prog" where
  "run_llama_on_vertex_main create_executor api_key endpoint =
     GENC_TRY (or_exit (RunLlamaOnVertex create_executor api_key endpoint
       ''
    {
      \"instances\":
      [ { \"prompt\": \"tell me something\" }]
    }
  ''))
       (\<lambda>output. return (printed output))"

definition run_openai_main :: "('h, 's) executor_factory \<Rightarrow> string \<Rightarrow> ('s, message) prog" where
  "run_openai_main create_executor api_key =
     GENC_TRY (or_exit (RunOpenAI create_executor api_key
       ''
    {
      \"model\": \"gpt-3.5-turbo-0125\",
      \"prompt\": \"tell me a story!\",
      \"max_tokens\": 50
    }
  ''))
       (\<lambda>output. return (printed output))"

definition run_wolfram_main :: "('h, 's) executor_factory \<Rightarrow> string \<Rightarrow> ('s, message) prog" where
  "run_wolfram_main create_executor appid =
     GENC_TRY (or_exit (RunWolframAlpha create_executor appid ''what is the result of 2^2-2-3+4*100''))
       (\<lambda>output. return (printed output))"

text \<open>The output of a failed run goes to the error stream; the exit code is 0 all the same.\<close>

definition custom_concurrency_main :: "('h, 's) executor_factory \<Rightarrow> ('s, message) prog" where
  "custom_concurrency_main create_executor = (\<lambda>s. case custom_concurrency_Run create_executor s of
      (Ok output, s') \<Rightarrow> (Ok ([Txt ''Result: ''] @ printed output), s')
    | (Err e, s') \<Rightarrow> (Ok ([Txt ''Error: ''] @ msg e @ [Txt ''\<newline>'']), s')
    | (Crash c, s') \<Rightarrow> (Crash c, s')
    | (Diverge, s') \<Rightarrow> (Diverge, s'))"

section \<open>What the math agent is\<close>

abbreviation function_step :: "string \<Rightarrow> program" where
  "function_step u \<equiv> Inline (IntrinsicPb kCustomFunction (Some (plain (KStr u))))"

abbreviation log_step :: program where
  "log_step \<equiv> Inline (IntrinsicPb kLogger None)"

definition model_steps :: "string \<Rightarrow> program" where
  "model_steps api_key = Chain
     [function_step ''/gemini_parser/wrap_text_as_input_json'',
      Inline (IntrinsicPb kRestCall (Some (plain (KStruct [labeled_str ''method'' ''POST'',
        labeled_str ''uri'' (''https://generativelanguage.googleapis.com/v1beta/models/'' @
           ''gemini-pro:generateContent?key='' @ api_key),
        labeled_str ''api_key'' ''''])))),
      function_step ''/gemini_parser/get_top_candidate_as_text'']"

definition math_steps :: "string \<Rightarrow> program" where
  "math_steps appid = Chain
     [Inline (IntrinsicPb kWolframAlpha (Some (labeled_str ''appid'' appid))),
      Inline (IntrinsicPb kInjaTemplate (Some (plain (KStr (''{% if queryresult.pods %}{{queryresult.pods.0.subpods.0.plaintext}}{% '' @
           ''endif %}'')))))]"

text \<open>A thought: the model is asked about the history, and its reply is parsed and logged.\<close>

definition thought_steps :: "string \<Rightarrow> program list" where
  "thought_steps api_key =
     [function_step ''/local_cache/read'', model_steps api_key, function_step ''/react/parse_thought_action'', log_step]"

definition finish_test :: program where
  "finish_test = Inline (IntrinsicPb kRegexPartialMatch (Some (plain (KStr ''Finish''))))"

text \<open>The rest of a round, when the thought is no answer: the tool is called and its result recorded.\<close>

definition tool_steps :: "string \<Rightarrow> program list" where
  "tool_steps appid =
     [function_step ''/local_cache/write'', function_step ''/react/extract_math_question'', math_steps appid,
      function_step ''/react/format_observation'', log_step, function_step ''/local_cache/write'']"

definition opening_steps :: "program list" where
  "opening_steps =
     [Inline (IntrinsicPb kPromptTemplate (Some (plain (KStr kInstructionTemplate)))),
      function_step ''/local_cache/write'', log_step]"

definition math_agent :: "string \<Rightarrow> string \<Rightarrow> program" where
  "math_agent api_key appid =
     Chain (opening_steps @ [Conditional_chain 8 (thought_steps api_key @ finish_test # tool_steps appid)])"

lemma math_agent_author: "math_agent_computation api_key appid = author (math_agent api_key appid)"
  unfolding author_Ok
  by (simp add: math_agent_computation_def Let_def CreateLogger_def CreateCustomFunction_def CreateRestCall_def
      CreateInjaTemplate_def CreateWolframAlpha_def CreateRegexPartialMatch_def CreatePromptTemplate_def
      CreateSerialChain_def CreateRepeatedConditionalChain_def SmartChain_Build_def pipe_status_or_def pipe_chain_def
      pipe_value_def value_or_die_def new_SmartChain_def SetNumIteration_def intrinsic_with_args_def
      intrinsic_with_str_def math_agent_def opening_steps_def thought_steps_def tool_steps_def finish_test_def
      model_steps_def math_steps_def del: kInstructionTemplate_def)

lemma example_handlers:
  assumes "custom_intrinsics_list config = [WolframAlpha]"
  defines "hs \<equiv> CreateCompleteHandlerSet config"
  shows "hs kSerialChain = Some SerialChain" "hs kRepeatedConditionalChain = Some RepeatedConditionalChain"
    "hs kLogger = Some Logger" "hs kCustomFunction = Some (CustomFunction (custom_function_map config))"
    "hs kRestCall = Some RestCall" "hs kWolframAlpha = Some WolframAlpha" "hs kInjaTemplate = Some InjaTemplate"
    "hs kPromptTemplate = Some PromptTemplate" "hs kRegexPartialMatch = Some RegexPartialMatch"
  unfolding hs_def CreateCompleteHandlerSet_def built_in_handlers_def assms(1)
  by (simp_all add: AddHandler_def) (simp_all add: uri_defs)

lemma math_agent_runnable:
  assumes "custom_intrinsics_list config = [WolframAlpha]"
  shows "runnable (CreateCompleteHandlerSet config) (math_agent api_key appid)"
  by (simp add: math_agent_def opening_steps_def thought_steps_def tool_steps_def finish_test_def
      model_steps_def math_steps_def GetHandler_def example_handlers [OF assms] CheckWellFormed_defs
      static_parameter_def or_default_def labeled_str_def)

lemma math_agent_size: "depth (math_agent api_key appid) = 4" "handles turns (math_agent api_key appid) = 258"
  by (simp_all add: math_agent_def opening_steps_def thought_steps_def tool_steps_def finish_test_def
      model_steps_def math_steps_def)

section \<open>How the math agent ends\<close>

text \<open>The functions of the history and of the parsers are there and give text for text.\<close>

definition text_functions :: "'w FunctionMap \<Rightarrow> bool" where
  "text_functions fns \<longleftrightarrow> (\<forall>u \<in> {''/local_cache/read'', ''/local_cache/write'',
       ''/gemini_parser/get_top_candidate_as_text'', ''/react/parse_thought_action''}.
     \<exists>f. fns u = Some f \<and> text_step f)"

lemma inline_meaning:
  assumes "custom_intrinsics_list config = [WolframAlpha]"
  shows "meaning turns (CreateCompleteHandlerSet config) lib (function_step u) x =
      CustomFunction_ExecuteCall (custom_function_map config) (IntrinsicPb kCustomFunction (Some (plain (KStr u)))) x empty_value"
    and "meaning turns (CreateCompleteHandlerSet config) lib log_step x = Logger_ExecuteCall (IntrinsicPb kLogger None) x empty_value"
    and "meaning turns (CreateCompleteHandlerSet config) lib finish_test x =
      RegexPartialMatch_ExecuteCall lib (IntrinsicPb kRegexPartialMatch (Some (plain (KStr ''Finish'')))) x empty_value"
  by (simp_all add: finish_test_def run_intrinsic_def GetHandler_def example_handlers [OF assms] CheckWellFormed_defs
      static_parameter_def or_default_def GetInlineInterface_def Let_def lift_Ok)

lemma function_text_step:
  assumes "custom_intrinsics_list config = [WolframAlpha]"
    and "custom_function_map config u = Some f" and "text_step f"
  shows "text_step (meaning turns (CreateCompleteHandlerSet config) lib (function_step u))"
  using assms(2,3)
  by (simp add: text_step_def inline_meaning [OF assms(1)] CustomFunction_ExecuteCall_def static_parameter_def
      or_default_def del: meaning.simps)

lemma log_text_step:
  assumes "custom_intrinsics_list config = [WolframAlpha]"
  shows "text_step (meaning turns (CreateCompleteHandlerSet config) lib log_step)"
  by (simp add: text_step_def inline_meaning [OF assms] Logger_ExecuteCall_def Let_def del: meaning.simps)

lemma CurlClient_Post_text: "CurlClient_Post c key url body = Ok v \<Longrightarrow> has_str v"
  by (auto simp: CurlClient_Post_def Let_def split: if_splits curl_result.splits)

lemma rest_text:
  assumes "custom_intrinsics_list config = [WolframAlpha]"
    and "meaning turns (CreateCompleteHandlerSet config) lib (Inline (IntrinsicPb kRestCall (Some (plain (KStruct
      [labeled_str ''method'' ''POST'', labeled_str ''uri'' u, labeled_str ''api_key'' k]))))) x s = (Ok v, s')"
  shows "has_str v"
  using assms(2)
  by (auto simp: run_intrinsic_def GetHandler_def example_handlers [OF assms(1)] CheckWellFormed_defs
      static_parameter_def or_default_def GetInlineInterface_def lift_Ok RestCall_ExecuteCall_def element_def
      labeled_str_def kRestCallGet_def kRestCallPost_def lift_apply intro: CurlClient_Post_text)

lemma model_text:
  assumes "custom_intrinsics_list config = [WolframAlpha]"
    and top: "text_step (meaning turns (CreateCompleteHandlerSet config) lib (function_step ''/gemini_parser/get_top_candidate_as_text''))"
  shows "text_step (meaning turns (CreateCompleteHandlerSet config) lib (model_steps api_key))"
  unfolding text_step_def
proof (intro allI impI)
  fix x s v s'
  assume "meaning turns (CreateCompleteHandlerSet config) lib (model_steps api_key) x s = (Ok v, s')"
  then obtain y s1 z s2 where rest:
    "meaning turns (CreateCompleteHandlerSet config) lib (Inline (IntrinsicPb kRestCall (Some (plain (KStruct [labeled_str ''method'' ''POST'',
        labeled_str ''uri'' (''https://generativelanguage.googleapis.com/v1beta/models/'' @
           ''gemini-pro:generateContent?key='' @ api_key), labeled_str ''api_key'' '''']))))) y s1 = (Ok z, s2)"
    and last: "meaning turns (CreateCompleteHandlerSet config) lib (function_step ''/gemini_parser/get_top_candidate_as_text'') z s2 = (Ok v, s')"
    unfolding model_steps_def meaning.simps(2) list.map fold_try.simps GENC_TRY_eq_Ok return_apply by blast
  from rest_text [OF assms(1) rest] have "has_str z" .
  then show "has_str v" using last by (rule text_stepD [OF top])
qed

text \<open>The thought of a round is text, when the history is.\<close>

lemma thought_text:
  assumes "custom_intrinsics_list config = [WolframAlpha]" and "text_functions (custom_function_map config)"
  shows "list_all text_step (map (meaning turns (CreateCompleteHandlerSet config) lib) (thought_steps api_key))"
proof -
  let ?M = "meaning turns (CreateCompleteHandlerSet config) lib"
  have fn: "text_step (?M (function_step u))"
    if "u \<in> {''/local_cache/read'', ''/local_cache/write'',
       ''/gemini_parser/get_top_candidate_as_text'', ''/react/parse_thought_action''}" for u
    using bspec [OF assms(2) [unfolded text_functions_def] that] by (auto intro: function_text_step [OF assms(1)] simp del: meaning.simps)
  have "text_step (?M (model_steps api_key))"
    by (rule model_text [OF assms(1)]) (rule fn, simp)
  then show ?thesis
    using fn [of "''/local_cache/read''"] fn [of "''/react/parse_thought_action''"] log_text_step [OF assms(1)]
    by (simp add: thought_steps_def del: meaning.simps)
qed

lemma prompt_text: "PromptTemplate_ExecuteCall lib i arg empty_value s = (Ok v, s') \<Longrightarrow> has_str v"
  by (auto simp: PromptTemplate_ExecuteCall_def Let_def lift_apply return_apply GENC_TRY_apply split: if_splits option.splits
      prod.splits outcome.splits)

lemma history_text:
  assumes "custom_intrinsics_list config = [WolframAlpha]" and "text_functions (custom_function_map config)"
    and "meaning turns (CreateCompleteHandlerSet config) lib (Chain opening_steps) arg out = (Ok history, out1)"
  shows "has_str history"
proof -
  let ?M = "meaning turns (CreateCompleteHandlerSet config) lib"
  obtain x s1 y s2 where x: "?M (Inline (IntrinsicPb kPromptTemplate (Some (plain (KStr kInstructionTemplate))))) arg out = (Ok x, s1)"
    and y: "?M (function_step ''/local_cache/write'') x s1 = (Ok y, s2)" and last: "?M log_step y s2 = (Ok history, out1)"
    using assms(3) unfolding opening_steps_def meaning.simps(2) list.map fold_try.simps GENC_TRY_eq_Ok return_apply by blast
  have str: "has_str x"
    using x by (auto simp: run_intrinsic_def GetHandler_def example_handlers [OF assms(1)] CheckWellFormed_defs
      static_parameter_def or_default_def GetInlineInterface_def lift_Ok intro: prompt_text)
  obtain f where f: "custom_function_map config ''/local_cache/write'' = Some f"
      "text_step f"
    using assms(2) by (auto simp: text_functions_def)
  note wr = function_text_step [OF assms(1) f]
  from str y have "has_str y" by (rule text_stepD [OF wr])
  then show ?thesis using last by (rule text_stepD [OF log_text_step [OF assms(1)]])
qed

text \<open>
  The math agent answers with the first thought, if that says that it is finished: when
  the prompt, the model and the parsers give an answer in which \<^verbatim>\<open>Finish\<close> is found, the
  program returns that text from the local stack, whatever Wolfram Alpha would say; the
  tool is never called, and the history is not written again.
\<close>

lemma math_agent_answers:
  fixes b :: "'w local_state"
  assumes "custom_intrinsics_list config = [WolframAlpha]" and "text_functions (custom_function_map config)"
    and "meaning 0 (CreateCompleteHandlerSet config) lib (Chain opening_steps) (text_arg question)
      (sub_state (sub_state b)) = (Ok history, out1)"
    and "meaning 0 (CreateCompleteHandlerSet config) lib (Chain (thought_steps api_key)) history out1 = (Ok answer, out2)"
    and "PartialMatch lib (str answer) ''Finish''" and "4 \<le> n" and "local_room 260 b"
  shows "\<exists>b'. RunAgent (return (Some (CreateLocalExecutor n (CreateCompleteHandlerSet config) lib None))) api_key appid
      question b = (Ok answer, b') \<and> sub_state (sub_state b') = out2 \<and> tracked_values b' = tracked_values b"
proof -
  let ?hs = "CreateCompleteHandlerSet config"
  let ?M = "meaning 0 ?hs lib"
  have str: "has_str history" by (rule history_text [OF assms(1-3)])
  have thought: "fold_try (\<lambda>f. f) (map ?M (thought_steps api_key)) history out1 = (Ok answer, out2)"
    using assms(4) by simp
  have "has_str answer"
    by (rule text_stepD [OF text_step_fold [OF thought_text [OF assms(1,2)]] str thought])
  then have finish: "?M finish_test answer out2 = (Ok (plain (KBoolean True)), out2)"
    using assms(5)
    by (simp add: inline_meaning [OF assms(1)] RegexPartialMatch_ExecuteCall_def static_parameter_def or_default_def
        return_apply del: meaning.simps)
  have "passes 8 (map ?M (thought_steps api_key @ finish_test # tool_steps appid)) history out1 = (Ok answer, out2)"
    using passes_stop [where f = "?M finish_test" and n = 7, OF thought_text [OF assms(1,2)] str thought finish]
    by (simp del: meaning.simps passes.simps)
  then have "?M (math_agent api_key appid) (text_arg question) (sub_state (sub_state b)) = (Ok answer, out2)"
    using assms(3) by (simp add: math_agent_def fold_try_append GENC_TRY_apply return_apply)
  from program_runs [where n = n, OF math_agent_runnable [OF assms(1)] _ _ _ this] show ?thesis
    using assms(6,7)
    by (auto simp: math_agent_size RunAgent_def run_with_def Runner_Create_def Run_computation_def lift_Ok
        math_agent_author author_Ok text_arg_def holds_data_def HasComputation_def)
qed

text \<open>A model that always says that it is finished, and functions that pass text on.\<close>

definition sample_agent_libs :: "unit libs" where
  "sample_agent_libs = sample_libs\<lparr>FindAndConsume := \<lambda>_. None, StrReplaceAll := \<lambda>s rs. s,
     libcurl := \<lparr>curl_easy_init = True, curl_easy_escape = (\<lambda>s. s),
       curl_easy_perform = (\<lambda>os. CURLE_OK [''Finish''])\<rparr>\<rparr>"

definition copy_text :: "'w process_fn" where
  "copy_text v = return (plain (KStr (str v)))"

definition sample_agent_config :: "unit HandlerSetConfig" where
  "sample_agent_config = default_config\<lparr>custom_intrinsics_list := [WolframAlpha],
     custom_function_map := (\<lambda>u. Some copy_text)\<rparr>"

lemma sample_agent_text: "text_functions (custom_function_map sample_agent_config)"
  by (simp add: text_functions_def sample_agent_config_def copy_text_def text_step_def return_apply)

lemmas sample_agent_run = run_intrinsic_def GetHandler_def example_handlers CheckWellFormed_defs
  static_parameter_def or_default_def GetInlineInterface_def lift_Ok lift_apply return_apply CustomFunction_ExecuteCall_def
  Logger_ExecuteCall_def PromptTemplate_ExecuteCall_def RestCall_ExecuteCall_def CurlClient_Post_def Let_def
  GENC_TRY_apply copy_text_def text_arg_def find_parameters.simps of_loop_def element_def labeled_str_def
  kRestCallGet_def kRestCallPost_def write_all_def WriteCallback_def

lemma sample_agent_opening:
  "meaning 0 (CreateCompleteHandlerSet sample_agent_config) sample_agent_libs (Chain opening_steps) (text_arg ''2+2'') new_process =
     (Ok (plain (KStr kInstructionTemplate)), write_console [Txt kInstructionTemplate] new_process)"
  by (simp add: opening_steps_def sample_agent_run sample_agent_config_def sample_agent_libs_def)

lemma sample_agent_thought:
  "meaning 0 (CreateCompleteHandlerSet sample_agent_config) sample_agent_libs (Chain (thought_steps [])) (plain (KStr kInstructionTemplate))
     (write_console [Txt kInstructionTemplate] new_process) =
   (Ok (plain (KStr ''Finish'')), write_console [Txt ''Finish''] (write_console [Txt kInstructionTemplate] new_process))"
  by (simp add: thought_steps_def model_steps_def sample_agent_run sample_agent_config_def sample_agent_libs_def)

lemma math_agent_answers_witness:
  "\<exists>b'. RunAgent (return (Some (CreateLocalExecutor 4 (CreateCompleteHandlerSet sample_agent_config) sample_agent_libs None)))
     [] [] ''2+2'' (initial_local_state new_process) = (Ok (plain (KStr ''Finish'')), b') \<and> tracked_values b' = Map.empty"
proof -
  have initial: "sub_state (sub_state (initial_local_state new_process)) = new_process"
      "tracked_values (initial_local_state new_process) = Map.empty"
    by (simp_all add: initial_local_state_def initial_state_def)
  have config: "custom_intrinsics_list sample_agent_config = [WolframAlpha]" by (simp add: sample_agent_config_def)
  have match: "PartialMatch sample_agent_libs (str (plain (KStr ''Finish''))) ''Finish''"
    by (simp add: sample_agent_libs_def sample_libs_def)
  have room: "local_room 260 (initial_local_state new_process)" by (rule local_room_initial) simp
  have op: "meaning 0 (CreateCompleteHandlerSet sample_agent_config) sample_agent_libs (Chain opening_steps)
      (text_arg ''2+2'') (sub_state (sub_state (initial_local_state new_process))) =
      (Ok (plain (KStr kInstructionTemplate)), write_console [Txt kInstructionTemplate] new_process)"
    unfolding initial by (rule sample_agent_opening)
  from math_agent_answers [OF config sample_agent_text op sample_agent_thought match _ room, of 4 "[]"]
  show ?thesis by (auto simp: initial)
qed

section \<open>The programs of one call\<close>

text \<open>
  The three programs that post a request run to the reply of that post: the request is the
  body, the flag the bearer token, and a transport error is the error of the run.
\<close>

lemma single_call_runs:
  assumes "hs (uri i) = Some h" and "handler_uri h = uri i" and "interface_type h = INLINE" and "CheckWellFormed h i = Ok ()"
    and "1 \<le> n" and "local_room 3 b"
    and "inline_ExecuteCall lib h i (text_arg s) empty_value (sub_state (sub_state b)) = (r, out)" and "r \<noteq> Diverge"
  shows "\<exists>b'. RunInternal (CreateLocalExecutor n hs lib None) (plain (KIntrinsic i)) (text_arg s) b = (r, b') \<and>
    sub_state (sub_state b') = out"
proof -
  have run: "runnable hs (Inline i)" using assms(1-4) by (simp add: GetHandler_def)
  have mean: "meaning 0 hs lib (Inline i) (text_arg s) (sub_state (sub_state b)) = (r, out)"
    using assms(1-4,7) by (simp add: run_intrinsic_def GetHandler_def GetInlineInterface_def Let_def lift_Ok)
  have data: "holds_data (text_arg s)" by (simp add: text_arg_def holds_data_def HasComputation_def)
  have size: "depth (Inline i) + 0 \<le> n" "local_room (handles 0 (Inline i) + 2) b" using assms(5,6) by (simp_all add: numeral_3_eq_3)
  show ?thesis using program_runs [OF run data size mean assms(8)] by auto
qed

lemma rest_program_runs:
  fixes lib :: "'c libs"
  assumes "custom_intrinsics_list config = [WolframAlpha]" and "1 \<le> n" and "local_room 3 b"
  defines "ex \<equiv> CreateLocalExecutor n (CreateCompleteHandlerSet config) lib None"
  shows "\<exists>b'. RunLlamaOnVertex (return (Some ex)) key u request b = (CurlClient_Post (libcurl lib) key u request, b')"
    and "\<exists>b'. RunOpenAI (return (Some ex)) key request b = (CurlClient_Post (libcurl lib) key kOpenAIEndPoint request, b')"
    and "\<exists>b'. RunGeminiOnVertex (return (Some ex)) key request b =
      (CurlClient_Post (libcurl lib) key kVertexEndPoint request, b')"
proof -
  have post: "CurlClient_Post (libcurl lib) key u request \<noteq> Diverge" for u
    by (auto simp: CurlClient_Post_def Let_def split: curl_result.split)
  have run: "\<exists>b'. RunInternal ex (intrinsic_with_args kRestCall
      [labeled_str ''method'' ''POST'', labeled_str ''uri'' u, labeled_str ''api_key'' key]) (text_arg request) b =
      (CurlClient_Post (libcurl lib) key u request, b')" for u
    using single_call_runs [where lib = lib and s = request and
        hs = "CreateCompleteHandlerSet config" and h = RestCall and
        i = "IntrinsicPb kRestCall (Some (plain (KStruct [labeled_str ''method'' ''POST'', labeled_str ''uri'' u,
          labeled_str ''api_key'' key])))", OF _ _ _ _ assms(2,3) _ post [of u]]
    by (auto simp: example_handlers [OF assms(1)] CheckWellFormed_defs static_parameter_def or_default_def
        RestCall_ExecuteCall_def element_def labeled_str_def lift_Ok kRestCallGet_def kRestCallPost_def lift_apply
        text_arg_def intrinsic_with_args_def ex_def)
  then show "\<exists>b'. RunLlamaOnVertex (return (Some ex)) key u request b = (CurlClient_Post (libcurl lib) key u request, b')"
    "\<exists>b'. RunOpenAI (return (Some ex)) key request b = (CurlClient_Post (libcurl lib) key kOpenAIEndPoint request, b')"
    "\<exists>b'. RunGeminiOnVertex (return (Some ex)) key request b =
      (CurlClient_Post (libcurl lib) key kVertexEndPoint request, b')"
    by (simp_all add: RunLlamaOnVertex_def RunOpenAI_def RunGeminiOnVertex_def CreateRestCall_def run_with_def
        Runner_Create_def Run_computation_def lift_Ok)
qed

text \<open>The custom concurrency interface gives what the threads give: the reply of the test model.\<close>

lemma custom_concurrency_result:
  assumes "1 \<le> n" and "local_room 3 b"
  shows "\<exists>b'. custom_concurrency_Run (return (Some (CreateLocalExecutor n (CreateCompleteHandlerSet default_config) lib
      (Some MyCustomConcurrencyInterface)))) b = (Ok (plain (KStr (test_model_output ''Boo!''))), b')"
proof -
  let ?hs = "CreateCompleteHandlerSet default_config" and ?i = "IntrinsicPb kModelInference (Some (plain (KStr ''test_model'')))"
  have h: "?hs kModelInference = Some (ModelInference Map.empty)"
    by (simp add: CreateCompleteHandlerSet_def built_in_handlers_def default_config_def AddHandler_def)
       (simp add: uri_defs)
  have "\<exists>b'. RunInternal (CreateLocalExecutor n ?hs lib None) (plain (KIntrinsic ?i)) (text_arg ''Boo!'') b =
      (Ok (plain (KStr (test_model_output ''Boo!''))), b')"
    using single_call_runs [where lib = lib and s = "''Boo!''" and hs = ?hs and h = "ModelInference Map.empty" and i = ?i,
        OF _ _ _ _ assms]
    by (auto simp: h CheckWellFormed_defs static_parameter_def or_default_def ModelInference_ExecuteCall_def
        text_arg_def return_apply)
  then show ?thesis
    by (simp add: custom_concurrency_Run_def CreateModelInference_def SetModelInference_def Runner_Create_with_def
        Run_arg_def MyCustomConcurrencyInterface_def CreateLocalExecutor_def thread_based_def lift_Ok
        static_parameter_def or_default_def)
qed

end
