(* ===== verification/Math_Agent.thy ===== *)
theory Math_Agent
  imports Example_Programs Stacks
begin

text \<open>
  The math agent of \<^verbatim>\<open>genc/cc/examples/math_tool_agent.cc\<close> on the default executor of
  \<^verbatim>\<open>examples/executors/executor_stacks.cc\<close>, with the functions that stack registers: the
  local cache, the ReAct helpers and the Gemini parser. A specification says what an agent
  of this kind does on a transcript of texts; the program, run through the runner, the
  control flow executor and the inline executor, does that.
\<close>

section \<open>The specification\<close>

text \<open>What was said, which the model is told, and what was printed.\<close>

record transcript =
  said :: "pvalue list"
  shown :: "string list"

definition say :: "string \<Rightarrow> (transcript, string) prog" where
  "say x = (\<lambda>t. (Ok x, t\<lparr>said := said t @ [plain (KStr x)]\<rparr>))"

definition print_text :: "string \<Rightarrow> (transcript, string) prog" where
  "print_text x = (\<lambda>t. (Ok x, t\<lparr>shown := shown t @ [x]\<rparr>))"

definition history_text :: "pvalue list \<Rightarrow> string" where
  "history_text ms = concat (map (\<lambda>v. str v @ ''\<newline>'') (lastn 200 ms))"

text \<open>The model is asked over HTTP; the reply is cut down to a thought and an action.\<close>

definition gemini_url :: "string \<Rightarrow> string" where
  "gemini_url api_key = ''https://generativelanguage.googleapis.com/v1beta/models/'' @
     ''gemini-pro:generateContent?key='' @ api_key"

definition text_of :: "pvalue outcome \<Rightarrow> string outcome" where
  "text_of r = try_value r (\<lambda>v. Ok (str v))"

definition parse_reply :: "re_capture \<Rightarrow> string \<Rightarrow> string" where
  "parse_reply R reply =
     (let s = BeforeFirstObservationOrOriginalText reply
      in thought_action (captured (R False kThoughtPattern s))
        (case R False kActionPattern s of Some a \<Rightarrow> a | None \<Rightarrow> ExtractFinish R s))"

definition ask_model :: "'c libs \<Rightarrow> re_capture \<Rightarrow> string \<Rightarrow> string \<Rightarrow> string outcome" where
  "ask_model lib R api_key history =
     try_value (text_of (CurlClient_Post (libcurl lib) [] (gemini_url api_key)
       (gemini_request_prefix @ history @ gemini_request_suffix))) (\<lambda>body.
     try_value (text_of (GetTopCandidateAsText lib (plain (KStr body)))) (\<lambda>reply.
     Ok (parse_reply R reply)))"

text \<open>The tool is asked the question in the action; its answer becomes an observation.\<close>

definition wolfram_template :: string where
  "wolfram_template =
     ''{% if queryresult.pods %}{{queryresult.pods.0.subpods.0.plaintext}}{% '' @ ''endif %}''"

definition use_tool :: "'c libs \<Rightarrow> re_capture \<Rightarrow> string \<Rightarrow> string \<Rightarrow> string outcome" where
  "use_tool lib R appid thought =
     try_value (CallShortAnswersAPI (libcurl lib) appid (captured (R False kMathPattern thought))) (\<lambda>reply.
     case json_parse lib reply of
       None \<Rightarrow> InternalError [Txt ''Failed parsing json input to InjaTemplate: '', DebugString (plain (KStr reply))]
     | Some j \<Rightarrow> try_value (inja_render lib wolfram_template j) (\<lambda>answer.
         Ok (''Observation: '' @ answer @ ''\<newline>'')))"

definition think :: "'c libs \<Rightarrow> re_capture \<Rightarrow> string \<Rightarrow> string \<Rightarrow> (transcript, string) prog" where
  "think lib R api_key last_text = (\<lambda>t. GENC_TRY (lift (ask_model lib R api_key (history_text (said t)))) print_text t)"

definition act :: "'c libs \<Rightarrow> re_capture \<Rightarrow> string \<Rightarrow> string \<Rightarrow> (transcript, string) prog" where
  "act lib R appid thought =
     GENC_TRY (say thought) (\<lambda>_.
     GENC_TRY (lift (use_tool lib R appid thought)) (\<lambda>observation.
     GENC_TRY (print_text observation) say))"

fun react_loop ::
  "'c libs \<Rightarrow> re_capture \<Rightarrow> string \<Rightarrow> string \<Rightarrow> nat \<Rightarrow> string \<Rightarrow> (transcript, string) prog" where
  "react_loop lib R api_key appid 0 last_text = return last_text"
| "react_loop lib R api_key appid (Suc n) last_text =
     GENC_TRY (think lib R api_key last_text) (\<lambda>thought.
     if PartialMatch lib thought ''Finish'' then return thought
     else GENC_TRY (act lib R appid thought) (react_loop lib R api_key appid n))"

text \<open>The prompt is filled with the question; what an empty template gives is not needed here.\<close>

definition fill_prompt :: "'c libs \<Rightarrow> string \<Rightarrow> string outcome" where
  "fill_prompt lib question =
     try_value (of_loop (find_parameters (FindAndConsume lib) kInstructionTemplate [] [])) (\<lambda>(parameter, parameters_set).
     Ok (StrReplaceAll lib kInstructionTemplate
       (if length parameters_set = 1 then [(parameter, question)] else [])))"

definition react_agent ::
  "'c libs \<Rightarrow> re_capture \<Rightarrow> string \<Rightarrow> string \<Rightarrow> string \<Rightarrow> (transcript, string) prog" where
  "react_agent lib R api_key appid question =
     GENC_TRY (lift (fill_prompt lib question)) (\<lambda>prompt.
     GENC_TRY (say prompt) (\<lambda>_.
     GENC_TRY (print_text prompt) (react_loop lib R api_key appid 8)))"

section \<open>Steps that do what the specification says\<close>

definition as_text :: "string outcome \<Rightarrow> pvalue outcome" where
  "as_text r = try_value r (\<lambda>s. Ok (plain (KStr s)))"

definition tells :: "message list \<Rightarrow> transcript \<Rightarrow> ('m, 'x) stack_process \<Rightarrow> bool" where
  "tells out t p \<longleftrightarrow> remembers p (said t) \<and> init_once p = p \<and>
     console_lines p = out @ map (\<lambda>s. [Txt s]) (shown t)"

definition follows ::
  "message list \<Rightarrow> pvalue outcome \<times> ('m, 'x) stack_process \<Rightarrow> string outcome \<times> transcript \<Rightarrow> bool" where
  "follows out run spec \<longleftrightarrow> fst run = as_text (fst spec) \<and> tells out (snd spec) (snd run)"

definition does :: "('m, 'x) stack_memory step \<Rightarrow> (string \<Rightarrow> (transcript, string) prog) \<Rightarrow> bool" where
  "does f g \<longleftrightarrow> (\<forall>out x t p. tells out t p \<longrightarrow> follows out (f (plain (KStr x)) p) (g x t))"

definition pure_text :: "('m, 'x) stack_memory step \<Rightarrow> (string \<Rightarrow> string outcome) \<Rightarrow> bool" where
  "pure_text f h \<longleftrightarrow> (\<forall>x p. f (plain (KStr x)) p = (as_text (h x), p))"

lemma as_text_simps [simp]:
  "as_text (Ok s) = Ok (plain (KStr s))" "as_text (Err e) = Err e" "as_text (Crash c) = Crash c"
  "as_text Diverge = Diverge"
  by (simp_all add: as_text_def)

lemma doesD: "does f g \<Longrightarrow> tells out t p \<Longrightarrow> follows out (f (plain (KStr x)) p) (g x t)"
  by (simp add: does_def)

lemma followsE:
  assumes "follows out (r, p) (q, t)"
  obtains x where "r = Ok (plain (KStr x))" and "q = Ok x" and "tells out t p"
    | e where "r = Err e" and "q = Err e" and "tells out t p"
    | c where "r = Crash c" and "q = Crash c" and "tells out t p"
    | "r = Diverge" and "q = Diverge" and "tells out t p"
  using assms that by (cases q) (simp_all add: follows_def)

lemma does_pure: "pure_text f h \<Longrightarrow> does f (\<lambda>x. lift (h x))"
  by (simp add: does_def pure_text_def follows_def lift_apply)

lemma pure_then:
  "pure_text f h \<Longrightarrow> pure_text f' h' \<Longrightarrow> pure_text (\<lambda>x. GENC_TRY (f x) f') (\<lambda>x. try_value (h x) h')"
  unfolding pure_text_def
proof (intro allI)
  fix x p
  assume "\<forall>x p. f (plain (KStr x)) p = (as_text (h x), p)" "\<forall>x p. f' (plain (KStr x)) p = (as_text (h' x), p)"
  then show "GENC_TRY (f (plain (KStr x))) f' p = (as_text (try_value (h x) h'), p)"
    by (cases "h x") (simp_all add: GENC_TRY_apply)
qed

lemma does_try:
  assumes "does f g" and "does f' g'"
  shows "does (\<lambda>x. GENC_TRY (f x) f') (\<lambda>x. GENC_TRY (g x) g')"
  unfolding does_def
proof (intro allI impI)
  fix out x t and p :: "('a, 'b) stack_process"
  assume "tells out t p"
  then have 1: "follows out (f (plain (KStr x)) p) (g x t)" using assms(1) by (simp add: does_def)
  obtain r p' where r: "f (plain (KStr x)) p = (r, p')" by (cases "f (plain (KStr x)) p")
  obtain q t' where q: "g x t = (q, t')" by (cases "g x t")
  from 1 [unfolded r q] show "follows out (GENC_TRY (f (plain (KStr x))) f' p) (GENC_TRY (g x) g' t)"
    by (rule followsE)
       (use doesD [OF assms(2)] r q in \<open>simp_all add: GENC_TRY_apply follows_def [of _ "(Err _, _)"]
          follows_def [of _ "(Crash _, _)"] follows_def [of _ "(Diverge, _)"]\<close>)
qed

lemma does_return: "does return return"
  by (simp add: does_def follows_def return_apply)

lemma does_fold: "list_all2 does fs gs \<Longrightarrow> does (fold_try (\<lambda>f. f) fs) (fold_try (\<lambda>g. g) gs)"
proof (induction rule: list_all2_induct)
  case (Cons f fs g gs)
  then show ?case using does_try [OF Cons(1) Cons.IH] by simp
qed (simp add: fold_try_Nil does_return)

text \<open>In a pass of a conditional chain, steps that give text pass it on.\<close>

lemma does_one_pass:
  assumes "list_all2 does fs gs" and "does (one_pass rest k) h"
  shows "does (one_pass (fs @ rest) k) (\<lambda>x. GENC_TRY (fold_try (\<lambda>g. g) gs x) h)"
  using assms(1)
proof (induction rule: list_all2_induct)
  case Nil
  then show ?case using assms(2) by (simp add: fold_try_Nil)
next
  case (Cons f fs g gs)
  have "does (\<lambda>x. GENC_TRY (f x) (\<lambda>y. if \<not> has_boolean y then GENC_TRY (create_again y) (one_pass (fs @ rest) k)
      else if boolean y then return x else one_pass (fs @ rest) k x)) (\<lambda>x. GENC_TRY (g x) (\<lambda>y. GENC_TRY (fold_try (\<lambda>g. g) gs y) h))"
    unfolding does_def
  proof (intro allI impI)
    fix out x t and p :: "('a, 'b) stack_process"
    assume "tells out t p"
    then have 1: "follows out (f (plain (KStr x)) p) (g x t)" using Cons(1) by (simp add: does_def)
    obtain r p' where r: "f (plain (KStr x)) p = (r, p')" by (cases "f (plain (KStr x)) p")
    obtain q t' where q: "g x t = (q, t')" by (cases "g x t")
    from 1 [unfolded r q] show "follows out (GENC_TRY (f (plain (KStr x))) (\<lambda>y. if \<not> has_boolean y
          then GENC_TRY (create_again y) (one_pass (fs @ rest) k)
          else if boolean y then return (plain (KStr x)) else one_pass (fs @ rest) k (plain (KStr x))) p)
        (GENC_TRY (g x) (\<lambda>y. GENC_TRY (fold_try (\<lambda>g. g) gs y) h) t)"
      by (rule followsE)
         (use doesD [OF Cons.IH] r q in \<open>simp_all add: GENC_TRY_apply [of "f _"] GENC_TRY_apply [of "g _"]
            text_is_data follows_def [of _ "(Err _, _)"] follows_def [of _ "(Crash _, _)"] follows_def [of _ "(Diverge, _)"]\<close>)
  qed
  then show ?case by (simp add: GENC_TRY_assoc)
qed

section \<open>The steps of the agent on the default stack\<close>

text \<open>The handlers of the default stack, and the functions it registers.\<close>

definition stack_meaning ::
  "'c libs \<Rightarrow> (json \<Rightarrow> string outcome) \<Rightarrow> re_capture \<Rightarrow> ('m, 'x, 'f) llama_lib \<Rightarrow> (string \<Rightarrow> i32 option)
     \<Rightarrow> program \<Rightarrow> ('m, 'x) stack_memory step" where
  "stack_meaning lib dump R L atoi = meaning 0 (CreateCompleteHandlerSet (default_stack_config lib dump R L atoi)) lib"

lemma default_stack_intrinsics: "custom_intrinsics_list (default_stack_config lib dump R L atoi) = [WolframAlpha]"
  by (simp add: default_stack_config_def default_config_def Let_def SetLlamaCppModelInferenceHandler_def)

lemma default_stack_functions:
  "custom_function_map (default_stack_config lib dump R L atoi) = register on_cache cache_functions
     (GeminiParser_SetCustomFunctions lib (ReAct_SetCustomFunctions R Map.empty))"
  by (simp add: default_stack_config_def default_config_def Let_def SetLlamaCppModelInferenceHandler_def)

lemma agent_functions:
  "custom_function_map (default_stack_config lib dump R L atoi) ''/local_cache/read'' =
     Some (on_cache (cache_read ''\<newline>'' ''default_key''))"
  "custom_function_map (default_stack_config lib dump R L atoi) ''/local_cache/write'' =
     Some (on_cache (cache_write ''default_key''))"
  "custom_function_map (default_stack_config lib dump R L atoi) ''/gemini_parser/wrap_text_as_input_json'' =
     Some (\<lambda>v. lift (WrapTextAsInputJson v))"
  "custom_function_map (default_stack_config lib dump R L atoi) ''/gemini_parser/get_top_candidate_as_text'' =
     Some (\<lambda>v. lift (GetTopCandidateAsText lib v))"
  "custom_function_map (default_stack_config lib dump R L atoi) ''/react/parse_thought_action'' =
     Some (ParseThoughtAction R)"
  "custom_function_map (default_stack_config lib dump R L atoi) ''/react/extract_math_question'' =
     Some (ExtractMathQuestion R)"
  "custom_function_map (default_stack_config lib dump R L atoi) ''/react/format_observation'' =
     Some FormatObservation"
  by (simp_all add: default_stack_functions register_def map_add_def cache_functions_def
      SetCustomFunctionsForLocalValueCache_def kLocalCacheReadUri_def kLocalCacheWriteUri_def kLocalCacheRemoveUri_def
      GeminiParser_SetCustomFunctions_def ReAct_SetCustomFunctions_def)

lemma stack_function:
  assumes "custom_function_map (default_stack_config lib dump R L atoi) u = Some f" and "u \<noteq> []"
  shows "stack_meaning lib dump R L atoi (function_step u) = f"
  unfolding stack_meaning_def
  by (rule custom_function_meaning(2) [OF _ assms]) (simp add: default_stack_intrinsics uri_defs)

lemmas agent_steps = agent_functions [THEN stack_function, simplified]

lemma does_write: "does (stack_meaning lib dump R L atoi (function_step ''/local_cache/write'')) say"
  unfolding agent_steps does_def
proof (intro allI impI)
  fix out x t and p :: "('a, 'b) stack_process"
  assume "tells out t p"
  then show "follows out (on_cache (cache_write ''default_key'') (plain (KStr x)) p) (say x t)"
    using write_remembers [of p "said t" "plain (KStr x)"] by (auto simp: tells_def follows_def say_def)
qed

lemma does_read:
  "does (stack_meaning lib dump R L atoi (function_step ''/local_cache/read'')) (\<lambda>x t. (Ok (history_text (said t)), t))"
  unfolding agent_steps does_def
  by (auto simp: tells_def follows_def history_text_def read_remembers)

lemma init_once_write_console: "init_once (write_console l p) = write_console l (init_once p)"
  by (simp add: init_once_def InitExecutorStacksContext_def write_console_def)

lemma tells_print: "tells out t p \<Longrightarrow> tells out (t\<lparr>shown := shown t @ [x]\<rparr>) (write_console [Txt x] p)"
  by (simp add: tells_def init_once_write_console) (simp add: write_console_def)

lemma does_log: "does (stack_meaning lib dump R L atoi log_step) print_text"
  unfolding stack_meaning_def does_def inline_meaning(2) [OF default_stack_intrinsics]
  by (simp add: Logger_ExecuteCall_def follows_def print_text_def tells_print)

lemma stack_inline:
  assumes "CreateCompleteHandlerSet (default_stack_config lib dump R L atoi) (uri i) = Some h"
    and "handler_uri h = uri i" and "CheckWellFormed h i = Ok ()" and "interface_type h = INLINE"
  shows "stack_meaning lib dump R L atoi (Inline i) = (\<lambda>x. inline_ExecuteCall lib h i x empty_value)"
  using assms by (simp add: fun_eq_iff stack_meaning_def run_intrinsic_def GetHandler_def GetInlineInterface_def Let_def lift_Ok)

lemma post_text: "CurlClient_Post c key url body = as_text (text_of (CurlClient_Post c key url body))"
  by (auto simp: text_of_def as_text_def CurlClient_Post_def Let_def split: curl_result.split)

lemma candidate_text: "GetTopCandidateAsText lib v = as_text (text_of (GetTopCandidateAsText lib v))"
proof (cases "json_parse lib (str v)")
  case (Some j)
  then show ?thesis
    by (cases "inja_render lib extract_first_candidate_as_text j") (simp_all add: GetTopCandidateAsText_def text_of_def)
qed (simp add: GetTopCandidateAsText_def text_of_def)

lemma fold_try_Cons_fun: "fold_try f (x # xs) = (\<lambda>st. GENC_TRY (f x st) (fold_try f xs))"
  by (rule ext) simp

lemma pure_post:
  "pure_text (stack_meaning lib dump R L atoi (Inline (IntrinsicPb kRestCall (Some (plain (KStruct [labeled_str ''method'' ''POST'',
     labeled_str ''uri'' u, labeled_str ''api_key'' k]))))))
   (\<lambda>x. text_of (CurlClient_Post (libcurl lib) k u x))"
  unfolding pure_text_def
  by (subst stack_inline [where h = RestCall])
     (simp_all add: example_handlers [OF default_stack_intrinsics] CheckWellFormed_defs static_parameter_def or_default_def
        RestCall_ExecuteCall_def element_def labeled_str_def kRestCallGet_def kRestCallPost_def lift_apply lift_Ok
        post_text [symmetric])

lemma pure_model:
  "pure_text (stack_meaning lib dump R L atoi (model_steps api_key)) (\<lambda>x.
     try_value (text_of (CurlClient_Post (libcurl lib) [] (gemini_url api_key)
       (gemini_request_prefix @ x @ gemini_request_suffix))) (\<lambda>body.
     text_of (GetTopCandidateAsText lib (plain (KStr body)))))"
proof -
  have wrap: "pure_text (stack_meaning lib dump R L atoi (function_step ''/gemini_parser/wrap_text_as_input_json''))
      (\<lambda>x. Ok (gemini_request_prefix @ x @ gemini_request_suffix))"
    by (simp add: agent_steps pure_text_def WrapTextAsInputJson_def lift_apply)
  have top: "pure_text (stack_meaning lib dump R L atoi (function_step ''/gemini_parser/get_top_candidate_as_text''))
      (\<lambda>x. text_of (GetTopCandidateAsText lib (plain (KStr x))))"
    by (simp add: agent_steps pure_text_def candidate_text [symmetric] lift_apply)
  have "stack_meaning lib dump R L atoi (model_steps api_key) = (\<lambda>x. GENC_TRY
      (stack_meaning lib dump R L atoi (function_step ''/gemini_parser/wrap_text_as_input_json'') x) (\<lambda>y. GENC_TRY
      (stack_meaning lib dump R L atoi (Inline (IntrinsicPb kRestCall (Some (plain (KStruct [labeled_str ''method'' ''POST'',
        labeled_str ''uri'' (gemini_url api_key), labeled_str ''api_key'' '''']))))) y)
      (stack_meaning lib dump R L atoi (function_step ''/gemini_parser/get_top_candidate_as_text''))))"
    by (simp add: stack_meaning_def model_steps_def gemini_url_def fold_try_Cons_fun fold_try_Nil del: meaning.simps(1) fold_try.simps)
  then show ?thesis using pure_then [OF wrap pure_then [OF pure_post top]] by simp
qed

lemma wolfram_text:
  "WolframAlpha_ExecuteCall lib (IntrinsicPb kWolframAlpha (Some (labeled_str ''appid'' appid))) (plain (KStr x)) empty_value p =
    (as_text (CallShortAnswersAPI (libcurl lib) appid x), p)"
  by (cases "CallShortAnswersAPI (libcurl lib) appid x")
     (simp_all add: WolframAlpha_ExecuteCall_def static_parameter_def or_default_def labeled_str_def lift_apply
        return_apply GENC_TRY_apply)

lemma inja_text:
  "InjaTemplate_ExecuteCall lib (IntrinsicPb kInjaTemplate (Some (plain (KStr wolfram_template)))) (plain (KStr x)) empty_value p =
    (as_text (case json_parse lib x of
       None \<Rightarrow> InternalError [Txt ''Failed parsing json input to InjaTemplate: '', DebugString (plain (KStr x))]
     | Some j \<Rightarrow> inja_render lib wolfram_template j), p)"
proof (cases "json_parse lib x")
  case (Some j)
  then show ?thesis
    by (cases "inja_render lib wolfram_template j")
       (simp_all add: InjaTemplate_ExecuteCall_def static_parameter_def or_default_def lift_apply return_apply GENC_TRY_apply)
qed (simp add: InjaTemplate_ExecuteCall_def lift_apply)

lemma pure_math:
  "pure_text (stack_meaning lib dump R L atoi (math_steps appid)) (\<lambda>x.
     try_value (CallShortAnswersAPI (libcurl lib) appid x) (\<lambda>reply. case json_parse lib reply of
       None \<Rightarrow> InternalError [Txt ''Failed parsing json input to InjaTemplate: '', DebugString (plain (KStr reply))]
     | Some j \<Rightarrow> inja_render lib wolfram_template j))"
proof -
  let ?M = "stack_meaning lib dump R L atoi"
  let ?wolfram = "Inline (IntrinsicPb kWolframAlpha (Some (labeled_str ''appid'' appid)))"
  let ?inja = "Inline (IntrinsicPb kInjaTemplate (Some (plain (KStr wolfram_template))))"
  note handlers = example_handlers [OF default_stack_intrinsics] CheckWellFormed_defs static_parameter_def or_default_def
  have wolfram: "pure_text (?M ?wolfram) (CallShortAnswersAPI (libcurl lib) appid)"
  proof -
    have "?M ?wolfram = (\<lambda>x. inline_ExecuteCall lib WolframAlpha (IntrinsicPb kWolframAlpha (Some (labeled_str ''appid'' appid))) x empty_value)"
      by (rule stack_inline) (simp_all add: handlers labeled_str_def)
    then show ?thesis by (simp add: pure_text_def wolfram_text)
  qed
  have inja: "pure_text (?M ?inja) (\<lambda>x. case json_parse lib x of
       None \<Rightarrow> InternalError [Txt ''Failed parsing json input to InjaTemplate: '', DebugString (plain (KStr x))]
     | Some j \<Rightarrow> inja_render lib wolfram_template j)"
  proof -
    have "?M ?inja = (\<lambda>x. inline_ExecuteCall lib InjaTemplate (IntrinsicPb kInjaTemplate (Some (plain (KStr wolfram_template)))) x empty_value)"
      by (rule stack_inline) (simp_all add: handlers)
    then show ?thesis by (simp add: pure_text_def inja_text)
  qed
  have "?M (math_steps appid) = (\<lambda>x. GENC_TRY (?M ?wolfram x) (?M ?inja))"
    by (simp add: stack_meaning_def math_steps_def wolfram_template_def fold_try_Cons_fun fold_try_Nil del: meaning.simps(1) fold_try.simps)
  then show ?thesis using pure_then [OF wolfram inja] by simp
qed

section \<open>The program does what the specification says\<close>

lemma thought_does:
  "list_all2 does (map (stack_meaning lib dump R L atoi) (thought_steps api_key))
     [\<lambda>x t. (Ok (history_text (said t)), t),
      \<lambda>x. lift (try_value (text_of (CurlClient_Post (libcurl lib) [] (gemini_url api_key)
         (gemini_request_prefix @ x @ gemini_request_suffix))) (\<lambda>body. text_of (GetTopCandidateAsText lib (plain (KStr body))))),
      \<lambda>x. lift (Ok (parse_reply R x)), print_text]"
proof -
  have "pure_text (stack_meaning lib dump R L atoi (function_step ''/react/parse_thought_action''))
      (\<lambda>x. Ok (parse_reply R x))"
    by (simp add: agent_steps pure_text_def ParseThoughtAction_def parse_reply_def Let_def str_value_def return_apply)
  then show ?thesis
    unfolding thought_steps_def list.map
    by (intro list.rel_intros does_read does_log does_pure pure_model)
qed

lemma lift_steps: "GENC_TRY (lift r) (\<lambda>x. GENC_TRY (lift (h x)) k) = GENC_TRY (lift (try_value r h)) k"
  by (cases r) simp_all

lemma try_value_steps: "try_value (try_value r f) g = try_value r (\<lambda>x. try_value (f x) g)"
  by (cases r) simp_all

lemma think_steps:
  "fold_try (\<lambda>g. g)
     [\<lambda>x t. (Ok (history_text (said t)), t),
      \<lambda>x. lift (try_value (text_of (CurlClient_Post (libcurl lib) [] (gemini_url api_key)
         (gemini_request_prefix @ x @ gemini_request_suffix))) (\<lambda>body. text_of (GetTopCandidateAsText lib (plain (KStr body))))),
      \<lambda>x. lift (Ok (parse_reply R x)), print_text] = think lib R api_key"
  by (simp add: think_def ask_model_def fold_try_Cons_fun fold_try_Nil lift_steps try_value_steps fun_eq_iff
      GENC_TRY_apply [of "\<lambda>t. (Ok _, _)"] GENC_TRY_apply [of "\<lambda>t. (Ok (_ t), t)"] del: fold_try.simps GENC_TRY_lift_Ok)

lemma tools_do:
  "list_all2 does (map (stack_meaning lib dump R L atoi) (tool_steps appid))
     [say, \<lambda>x. lift (Ok (captured (R False kMathPattern x))),
      \<lambda>x. lift (try_value (CallShortAnswersAPI (libcurl lib) appid x) (\<lambda>reply. case json_parse lib reply of
         None \<Rightarrow> InternalError [Txt ''Failed parsing json input to InjaTemplate: '', DebugString (plain (KStr reply))]
       | Some j \<Rightarrow> inja_render lib wolfram_template j)),
      \<lambda>x. lift (Ok (''Observation: '' @ x @ ''\<newline>'')), print_text, say]"
proof -
  have "pure_text (stack_meaning lib dump R L atoi (function_step ''/react/extract_math_question''))
      (\<lambda>x. Ok (captured (R False kMathPattern x)))"
    and "pure_text (stack_meaning lib dump R L atoi (function_step ''/react/format_observation''))
      (\<lambda>x. Ok (''Observation: '' @ x @ ''\<newline>''))"
    by (simp_all add: agent_steps pure_text_def ExtractMathQuestion_def FormatObservation_def str_value_def return_apply)
  then show ?thesis
    unfolding tool_steps_def list.map
    by (intro list.rel_intros does_write does_log does_pure pure_math)
qed

lemma GENC_TRY_say: "GENC_TRY (say x) k t = k x (t\<lparr>said := said t @ [plain (KStr x)]\<rparr>)"
  by (simp add: GENC_TRY_apply say_def)

lemma act_steps:
  "fold_try (\<lambda>g. g)
     [say, \<lambda>x. lift (Ok (captured (R False kMathPattern x))),
      \<lambda>x. lift (try_value (CallShortAnswersAPI (libcurl lib) appid x) (\<lambda>reply. case json_parse lib reply of
         None \<Rightarrow> InternalError [Txt ''Failed parsing json input to InjaTemplate: '', DebugString (plain (KStr reply))]
       | Some j \<Rightarrow> inja_render lib wolfram_template j)),
      \<lambda>x. lift (Ok (''Observation: '' @ x @ ''\<newline>'')), print_text, say] = act lib R appid"
proof -
  have "try_value (try_value (CallShortAnswersAPI (libcurl lib) appid (captured (R False kMathPattern x))) (\<lambda>reply. case json_parse lib reply of
         None \<Rightarrow> InternalError [Txt ''Failed parsing json input to InjaTemplate: '', DebugString (plain (KStr reply))]
       | Some j \<Rightarrow> inja_render lib wolfram_template j)) (\<lambda>x. Ok (''Observation: '' @ x @ ''\<newline>'')) = use_tool lib R appid x" for x
    by (auto simp: use_tool_def try_value_steps intro!: arg_cong2 [where f = try_value] split: option.split)
  then show ?thesis
    by (simp add: fun_eq_iff act_def fold_try_Cons_fun fold_try_Nil lift_steps GENC_TRY_say
        del: fold_try.simps GENC_TRY_lift_Ok)
qed

lemma finish_says:
  "stack_meaning lib dump R L atoi finish_test (plain (KStr x)) p =
     (Ok (plain (KBoolean (PartialMatch lib x ''Finish''))), p)"
  by (simp add: stack_meaning_def inline_meaning [OF default_stack_intrinsics] RegexPartialMatch_ExecuteCall_def
      static_parameter_def or_default_def return_apply del: meaning.simps)

lemma does_rounds:
  "does (passes n (map (stack_meaning lib dump R L atoi) (thought_steps api_key @ finish_test # tool_steps appid)))
     (react_loop lib R api_key appid n)"
proof (induction n)
  case (Suc n)
  let ?M = "stack_meaning lib dump R L atoi" and ?loop = "react_loop lib R api_key appid"
  let ?k = "passes n (map ?M (thought_steps api_key @ finish_test # tool_steps appid))"
  have "does (one_pass [] ?k) (?loop n)" using Suc by (simp add: does_def)
  from does_one_pass [OF tools_do this] have tool: "does (one_pass (map ?M (tool_steps appid)) ?k) (\<lambda>x. GENC_TRY (act lib R appid x) (?loop n))"
    unfolding act_steps append_Nil2 .
  have "does (one_pass (?M finish_test # map ?M (tool_steps appid)) ?k)
      (\<lambda>x. if PartialMatch lib x ''Finish'' then return x else GENC_TRY (act lib R appid x) (?loop n))"
    using tool by (simp add: does_def GENC_TRY_apply [of "?M finish_test _"] finish_says follows_def return_apply)
  from does_one_pass [OF thought_does this] show ?case
    unfolding think_steps by (simp add: fun_eq_iff)
qed (simp add: does_return)


lemma opening_steps_do:
  assumes "tells out t p"
  shows "follows out (fold_try (\<lambda>f. f) (map (stack_meaning lib dump R L atoi) opening_steps) (text_arg question) p)
    (GENC_TRY (lift (fill_prompt lib question)) (\<lambda>prompt. GENC_TRY (say prompt) (\<lambda>_. print_text prompt)) t)"
proof -
  let ?M = "stack_meaning lib dump R L atoi"
  let ?prompt = "Inline (IntrinsicPb kPromptTemplate (Some (plain (KStr kInstructionTemplate))))"
  have "?M ?prompt = (\<lambda>x. inline_ExecuteCall lib PromptTemplate
      (IntrinsicPb kPromptTemplate (Some (plain (KStr kInstructionTemplate)))) x empty_value)"
    by (rule stack_inline) (simp_all add: example_handlers [OF default_stack_intrinsics] CheckWellFormed_defs
        static_parameter_def or_default_def)
  then have prompt: "?M ?prompt (text_arg question) = lift (as_text (fill_prompt lib question))"
    by (cases "of_loop (find_parameters (FindAndConsume lib) kInstructionTemplate [] [])")
       (auto simp: fun_eq_iff PromptTemplate_ExecuteCall_def fill_prompt_def static_parameter_def or_default_def
          lift_apply return_apply GENC_TRY_apply text_arg_def)
  have rest: "does (\<lambda>x. GENC_TRY (?M (function_step ''/local_cache/write'') x) (?M log_step))
      (\<lambda>x. GENC_TRY (say x) (\<lambda>_. print_text x))"
    using does_try [OF does_write does_log, of lib dump R L atoi lib dump R L atoi] by (simp add: does_def GENC_TRY_say)
  show ?thesis
    using doesD [OF rest assms] assms
    by (cases "fill_prompt lib question")
       (simp_all add: opening_steps_def fold_try_Cons_fun fold_try_Nil prompt lift_apply follows_def del: fold_try.simps)
qed

lemma agent_does:
  assumes "tells out t p"
  shows "follows out (stack_meaning lib dump R L atoi (math_agent api_key appid) (text_arg question) p)
    (react_agent lib R api_key appid question t)"
proof -
  let ?M = "stack_meaning lib dump R L atoi"
  let ?first = "fold_try (\<lambda>f. f) (map ?M opening_steps) (text_arg question)"
  let ?spec = "GENC_TRY (lift (fill_prompt lib question)) (\<lambda>prompt. GENC_TRY (say prompt) (\<lambda>_. print_text prompt))"
  let ?rounds = "passes 8 (map ?M (thought_steps api_key @ finish_test # tool_steps appid))"
  have M: "?M (math_agent api_key appid) (text_arg question) p = GENC_TRY ?first ?rounds p"
    by (simp add: stack_meaning_def math_agent_def fold_try_append fold_try_Cons_fun fold_try_Nil del: passes.simps fold_try.simps)
  have S: "react_agent lib R api_key appid question t = GENC_TRY ?spec (react_loop lib R api_key appid 8) t"
    by (cases "fill_prompt lib question")
       (simp_all add: react_agent_def GENC_TRY_assoc GENC_TRY_say GENC_TRY_apply [of "\<lambda>a. print_text _ (_ a)"] GENC_TRY_apply [of "print_text _"] del: react_loop.simps)
  obtain r p' where r: "?first p = (r, p')" by (cases "?first p")
  obtain q t' where q: "?spec t = (q, t')" by (cases "?spec t")
  from opening_steps_do [OF assms, of lib dump R L atoi question, unfolded r q] show ?thesis
    unfolding M S
    by (rule followsE)
       (use doesD [OF does_rounds] r q in \<open>simp_all add: GENC_TRY_apply [of ?first] GENC_TRY_apply [of ?spec] follows_def
          del: passes.simps react_loop.simps\<close>)
qed

section \<open>The agent in a process\<close>

text \<open>A program makes its executor in the process it runs in.\<close>

definition new_executor ::
  "(('m, 'x) stack_process, ('m, 'x) stack_executor) prog
     \<Rightarrow> (ValueId, ('m, 'x) stack_memory local_state) executor_factory" where
  "new_executor create b = (case create (sub_state (sub_state b)) of
      (r, p) \<Rightarrow> (try_value r (\<lambda>ex. Ok (Some ex)), initial_local_state p))"

text \<open>
  C8: the math agent on the default executor is the ReAct loop of its specification. In a
  process that remembers some messages, the program records and prints the filled prompt
  and then, at most eight times, asks the model about the last two hundred messages and
  prints the parsed reply; it ends when that says \<^verbatim>\<open>Finish\<close>, and else records the reply, asks
  Wolfram Alpha the question in it, and prints and records the observation. It gives the
  text, the error or the crash of the specification; the process then remembers what was
  said, and its output has grown by what was printed.
\<close>

theorem math_agent_is_react_loop:
  assumes "react_agent lib R api_key appid question \<lparr>said = ms, shown = []\<rparr> = (r, t)" and "r \<noteq> Diverge"
    and "remembers (sub_state (sub_state b)) ms" and "4 \<le> n"
  shows "\<exists>b'. RunAgent (new_executor (CreateDefaultExecutor n lib dump R L atoi)) api_key appid question b = (as_text r, b')
    \<and> remembers (sub_state (sub_state b')) (said t)
    \<and> console_lines (sub_state (sub_state b')) =
        console_lines (sub_state (sub_state b)) @ map (\<lambda>s. [Txt s]) (shown t)"
proof -
  define p where "p = init_once (sub_state (sub_state b))"
  let ?hs = "CreateCompleteHandlerSet (default_stack_config lib dump R L atoi)"
  let ?b = "initial_local_state p"
  have create: "new_executor (CreateDefaultExecutor n lib dump R L atoi) b = (Ok (Some (CreateLocalExecutor n ?hs lib None)), ?b)"
    by (simp add: new_executor_def CreateDefaultExecutor_def CreateDefaultExecutorWithConcurrencyInterface_def
        create_with_def return_apply p_def)
  have "tells (console_lines (sub_state (sub_state b))) \<lparr>said = ms, shown = []\<rparr> p"
    using assms(3) by (simp add: tells_def p_def)
  from agent_does [OF this, of lib dump R L atoi api_key appid question] obtain p' where
    mean: "meaning 0 ?hs lib (math_agent api_key appid) (text_arg question) p = (as_text r, p')"
    and tells: "tells (console_lines (sub_state (sub_state b))) t p'"
    unfolding assms(1) follows_def stack_meaning_def by (auto simp: prod_eq_iff)
  have sub: "sub_state (sub_state ?b) = p" by (simp add: initial_local_state_def initial_state_def)
  have answered: "as_text r \<noteq> Diverge" using assms(2) by (cases r) simp_all
  have data: "holds_data (text_arg question)" by (simp add: text_arg_def holds_data_def HasComputation_def)
  have room: "local_room (handles 0 (math_agent api_key appid) + 2) ?b"
    by (rule local_room_initial) (simp add: math_agent_size)
  have "depth (math_agent api_key appid) + 0 \<le> n" using assms(4) by (simp add: math_agent_size)
  from program_runs [OF math_agent_runnable [OF default_stack_intrinsics] data this room, unfolded sub, OF mean answered]
  obtain b' where b': "RunInternal (CreateLocalExecutor n ?hs lib None) (plain (KIntrinsic (program_pb (math_agent api_key appid))))
      (text_arg question) ?b = (as_text r, b')" "sub_state (sub_state b') = p'" by blast
  show ?thesis
    using b' tells
    by (auto simp: RunAgent_def GENC_TRY_apply create run_with_def Runner_Create_def Run_computation_def lift_apply
        math_agent_author author_Ok tells_def)
qed

text \<open>A model that asks for a product first, and then gives the answer it was told.\<close>

fun contains :: "string \<Rightarrow> string \<Rightarrow> bool" where
  "contains p [] \<longleftrightarrow> p = []"
| "contains p (c # s) \<longleftrightarrow> take (length p) (c # s) = p \<or> contains p s"

definition product_libs :: "unit libs" where
  "product_libs = sample_libs\<lparr>FindAndConsume := \<lambda>_. None, StrReplaceAll := \<lambda>s rs. ''3*3?'', PartialMatch := \<lambda>s p. contains p s,
     inja_render := \<lambda>template j. case j of JString s \<Rightarrow> Ok s | _ \<Rightarrow> Ok [],
     libcurl := \<lparr>curl_easy_init = True, curl_easy_escape = (\<lambda>s. s),
       curl_easy_perform = (\<lambda>os. case os of
           CURLOPT_POSTFIELDS body # _ \<Rightarrow> CURLE_OK [if contains ''Observation: 9'' body then ''Finish[9]'' else ''Math[3*3]'']
         | _ \<Rightarrow> CURLE_OK [''9''])\<rparr>\<rparr>"

definition product_captures :: re_capture where
  "product_captures dot_nl pattern s = (if pattern = kMathPattern then Some ''3*3'' else Some s)"


lemma product_spec:
  "react_agent product_libs product_captures [] [] ''3*3?'' \<lparr>said = [], shown = []\<rparr> =
    (Ok ''Thought: Finish[9]\<newline>Action: Finish[9]\<newline>'',
     \<lparr>said = map (\<lambda>s. plain (KStr s)) [''3*3?'', ''Thought: Math[3*3]\<newline>Action: Math[3*3]\<newline>'', ''Observation: 9\<newline>''],
      shown = [''3*3?'', ''Thought: Math[3*3]\<newline>Action: Math[3*3]\<newline>'', ''Observation: 9\<newline>'',
        ''Thought: Finish[9]\<newline>Action: Finish[9]\<newline>'']\<rparr>)"
proof -
  have fill: "fill_prompt product_libs ''3*3?'' = Ok ''3*3?''"
    by (simp add: fill_prompt_def product_libs_def of_loop_def find_parameters.simps)
  show ?thesis unfolding react_agent_def fill by code_simp
qed

lemma math_agent_is_react_loop_witness:
  "\<exists>b'. RunAgent (new_executor (CreateDefaultExecutor 4 product_libs (\<lambda>_. Ok []) product_captures toy_llama (\<lambda>_. None)))
      [] [] ''3*3?'' (initial_local_state empty_memory) = (Ok (plain (KStr ''Thought: Finish[9]\<newline>Action: Finish[9]\<newline>'')), b')
    \<and> console_lines (sub_state (sub_state b')) = [[Txt ''3*3?''], [Txt ''Thought: Math[3*3]\<newline>Action: Math[3*3]\<newline>''],
        [Txt ''Observation: 9\<newline>''], [Txt ''Thought: Finish[9]\<newline>Action: Finish[9]\<newline>'']]"
proof -
  have sub: "sub_state (sub_state (initial_local_state empty_memory)) = empty_memory"
    by (simp add: initial_local_state_def initial_state_def)
  have "remembers (sub_state (sub_state (initial_local_state empty_memory))) []"
    unfolding sub by (rule remembers_nothing) (simp add: empty_memory_def)
  from math_agent_is_react_loop [OF product_spec _ this order_refl, of "\<lambda>_. Ok []" toy_llama "\<lambda>_. None"]
  show ?thesis unfolding sub by (auto simp: empty_memory_def)
qed

end
