(* ===== verification/Worker_Programs.thy ===== *)
theory Worker_Programs
  imports Stacks Remote Attestation
begin

text \<open>
  The command-line programs of the worker: \<^verbatim>\<open>genc/cc/examples/worker\<close> with its client and
  its server, and the two tools of \<^verbatim>\<open>genc/cc/examples/confidential_computing\<close>. The flags are
  records; gRPC, the parser of the text format and the printing of protos are parameters.
\<close>

section \<open>The client of the worker\<close>

record client_flags =
  server_flag :: string
  ir_flag :: string
  prompt_flag :: string
  oak_flag :: bool
  ssl_flag :: bool
  cert_flag :: string
  target_override_flag :: string
  debug_flag :: bool
  image_reference_flag :: string
  image_digest_flag :: string

definition CreateServerAddress :: "client_flags \<Rightarrow> string" where
  "CreateServerAddress flags = server_flag flags"

datatype channel_credentials =
    InsecureChannelCredentials
  | SslCredentials (pem_root_certs: string)

definition CreateChannelCredentials :: "(string \<Rightarrow> string) \<Rightarrow> client_flags \<Rightarrow> channel_credentials" where
  "CreateChannelCredentials ReadFile flags =
     (if ssl_flag flags
      then SslCredentials (if cert_flag flags \<noteq> [] then ReadFile (cert_flag flags) else [])
      else InsecureChannelCredentials)"

record channel =
  channel_address :: string
  channel_creds :: channel_credentials
  ssl_target_name_override :: "string option"

definition CreateChannel :: "(string \<Rightarrow> string) \<Rightarrow> client_flags \<Rightarrow> channel" where
  "CreateChannel ReadFile flags =
     (let server_address = CreateServerAddress flags;
          creds = CreateChannelCredentials ReadFile flags;
          target_override = target_override_flag flags
      in if target_override \<noteq> []
         then \<lparr>channel_address = server_address, channel_creds = creds, ssl_target_name_override = Some target_override\<rparr>
         else \<lparr>channel_address = server_address, channel_creds = creds, ssl_target_name_override = None\<rparr>)"

definition CreateFn :: "(string \<Rightarrow> pvalue option) \<Rightarrow> client_flags \<Rightarrow> pvalue outcome" where
  "CreateFn TextFormat_Parse flags =
     (if ir_flag flags = [] then InvalidArgumentError [Txt ''IR is required.'']
      else case TextFormat_Parse (ir_flag flags) of
        None \<Rightarrow> InvalidArgumentError [Txt ''Could not parse the IR.'']
      | Some v \<Rightarrow> Ok v)"

definition CreateArg :: "client_flags \<Rightarrow> pvalue outcome" where
  "CreateArg flags =
     (if prompt_flag flags = [] then InvalidArgumentError [Txt ''Prompt is required.'']
      else Ok (set_case (KStr (prompt_flag flags)) empty_value))"

text \<open>The executor of a run starts with an empty table and goes away with the run.\<close>

definition with_new_executor :: "(('v, 's) base_state, 'a) prog \<Rightarrow> ('s, 'a) prog" where
  "with_new_executor p = (\<lambda>s. case p (initial_state s) of (r, b) \<Rightarrow> (r, sub_state b))"

text \<open>
  \<open>NewStub\<close> and \<open>CreateClient\<close> give the stub of a channel; the verifier is made from the
  provenance and the debug flag. The result is the value that is printed.
\<close>

definition worker_RunClient ::
  "(string \<Rightarrow> string) \<Rightarrow> (string \<Rightarrow> pvalue option) \<Rightarrow> (channel \<Rightarrow> 's stub)
     \<Rightarrow> (WorkloadProvenance \<Rightarrow> bool \<Rightarrow> ('s, 'ver) prog) \<Rightarrow> (channel \<Rightarrow> 'ver \<Rightarrow> bool \<Rightarrow> ('s, 's stub) prog)
     \<Rightarrow> client_flags \<Rightarrow> ('s, pvalue) prog" where
  "worker_RunClient ReadFile TextFormat_Parse NewStub new_verifier create_client flags =
     GENC_TRY (lift (CreateFn TextFormat_Parse flags)) (\<lambda>func.
     GENC_TRY (lift (CreateArg flags)) (\<lambda>arg.
     let channel = CreateChannel ReadFile flags in
     GENC_TRY
       (if oak_flag flags then
          let debug = debug_flag flags;
              provenance = \<lparr>container_image_reference = image_reference_flag flags,
                container_image_digest = image_digest_flag flags\<rparr>
          in GENC_TRY (new_verifier provenance debug) (\<lambda>verifier. create_client channel verifier debug)
        else return (NewStub channel)) (\<lambda>executor_stub.
     with_new_executor
       (GENC_TRY (lift (Runner_Create_with func (Some (CreateRemoteExecutor executor_stub thread_based)))) (\<lambda>runner.
          Run_arg runner arg)))))"

section \<open>The server of the worker\<close>

record server_flags =
  port_flag :: int
  key_flag :: string
  server_cert_flag :: string
  server_oak_flag :: bool
  server_debug_flag :: bool

definition default_options :: RunServerOptions where
  "default_options = \<lparr>server_address = [], channel_type = INSECURE, ssl_cert_path = [], ssl_key_path = [],
     use_oak = False, run_debug = False\<rparr>"

text \<open>Both assignments of the branch are to the path of the certificate.\<close>

definition worker_options :: "(int \<Rightarrow> string) \<Rightarrow> server_flags \<Rightarrow> RunServerOptions" where
  "worker_options StrCat_int flags =
     (let opts = default_options\<lparr>server_address := ''[::]:'' @ StrCat_int (port_flag flags)\<rparr>;
          opts = (if server_cert_flag flags \<noteq> [] \<or> key_flag flags \<noteq> []
            then opts\<lparr>channel_type := SSL, ssl_cert_path := server_cert_flag flags,
                   ssl_cert_path := key_flag flags\<rparr>
            else opts)
      in opts\<lparr>use_oak := server_oak_flag flags, run_debug := server_debug_flag flags\<rparr>)"

definition worker_RunServer ::
  "('kp, 'q, 'x, 'e, 's) oak_lib \<Rightarrow> atoi_lib \<Rightarrow> (string \<Rightarrow> string)
     \<Rightarrow> (bool \<Rightarrow> ('s, string \<Rightarrow> ('s, evidence) prog) prog)
     \<Rightarrow> (('kp, 's) grpc_server \<Rightarrow> bool) \<Rightarrow> (('kp, 's) grpc_server \<Rightarrow> ('s, unit) prog) \<Rightarrow> (int \<Rightarrow> string)
     \<Rightarrow> ('s, (ValueId, 's) executor) prog \<Rightarrow> server_flags \<Rightarrow> ('s, unit) prog" where
  "worker_RunServer K A ReadFile new_provider starts wait StrCat_int create_executor flags =
     GENC_TRY create_executor (\<lambda>executor.
     RunServer K A ReadFile new_provider starts wait executor (worker_options StrCat_int flags))"

section \<open>The tools for confidential computing\<close>

text \<open>
  The client asks the unary session for its evidence; the code of a failed call is cast to
  the code of the status. The result is what is printed.
\<close>

definition evidence_RunClient :: "('s, grpc_status \<times> evidence option) prog \<Rightarrow> ('s, evidence option) prog" where
  "evidence_RunClient call =
     GENC_TRY call (\<lambda>(status, response).
     case GrpcToAbslStatus status of
       Some e \<Rightarrow> lift (Err e)
     | None \<Rightarrow> return response)"

definition debug_attestation_Run ::
  "'n curl_lib \<Rightarrow> ('k, 'p, 'j) jwt_lib \<Rightarrow> (evidence \<Rightarrow> string) \<Rightarrow> ('n network, string) prog
     \<Rightarrow> ('n network, attestation_results) prog" where
  "debug_attestation_Run L J evidence_DebugString new_public_key =
     GENC_TRY new_public_key (\<lambda>serialized_public_key.
     GENC_TRY (CreateAttestationProvider L J evidence_DebugString True None) (\<lambda>attestation_provider.
     GENC_TRY (attestation_provider serialized_public_key) (\<lambda>endorsed_evidence.
     GENC_TRY (CreateAttestationVerifier L J \<lparr>container_image_reference = [], container_image_digest = []\<rparr> True None)
       (\<lambda>attestation_verifier. attestation_verifier endorsed_evidence))))"

section \<open>The main functions\<close>

text \<open>Both report a failure on the output and exit with 0. The result is what is printed.\<close>

definition worker_client_main ::
  "(string \<Rightarrow> string) \<Rightarrow> (string \<Rightarrow> pvalue option) \<Rightarrow> (channel \<Rightarrow> 's stub)
     \<Rightarrow> (WorkloadProvenance \<Rightarrow> bool \<Rightarrow> ('s, 'ver) prog) \<Rightarrow> (channel \<Rightarrow> 'ver \<Rightarrow> bool \<Rightarrow> ('s, 's stub) prog)
     \<Rightarrow> client_flags \<Rightarrow> ('s, message) prog" where
  "worker_client_main ReadFile TextFormat_Parse NewStub new_verifier create_client flags = (\<lambda>s.
     case worker_RunClient ReadFile TextFormat_Parse NewStub new_verifier create_client flags s of
       (Ok result, s') \<Rightarrow> (Ok [Txt ''\<newline>'', DebugString result, Txt ''\<newline>\<newline>''], s')
     | (Err e, s') \<Rightarrow> (Ok [Txt ''Client failed with status: '', StatusText (code e) (msg e), Txt ''\<newline>''], s')
     | (Crash c, s') \<Rightarrow> (Crash c, s')
     | (Diverge, s') \<Rightarrow> (Diverge, s'))"

definition worker_server_main ::
  "('kp, 'q, 'x, 'e, 's) oak_lib \<Rightarrow> atoi_lib \<Rightarrow> (string \<Rightarrow> string)
     \<Rightarrow> (bool \<Rightarrow> ('s, string \<Rightarrow> ('s, evidence) prog) prog)
     \<Rightarrow> (('kp, 's) grpc_server \<Rightarrow> bool) \<Rightarrow> (('kp, 's) grpc_server \<Rightarrow> ('s, unit) prog) \<Rightarrow> (int \<Rightarrow> string)
     \<Rightarrow> ('s, (ValueId, 's) executor) prog \<Rightarrow> server_flags \<Rightarrow> ('s, message) prog" where
  "worker_server_main K A ReadFile new_provider starts wait StrCat_int create_executor flags = (\<lambda>s.
     case worker_RunServer K A ReadFile new_provider starts wait StrCat_int create_executor flags s of
       (Ok u, s') \<Rightarrow> (Ok [], s')
     | (Err e, s') \<Rightarrow> (Ok [Txt ''Server failed with status: '', StatusText (code e) (msg e), Txt ''\<newline>''], s')
     | (Crash c, s') \<Rightarrow> (Crash c, s')
     | (Diverge, s') \<Rightarrow> (Diverge, s'))"

text \<open>The tools exit with a code; the client of the evidence always exits with 0.\<close>

definition evidence_client_main :: "('s, grpc_status \<times> evidence option) prog \<Rightarrow> ('s, int) prog" where
  "evidence_client_main call = (\<lambda>s. case evidence_RunClient call s of
       (Crash c, s') \<Rightarrow> (Crash c, s')
     | (Diverge, s') \<Rightarrow> (Diverge, s')
     | (_, s') \<Rightarrow> (Ok 0, s'))"

definition debug_attestation_main ::
  "'n curl_lib \<Rightarrow> ('k, 'p, 'j) jwt_lib \<Rightarrow> (evidence \<Rightarrow> string) \<Rightarrow> ('n network, string) prog \<Rightarrow> ('n network, int) prog" where
  "debug_attestation_main L J evidence_DebugString new_public_key = (\<lambda>s.
     case debug_attestation_Run L J evidence_DebugString new_public_key s of
       (Ok results, s') \<Rightarrow> (Ok 0, s')
     | (Err e, s') \<Rightarrow> (Ok (- 1), s')
     | (Crash c, s') \<Rightarrow> (Crash c, s')
     | (Diverge, s') \<Rightarrow> (Diverge, s'))"

section \<open>What the programs do\<close>

text \<open>
  Reading a file of the file system: a stream that could not be opened has no characters.
  So a worker whose key file cannot be read serves SSL with empty credentials.
\<close>

definition read_file :: "(string \<rightharpoonup> string) \<Rightarrow> string \<Rightarrow> string" where
  "read_file files filename = (case files filename of Some content \<Rightarrow> content | None \<Rightarrow> [])"

lemma unreadable_key_is_served:
  assumes "key_flag flags \<noteq> []" and "files (key_flag flags) = None" and "files [] = None"
  shows "GetCreds (read_file files) (worker_options StrCat_int flags) = Ok (SslServerCredentials [] [] [])"
  using assms by (simp add: GetCreds_def worker_options_def default_options_def Let_def read_file_def)


lemma room_both_new: "room_for 3 s \<Longrightarrow> room_both 3 (initial_state s)"
  by (simp add: room_both_def room_for_def tracked_inv_initial) (simp add: initial_state_def)


text \<open>A worker that logs the prompt.\<close>

definition logging_worker :: "(ValueFuture, unit process) executor_impl" where
  "logging_worker = InlineExecutor [kLogger \<mapsto> Logger] sample_libs thread_based"

definition logger_value :: pvalue where
  "logger_value = plain (KIntrinsic (IntrinsicPb kLogger None))"

definition sample_client_flags :: client_flags where
  "sample_client_flags = \<lparr>server_flag = ''localhost:50051'', ir_flag = ''logger'', prompt_flag = ''hi'', oak_flag = False,
     ssl_flag = False, cert_flag = [], target_override_flag = [], debug_flag = False, image_reference_flag = [],
     image_digest_flag = []\<rparr>"

lemma logging_run:
  "run_values logging_worker logger_value (plain (KStr ''hi'')) new_process =
     (Ok (plain (KStr ''hi'')), write_console [Txt ''hi''] new_process)"
  by code_simp


end
