(* ===== verification/Deployment.thy ===== *)
theory Deployment
  imports Worker_Programs Confidential_Run Programs
begin

text \<open>
  The client and the worker put together: a program that was written with the authoring
  library, sent by the command-line client of \<^verbatim>\<open>genc/cc/examples/worker\<close> over gRPC or over the
  attested Oak channel to a worker that serves a local executor stack.
\<close>

section \<open>A program on the control flow executor of the stack\<close>

lemma program_values:
  assumes "runnable hs p" and "holds_data arg" and "depth p + turns \<le> n"
    and "tracked_inv s" and "unat (next_value_id s) + (handles turns p + 2) < 2 ^ 64"
    and "meaning turns hs lib p arg (sub_state s) = (r, out)" and "r \<noteq> Diverge"
  shows "\<exists>s1. run_values (local_impl n hs lib) (plain (KIntrinsic (program_pb p))) arg s = (r, s1) \<and> sub_state s1 = out"
  using local_run_program [OF assms(1,3,2) le_refl assms(6,7)] local_impl_values [OF assms(4,5) _ assms(7)]
  by blast

lemma text_never_crashes: "fst (impl_create_value (local_impl n hs lib) (plain (KStr x)) s) \<noteq> Crash c"
  by (simp add: local_impl_def ControlFlowExecutor_def ConstCreateExecutorValue_def embed_in_child_def base_create_value_def
      Inline_CreateExecutorValue_def RunAsync_def thread_based_def TrackValue_def in_sub_def GENC_TRY_apply return_apply
      lift_apply Let_def)

section \<open>A client that reaches the worker\<close>

text \<open>
  Without Oak the stub of the channel is the executor service of the worker; with Oak
  the verifier accepts the evidence of the worker and the client talks to its Oak service.
\<close>

definition provenance_of :: "client_flags \<Rightarrow> WorkloadProvenance" where
  "provenance_of flags = \<lparr>container_image_reference = image_reference_flag flags,
     container_image_digest = image_digest_flag flags\<rparr>"

definition connects ::
  "(WorkloadProvenance \<Rightarrow> bool \<Rightarrow> ('s, 'ver) prog) \<Rightarrow> (channel \<Rightarrow> 'ver \<Rightarrow> bool \<Rightarrow> ('s, 's stub) prog)
     \<Rightarrow> (string \<Rightarrow> string) \<Rightarrow> client_flags \<Rightarrow> 's \<Rightarrow> 's stub \<Rightarrow> bool" where
  "connects new_verifier create_client ReadFile flags s st \<longleftrightarrow>
     GENC_TRY (new_verifier (provenance_of flags) (debug_flag flags))
       (\<lambda>verifier. create_client (CreateChannel ReadFile flags) verifier (debug_flag flags)) s = (Ok st, s)"

lemma client_reaches:
  assumes "CreateFn TextFormat_Parse flags = Ok func" and "CreateArg flags = Ok arg"
    and "if oak_flag flags then connects new_verifier create_client ReadFile flags s st
      else NewStub (CreateChannel ReadFile flags) = st"
  shows "worker_RunClient ReadFile TextFormat_Parse NewStub new_verifier create_client flags s =
    (case RunInternal (CreateRemoteExecutor st thread_based) func arg (initial_state s) of (r, b) \<Rightarrow> (r, sub_state b))"
  using assms
  by (cases "oak_flag flags")
     (simp_all add: worker_RunClient_def lift_Ok Let_def with_new_executor_def Runner_Create_with_def Run_arg_def
        connects_def provenance_of_def GENC_TRY_apply [of "GENC_TRY (new_verifier _ _) _"] return_apply)


lemma local_service: "CreateExecutorService A (CreateLocalExecutor n hs lib None) = server A (local_impl n hs lib)"
  by (simp add: server_def local_impl_stack)

text \<open>A run over gRPC and a run over the Oak channel, on what a run on the worker gives.\<close>

definition delivered :: "bool \<Rightarrow> pvalue outcome \<Rightarrow> 'w process \<Rightarrow> 'w local_state \<Rightarrow> pvalue outcome \<times> 'w local_state \<Rightarrow> bool" where
  "delivered exact r out s run \<longleftrightarrow> (case r of
      Ok v \<Rightarrow> fst run = Ok v \<and> sub_state (sub_state (snd run)) = out \<and> tracked_values (snd run) = tracked_values s
    | Err e \<Rightarrow> (\<exists>e'. fst run = Err e' \<and> (exact \<longrightarrow> e' = e)) \<and> tracked_values (snd run) = tracked_values s
    | _ \<Rightarrow> False)"

lemma service_delivers:
  assumes "number_codec (StrCat_id A) (SimpleAtoi_id A)" and "room_for 3 s" and "returned r"
    and "run_values (local_impl n hs lib) func (plain (KStr x)) (sub_state s) = (r, s1)" and "sub_state s1 = out"
  shows "delivered True r out s (case RunInternal (CreateRemoteExecutor (server A (local_impl n hs lib)) thread_based)
      func (plain (KStr x)) (initial_state s) of (r, b) \<Rightarrow> (r, sub_state b))"
proof -
  let ?b = "initial_state s"
  obtain r' b' where run: "RunInternal (client A (local_impl n hs lib)) func (plain (KStr x)) ?b = (r', b')"
    by (cases "RunInternal (client A (local_impl n hs lib)) func (plain (KStr x)) ?b")
  have restored: "restores_both ?b (r', b') (future_run (local_impl n hs lib) func (plain (KStr x)) (sub_state s))"
    using remote_run_future [OF assms(1) room_both_new [OF assms(2)], of "local_impl n hs lib" func "plain (KStr x)"] run
    by (simp add: initial_state_def)
  show ?thesis
    using assms(3-5) run restored future_run_Ok [of "local_impl n hs lib" func "plain (KStr x)" "sub_state s"]
      future_run_Err [of "local_impl n hs lib" func "plain (KStr x)" "sub_state s", OF _ text_never_crashes]
    by (auto simp: delivered_def restores_both_def client_def initial_state_def)
qed

lemma oak_delivers:
  fixes sv :: "('kp, 'w local_state) oak_service"
  assumes "number_codec (StrCat_id A) (SimpleAtoi_id A)" and "room_for 3 s" and "returned r"
    and "run_values (local_impl n hs lib) func (plain (KStr x)) (sub_state s) = (r, s1)" and "sub_state s1 = out"
    and "wire_format K" and "seals K (encryption_provider sv) seal unseal" and "\<not> service_debug sv"
    and "executor_service sv = server A (local_impl n hs lib)"
  shows "delivered False r out s
     (case RunInternal (CreateRemoteExecutor (OakClient K (sealed_invoke K sv seal unseal) False) thread_based)
      func (plain (KStr x)) (initial_state s) of (r, b) \<Rightarrow> (r, sub_state b))"
proof -
  let ?b = "initial_state s"
  obtain r' b' where run: "RunInternal (oak_executor K sv seal unseal) func (plain (KStr x)) ?b = (r', b')"
    by (cases "RunInternal (oak_executor K sv seal unseal) func (plain (KStr x)) ?b")
  note future = oak_run_future [OF assms(6-9,1) room_both_new [OF assms(2)] run]
  show ?thesis
    using assms(3-5) run future future_run_Ok [of "local_impl n hs lib" func "plain (KStr x)" "sub_state s"]
      future_run_Err [of "local_impl n hs lib" func "plain (KStr x)" "sub_state s", OF _ text_never_crashes]
    by (auto simp: delivered_def oak_executor_def initial_state_def)
qed



text \<open>A worker behind the Oak channel that logs the prompt.\<close>

definition log_handlers :: "unit IntrinsicHandlerSet" where
  "log_handlers = [kSerialChain \<mapsto> SerialChain, kLogger \<mapsto> Logger]"

definition log_program :: program where
  "log_program = Chain [Inline (IntrinsicPb kLogger None)]"

definition log_worker :: "unit local_state stub" where
  "log_worker = CreateExecutorService decimal_atoi (CreateLocalExecutor 2 log_handlers sample_libs None)"

definition log_service :: "(string, unit local_state) oak_service" where
  "log_service = \<lparr>executor_service = log_worker, encryption_provider = ''k1'', serialized_public_key = ''k1'',
     attestation_provider = (\<lambda>_. return sample_evidence), service_debug = False\<rparr>"

definition log_client :: "unit local_state stub" where
  "log_client = OakClient box_lib (sealed_invoke box_lib log_service (Pair ''k1'') (\<lambda>_. Ok)) False"

lemma log_program_means:
  "meaning 0 log_handlers sample_libs log_program (plain (KStr ''hi'')) new_process =
     (Ok (plain (KStr ''hi'')), write_console [Txt ''hi''] new_process)"
  by code_simp

lemma log_program_runs: "runnable log_handlers log_program" "depth log_program = 2"
  by (simp_all add: log_program_def log_handlers_def GetHandler_def CheckWellFormed_defs static_parameter_def or_default_def)
     (simp_all add: uri_defs)


end
