(* ===== verification/Python_Bindings.thy ===== *)
theory Python_Bindings
  imports Authoring Runner Simulation Stacks
begin

text \<open>
  The modules that pybind11 exposes to Python: the constructors
  (\<^verbatim>\<open>genc/cc/authoring/constructor_bindings.cc\<close>), the executor interface
  (\<^verbatim>\<open>genc/cc/runtime/executor_bindings.cc\<close>) and the names of the intrinsics
  (\<^verbatim>\<open>genc/cc/intrinsics/intrinsic_bindings.cc\<close>). What pybind11 does with the arguments of a
  call is its documented behaviour: a call with the wrong number or type of arguments, or
  with an integer that does not fit the C++ type, is a \<open>TypeError\<close>; a status that is not OK
  is raised.
\<close>

section \<open>Arguments and results\<close>

datatype py_value = PyStr string | PyInt int | PyProto pvalue | PyList "py_value list" | PyNone

datatype 'a py_result = Returned 'a | TypeError | AttributeError | NotOkStatus status | Aborted

definition py_status_or :: "'a outcome \<Rightarrow> 'a py_result" where
  "py_status_or r = (case r of
      Ok x \<Rightarrow> Returned x | Err e \<Rightarrow> NotOkStatus e | Crash c \<Rightarrow> Aborted | Diverge \<Rightarrow> Aborted)"

fun as_string :: "py_value \<Rightarrow> string option" where
  "as_string (PyStr s) = Some s"
| "as_string v = None"

fun as_int :: "py_value \<Rightarrow> i32 option" where
  "as_int (PyInt n) = (if - (2 ^ 31) \<le> n \<and> n < 2 ^ 31 then Some (word_of_int n) else None)"
| "as_int v = None"

fun as_proto :: "py_value \<Rightarrow> pvalue option" where
  "as_proto (PyProto v) = Some v"
| "as_proto v = None"

fun as_list :: "(py_value \<Rightarrow> 'a option) \<Rightarrow> py_value \<Rightarrow> 'a list option" where
  "as_list conv (PyList vs) = those (map conv vs)"
| "as_list conv v = None"

text \<open>A bound function: it converts the arguments from the left and calls the C++ function.\<close>

type_synonym bound_function = "py_value list \<Rightarrow> pvalue outcome option"

fun bind0 :: "pvalue outcome \<Rightarrow> bound_function" where
  "bind0 f [] = Some f"
| "bind0 f args = None"

fun bind1 :: "(py_value \<Rightarrow> 'a option) \<Rightarrow> ('a \<Rightarrow> pvalue outcome) \<Rightarrow> bound_function" where
  "bind1 c f [a] = map_option f (c a)"
| "bind1 c f args = None"

fun bind2 ::
  "(py_value \<Rightarrow> 'a option) \<Rightarrow> (py_value \<Rightarrow> 'b option) \<Rightarrow> ('a \<Rightarrow> 'b \<Rightarrow> pvalue outcome) \<Rightarrow> bound_function" where
  "bind2 c d f [a, b] = Option.bind (c a) (\<lambda>x. map_option (f x) (d b))"
| "bind2 c d f args = None"

fun bind3 ::
  "(py_value \<Rightarrow> 'a option) \<Rightarrow> (py_value \<Rightarrow> 'b option) \<Rightarrow> (py_value \<Rightarrow> 'c option)
     \<Rightarrow> ('a \<Rightarrow> 'b \<Rightarrow> 'c \<Rightarrow> pvalue outcome) \<Rightarrow> bound_function" where
  "bind3 c d e f [a, b, x] = Option.bind (c a) (\<lambda>u. Option.bind (d b) (\<lambda>v. map_option (f u v) (e x)))"
| "bind3 c d e f args = None"

section \<open>The constructors\<close>

definition constructor_bindings :: "(string \<times> bound_function) list" where
  "constructor_bindings =
    [(''create_model'', bind1 as_string CreateModelInference),
     (''create_model_with_config'', bind2 as_string as_proto CreateModelInferenceWithConfig),
     (''create_prompt_template'', bind1 as_string CreatePromptTemplate),
     (''create_prompt_template_with_parameters'',
        bind2 as_string (as_list as_string) CreatePromptTemplateWithParameters),
     (''create_regex_partial_match'', bind1 as_string CreateRegexPartialMatch),
     (''create_reference'', bind1 as_string CreateReference),
     (''create_lambda'', bind2 as_string as_proto CreateLambda),
     (''create_repeat'', bind2 as_int as_proto CreateRepeat),
     (''create_call'', bind2 as_proto as_proto CreateCall),
     (''create_serial_chain'', bind1 (as_list as_proto) CreateSerialChain),
     (''create_while'', bind2 as_proto as_proto CreateWhile),
     (''create_custom_function'', bind1 as_string CreateCustomFunction),
     (''create_logical_not'', bind0 CreateLogicalNot),
     (''create_parallel_map'', bind1 as_proto CreateParallelMap),
     (''create_repeated_conditional_chain'', bind2 as_int (as_list as_proto) CreateRepeatedConditionalChain),
     (''create_logger'', bind0 CreateLogger),
     (''create_breakable_chain'', bind1 (as_list as_proto) CreateBreakableChain),
     (''create_struct'', bind1 (as_list as_proto) CreateStruct),
     (''create_named_value'', bind2 as_string as_proto CreateNamedValue),
     (''create_selection'', bind2 as_proto as_int CreateSelection),
     (''create_conditional'', bind3 as_proto as_proto as_proto CreateConditional),
     (''create_fallback'', bind1 (as_list as_proto) CreateFallback),
     (''create_inja_template'', bind1 as_string CreateInjaTemplate),
     (''create_rest_call'', bind3 as_string as_string as_string CreateRestCall),
     (''create_wolfram_alpha'', bind1 as_string CreateWolframAlpha),
     (''create_rest_model_config'', bind2 as_string as_string CreateRestModelConfig),
     (''create_rest_model_config_with_json_request_template'',
        bind3 as_string as_string as_string CreateRestModelConfigWithJsonRequestTemplate)]"

definition python_call :: "(string \<times> bound_function) list \<Rightarrow> string \<Rightarrow> py_value list \<Rightarrow> pvalue py_result" where
  "python_call module name args = (case map_of module name of
      None \<Rightarrow> AttributeError
    | Some f \<Rightarrow> (case f args of None \<Rightarrow> TypeError | Some r \<Rightarrow> py_status_or r))"

lemma constructor_names_distinct: "distinct (map fst constructor_bindings)"
  by (simp add: constructor_bindings_def)

lemma in_constructors: "(name, f) \<in> set constructor_bindings \<Longrightarrow>
   python_call constructor_bindings name args = (case f args of None \<Rightarrow> TypeError | Some r \<Rightarrow> py_status_or r)"
  by (simp add: python_call_def map_of_is_SomeI [OF constructor_names_distinct])

section \<open>The names of the intrinsics\<close>

definition intrinsic_bindings :: "(string \<times> string) list" where
  "intrinsic_bindings =
    [(''BREAKABLE_CHAIN'', kBreakableChain), (''CONDITIONAL'', kConditional),
     (''CUSTOM_FUNCTION'', kCustomFunction), (''DELEGATE'', kDelegate), (''FALLBACK'', kFallback),
     (''LOGGER'', kLogger), (''LOGICAL_NOT'', kLogicalNot), (''MODEL_INFERENCE'', kModelInference),
     (''MODEL_INFERENCE_WITH_CONFIG'', kModelInferenceWithConfig), (''PROMPT_TEMPLATE'', kPromptTemplate),
     (''PROMPT_TEMPLATE_WITH_PARAMETERS'', kPromptTemplateWithParameters), (''PARALLEL_MAP'', kParallelMap),
     (''REGEX_PARTIAL_MATCH'', kRegexPartialMatch), (''REPEAT'', kRepeat),
     (''REPEATED_CONDITIONAL_CHAIN'', kRepeatedConditionalChain), (''SERIAL_CHAIN'', kSerialChain),
     (''WHILE'', kWhile), (''CONFIDENTIAL_COMPUTATION'', kConfidentialComputation)]"

section \<open>The executor\<close>

text \<open>
  The methods give owned handles, which release when Python collects them. There is no
  method to dispose of a value.
\<close>

definition py_create_value :: "('h, 's) executor \<Rightarrow> pvalue \<Rightarrow> ('s, 'h) prog" where
  "py_create_value ex v = create_value ex v"

definition py_create_struct :: "('h, 's) executor \<Rightarrow> 'h list \<Rightarrow> ('s, 'h) prog" where
  "py_create_struct ex hs = create_struct ex hs"

definition py_create_selection :: "('h, 's) executor \<Rightarrow> 'h \<Rightarrow> u32 \<Rightarrow> ('s, 'h) prog" where
  "py_create_selection ex h i = create_selection ex h i"

definition py_create_call :: "('h, 's) executor \<Rightarrow> 'h \<Rightarrow> 'h option \<Rightarrow> ('s, 'h) prog" where
  "py_create_call ex f a = create_call ex f a"

text \<open>A fresh message is written to and returned, unless the status is not OK.\<close>

definition py_materialize :: "('h, 's) executor \<Rightarrow> 'h \<Rightarrow> ('s, pvalue) prog" where
  "py_materialize ex h = (\<lambda>s. case materialize ex h True s of
      (Ok r, s') \<Rightarrow> (Ok (case r of None \<Rightarrow> empty_value | Some p \<Rightarrow> p), s')
    | (Err e, s') \<Rightarrow> (Err e, s')
    | (Crash c, s') \<Rightarrow> (Crash c, s')
    | (Diverge, s') \<Rightarrow> (Diverge, s'))"

definition py_OwnedValueId_str :: "ValueId \<Rightarrow> string" where
  "py_OwnedValueId_str h = decimal_u64 h"

definition py_OwnedValueId_repr :: "ValueId \<Rightarrow> string" where
  "py_OwnedValueId_repr h = ''<OwnedValueId: '' @ decimal_u64 h @ ''>''"

definition py_create_default_local_executor :: "nat \<Rightarrow> 'c libs \<Rightarrow> (ValueId, 'w local_state) executor" where
  "py_create_default_local_executor n lib = CreateDefaultLocalExecutor n lib"

section \<open>What Python sees\<close>

text \<open>
  A Python integer reaches the constructor as itself or not at all: no number of
  repetitions wraps around on the way.
\<close>

text \<open>
  The module of the examples (\<^verbatim>\<open>genc/cc/examples/executors/executor_bindings.cc\<close>) has one
  function; it never raises, since the stack is always created.
\<close>

definition py_create_default_executor ::
  "nat \<Rightarrow> 'c libs \<Rightarrow> (json \<Rightarrow> string outcome) \<Rightarrow> re_capture \<Rightarrow> ('m, 'x, 'f) llama_lib \<Rightarrow> (string \<Rightarrow> i32 option)
     \<Rightarrow> ('m, 'x) stack_process \<Rightarrow> ('m, 'x) stack_executor py_result \<times> ('m, 'x) stack_process" where
  "py_create_default_executor n lib dump R L atoi p =
     (case CreateDefaultExecutor n lib dump R L atoi p of (r, p') \<Rightarrow> (py_status_or r, p'))"

lemma py_create_default_executor_returns:
  "py_create_default_executor n lib dump R L atoi p =
     (Returned (CreateLocalExecutor n (CreateCompleteHandlerSet (default_stack_config lib dump R L atoi)) lib None), init_once p)"
  by (simp add: py_create_default_executor_def py_status_or_def CreateDefaultExecutor_def
      CreateDefaultExecutorWithConcurrencyInterface_def create_with_def return_apply)

lemma sint_word_of_int: "- (2 ^ 31) \<le> n \<Longrightarrow> n < 2 ^ 31 \<Longrightarrow> sint (word_of_int n :: i32) = n"
  by (simp add: int_word_sint)

lemma python_repeat:
  "python_call constructor_bindings ''create_repeat'' [PyInt n, PyProto f] =
     (if - (2 ^ 31) \<le> n \<and> n < 2 ^ 31
      then Returned (intrinsic_with_args kRepeat
        [set_label ''num_steps'' (plain (KInt32 (word_of_int n))), set_label ''body_fn'' f])
      else TypeError)"
  "as_int (PyInt n) = Some w \<Longrightarrow> sint w = n"
  by (auto simp: python_call_def constructor_bindings_def CreateRepeat_def py_status_or_def labeled_int_32_def
      CreateLabeledValue_def sint_word_of_int split: if_splits)

text \<open>
  The names exposed to Python are identifiers of built-in handlers, all different; the
  handlers without a name are those of templates and of REST calls.
\<close>

lemma python_intrinsics_are_built_in:
  "distinct (map fst intrinsic_bindings)"
  "\<forall>(name, u) \<in> set intrinsic_bindings. \<exists>h \<in> set (built_in_handlers config). handler_uri h = u"
  "handler_uri ` set (built_in_handlers config) = snd ` set intrinsic_bindings \<union> {kInjaTemplate, kRestCall}"
  by (simp_all add: intrinsic_bindings_def built_in_handlers_def) auto

section \<open>Collecting the handles\<close>

text \<open>A run from Python: the handles live until they are collected, in any order.\<close>

definition python_run :: "('h, 's) executor \<Rightarrow> pvalue \<Rightarrow> pvalue \<Rightarrow> ('s, pvalue \<times> 'h list) prog" where
  "python_run ex computation arg =
     GENC_TRY (py_create_value ex computation) (\<lambda>f.
     GENC_TRY (py_create_value ex arg) (\<lambda>a.
     GENC_TRY (py_create_call ex f (Some a)) (\<lambda>r.
     GENC_TRY (py_materialize ex r) (\<lambda>v. return (v, [f, a, r])))))"

lemma py_materialize_pb: "py_materialize ex h = Materialize_pb ex h"
  by (auto simp: py_materialize_def Materialize_pb_def GENC_TRY_apply return_apply fun_eq_iff
      split: prod.splits outcome.splits)

lemma track_step:
  assumes "GENC_TRY (in_sub p) TrackValue b = (Ok h, b')" and "room_for (Suc k) b"
  shows "room_for k b' \<and> tracked_values b h = None \<and> (\<exists>v s'. p (sub_state b) = (Ok v, s') \<and>
    tracked_values b' = (tracked_values b)(h \<mapsto> v) \<and> sub_state b' = s')"
proof -
  obtain v s' where p: "p (sub_state b) = (Ok v, s')" and t: "TrackValue v (b\<lparr>sub_state := s'\<rparr>) = (Ok h, b')"
    using assms(1) by (auto simp: GENC_TRY_eq_Ok in_sub_def split: prod.splits)
  have room: "room_for (Suc k) (b\<lparr>sub_state := s'\<rparr>)" using assms(2) by (simp add: room_for_sub)
  then have inv: "tracked_inv (b\<lparr>sub_state := s'\<rparr>)" by (simp add: room_for_def)
  have "tracked_values (b\<lparr>sub_state := s'\<rparr>) (next_value_id b) = None"
    using tracked_inv_fresh [OF inv] by simp
  then show ?thesis
    using t p room_for_TrackValue [OF room, of v] by (auto simp: TrackValue_eq [OF inv])
qed

lemma python_run_values:
  assumes "room_for 3 b" and "python_run (ExecutorBase impl) computation arg b = (Ok (v, hs), b')"
  shows "run_values impl computation arg (sub_state b) = (Ok v, sub_state b') \<and>
    tracked_values b' |` (- set hs) = tracked_values b"
proof -
  have r3: "room_for (Suc (Suc (Suc 0))) b" using assms(1) by (simp add: numeral_3_eq_3)
  obtain f b1 a b2 r b3 where f: "base_create_value impl computation b = (Ok f, b1)"
      and a: "base_create_value impl arg b1 = (Ok a, b2)"
      and r: "base_create_call impl f (Some a) b2 = (Ok r, b3)"
      and m: "Materialize_pb (ExecutorBase impl) r b3 = (Ok v, b')" and hs: "hs = [f, a, r]"
    using assms(2)
    by (auto simp: python_run_def py_create_value_def py_create_call_def py_materialize_pb GENC_TRY_eq_Ok return_apply)
  obtain fv s1 where 1: "room_for (Suc (Suc 0)) b1" "tracked_values b f = None" "impl_create_value impl computation (sub_state b) = (Ok fv, s1)"
      "tracked_values b1 = (tracked_values b)(f \<mapsto> fv)" "sub_state b1 = s1"
    using track_step [OF f [unfolded base_create_value_def] r3] by blast
  obtain av s2 where 2: "room_for (Suc 0) b2" "tracked_values b1 a = None" "impl_create_value impl arg (sub_state b1) = (Ok av, s2)"
      "tracked_values b2 = (tracked_values b1)(a \<mapsto> av)" "sub_state b2 = s2"
    using track_step [OF a [unfolded base_create_value_def] 1(1)] by blast
  have fa: "tracked_values b2 f = Some fv" "tracked_values b2 a = Some av" using 1(4) 2(2,4) by auto
  have "base_create_call impl f (Some a) b2 = GENC_TRY (in_sub (impl_create_call impl fv (Some av))) TrackValue b2"
    using fa
    by (simp add: base_create_call_def GENC_TRY_apply [of "GetTracked _ _"] GetTracked_Some return_apply GENC_TRY_assoc)
  then obtain rv s3 where 3: "room_for 0 b3" "tracked_values b2 r = None" "impl_create_call impl fv (Some av) (sub_state b2) = (Ok rv, s3)"
      "tracked_values b3 = (tracked_values b2)(r \<mapsto> rv)" "sub_state b3 = s3"
    using track_step [of "impl_create_call impl fv (Some av)" b2 r b3 0] r 2(1) by auto
  have mat: "restores b3 (Materialize_pb (ExecutorBase impl) r b3)
      (GENC_TRY (impl_materialize impl rv True) (\<lambda>v. return (case v of None \<Rightarrow> empty_value | Some p \<Rightarrow> p)) (sub_state b3))"
    using 3(1,4) by (intro Materialize_pb_base) (simp_all add: room_for_def)
  have vals: "run_values impl computation arg (sub_state b) = (Ok v, sub_state b')"
    using mat m 1(3,5) 2(3,5) 3(3,5)
    by (simp add: run_values_def GENC_TRY_apply [of "impl_create_value _ _"] GENC_TRY_apply [of "impl_create_call _ _ _"]
        restores_def)
  have "tracked_values b' = tracked_values b3" using mat m by (simp add: restores_def)
  moreover have "tracked_values b f = None" "tracked_values b a = None" "tracked_values b r = None"
    using 1(2,4) 2(2,4) 3(2) by (simp_all split: if_splits)
  ultimately have "tracked_values b' |` (- set hs) = tracked_values b"
    by (auto simp: hs 1(4) 2(4) 3(4) restrict_map_def fun_eq_iff)
  with vals show ?thesis by simp
qed

text \<open>
  A run from Python gives what the runner gives, and when its handles have been collected,
  in whatever order, the table of the executor is as it was.
\<close>

lemma python_run_then_collect:
  assumes "room_for 3 b" and "python_run (ExecutorBase impl) computation arg b = (Ok (v, hs), b')"
    and "set order = set hs"
  shows "tracked_values (release_handles (ExecutorBase impl) order b') = tracked_values b \<and>
    (\<exists>b2. RunInternal (ExecutorBase impl) computation arg b = (Ok v, b2) \<and>
      tracked_values b2 = tracked_values b \<and> sub_state b2 = sub_state (release_handles (ExecutorBase impl) order b'))"
proof -
  have vals: "run_values impl computation arg (sub_state b) = (Ok v, sub_state b')"
      "tracked_values b' |` (- set hs) = tracked_values b"
    using python_run_values [OF assms(1,2)] by simp_all
  obtain r b2 where run: "RunInternal (ExecutorBase impl) computation arg b = (r, b2)"
    by (cases "RunInternal (ExecutorBase impl) computation arg b")
  have "restores b (r, b2) (Ok v, sub_state b')"
    using RunInternal_restores [OF assms(1), of impl computation arg] run vals by simp
  then show ?thesis
    using run vals(2) release_base [of impl order b'] assms(3) by (cases r) (simp_all add: restores_def)
qed

end
