(* ===== verification/Testing_Libs.thy ===== *)
theory Testing_Libs
  imports Computation Status
begin

text \<open>
  \<^verbatim>\<open>genc/cc/testing/testing_libs.cc\<close>: the text of a value, and a value that wraps that text in
  the name of a function. The decimal text of a float is a parameter.
\<close>

definition to_string :: "i32 \<Rightarrow> string" where
  "to_string i = (if sint i < 0 then ''-'' @ decimal (nat (- sint i)) else decimal (nat (sint i)))"

text \<open>The number of the field that is set.\<close>

fun value_case_number :: "value_oneof \<Rightarrow> int" where
  "value_case_number NotSet = 0"
| "value_case_number (KStr s) = 3"
| "value_case_number (KBoolean b) = 4"
| "value_case_number (KInt32 i) = 14"
| "value_case_number (KFloat32 f) = 18"
| "value_case_number (KStruct es) = 6"
| "value_case_number (KCall f a) = 7"
| "value_case_number (KLambda l) = 8"
| "value_case_number (KReference n) = 9"
| "value_case_number (KSelection s i) = 10"
| "value_case_number (KBlock ls r) = 11"
| "value_case_number (KIntrinsic i) = 12"
| "value_case_number (KMedia m) = 5"
| "value_case_number (KTensor t) = 1"
| "value_case_number (KCustomValue c) = 19"

fun FormatValueAsString :: "(u32 \<Rightarrow> string) \<Rightarrow> pvalue \<Rightarrow> string outcome"
and format_elements :: "(u32 \<Rightarrow> string) \<Rightarrow> pvalue list \<Rightarrow> string \<Rightarrow> string outcome" where
  "FormatValueAsString float_text (Value c t l m) = (case c of
      KStr s \<Rightarrow> Ok s
    | KBoolean b \<Rightarrow> Ok (if b then ''true'' else ''false'')
    | KInt32 i \<Rightarrow> Ok (to_string i)
    | KFloat32 f \<Rightarrow> Ok (float_text f)
    | KMedia d \<Rightarrow> Ok d
    | KStruct es \<Rightarrow> format_elements float_text es []
    | c \<Rightarrow> UnimplementedError [Txt ''Unable to format, unsupported value type ['', Num (value_case_number c), Txt '']''])"
| "format_elements float_text [] formatted_str = Ok formatted_str"
| "format_elements float_text (e # es) formatted_str =
     try_value (FormatValueAsString float_text e) (\<lambda>element_str.
     format_elements float_text es
       (if formatted_str = [] then formatted_str @ element_str
        else formatted_str @ '','' @ element_str))"

definition WrapFnNameAroundValue :: "(u32 \<Rightarrow> string) \<Rightarrow> string \<Rightarrow> pvalue \<Rightarrow> pvalue outcome" where
  "WrapFnNameAroundValue float_text fn_name v =
     try_value (FormatValueAsString float_text v) (\<lambda>formatted_value_str.
     Ok (set_case (KStr (fn_name @ ''('' @ formatted_value_str @ '')'')) empty_value))"

text \<open>
  The elements of a struct are separated by commas, except that empty texts at its start
  leave no trace: a struct that begins with an empty string reads like one without it.
\<close>

lemma format_elements_strings:
  "format_elements ft (map (\<lambda>s. plain (KStr s)) ss) acc = Ok (
     if acc = [] then (case dropWhile (\<lambda>s. s = []) ss of [] \<Rightarrow> [] | s # rest \<Rightarrow> s @ concat (map (\<lambda>t. '','' @ t) rest))
     else acc @ concat (map (\<lambda>t. '','' @ t) ss))"
  by (induction ss arbitrary: acc) (auto split: list.split)

lemma format_struct_drops_empty:
  "FormatValueAsString ft (plain (KStruct (map (\<lambda>s. plain (KStr s)) ([] # ss)))) =
   FormatValueAsString ft (plain (KStruct (map (\<lambda>s. plain (KStr s)) ss)))"
  by (simp add: format_elements_strings)

end
